(* ===== verification/Go_Base.thy ===== *)
theory Go_Base
  imports Main "HOL-Library.Word"
begin

text \<open>
  The parts of the Go language and of its standard library that every component uses:
  64-bit \<open>int\<close> with wrap-around, error values, slices (a \<open>nil\<close> slice is not the same
  value as an empty one), indexing and slicing with their run-time panic, the \<open>time\<close>
  package (instants and durations in nanoseconds, saturating subtraction) and the
  \<open>fmt\<close> verbs the code prints with. The named collections gather the facts the
  component proofs feed to the simplifier:
  \<^item> \<open>go_simps\<close>: unfolding of the small Go helpers;
  \<^item> \<open>routing_simps\<close>: what each routing operation does to the fields of its receiver;
  \<^item> \<open>raft_simps\<close>: the accessors of the RAFT object;
  \<^item> \<open>keep_intros\<close>: introduction rules that show a goroutine respects an invariant;
  \<^item> \<open>exec_simps\<close>: what each step of a goroutine does when it runs alone.
\<close>

named_theorems go_simps
named_theorems routing_simps
named_theorems raft_simps
named_theorems keep_intros
named_theorems exec_simps

section \<open>Integers\<close>

text \<open>
  Go's \<open>int\<close> on the 64-bit targets the program is built for: two's complement with
  wrap-around. A value is kept as an \<open>int\<close>; every arithmetic result goes through
  \<open>wrap64\<close>.
\<close>

type_synonym goint = int

definition wrap64 :: "int \<Rightarrow> goint" where
  "wrap64 x = (x + 9223372036854775808) mod 18446744073709551616 - 9223372036854775808"

definition add64 :: "goint \<Rightarrow> goint \<Rightarrow> goint" where
  "add64 a b = wrap64 (a + b)"

definition sub64 :: "goint \<Rightarrow> goint \<Rightarrow> goint" where
  "sub64 a b = wrap64 (a - b)"

definition is_goint :: "int \<Rightarrow> bool" where
  "is_goint x \<longleftrightarrow> - 9223372036854775808 \<le> x \<and> x < 9223372036854775808"

lemma is_goint_wrap64 [simp]: "is_goint (wrap64 x)"
  by (simp add: is_goint_def wrap64_def)

lemma wrap64_id [simp]: "is_goint x \<Longrightarrow> wrap64 x = x"
  by (simp add: is_goint_def wrap64_def)

lemma add64_exact: "is_goint (a + b) \<Longrightarrow> add64 a b = a + b"
  by (simp add: add64_def)

lemma sub64_exact: "is_goint (a - b) \<Longrightarrow> sub64 a b = a - b"
  by (simp add: sub64_def)

lemma add64_sub64_cancel: "is_goint a \<Longrightarrow> sub64 (add64 a b) b = a"
  by (simp add: add64_def sub64_def wrap64_def is_goint_def mod_diff_left_eq mod_simps)

lemma wrap64_max: "wrap64 (9223372036854775807 + 1) = - 9223372036854775808"
  by (simp add: wrap64_def)

type_synonym int32 = "32 word"

section \<open>Errors, slices and panics\<close>

text \<open>An \<open>error\<close> is \<open>nil\<close> or a message.\<close>

type_synonym go_error = "string option"

abbreviation nil_error :: go_error where
  "nil_error \<equiv> None"

text \<open>
  A slice is \<open>nil\<close> or a sequence. \<open>reflect.DeepEqual\<close> tells a \<open>nil\<close> slice from an
  empty one, so the model does too.
\<close>

type_synonym 'a slice = "'a list option"

definition slice_items :: "'a slice \<Rightarrow> 'a list" where
  "slice_items s = (case s of None \<Rightarrow> [] | Some xs \<Rightarrow> xs)"

lemma slice_items_simps [simp]: "slice_items None = []" "slice_items (Some xs) = xs"
  by (simp_all add: slice_items_def)

text \<open>Indexing and slicing return a value or stop the program with a panic.\<close>

datatype 'a checked = Value 'a | Panic

definition index_at :: "'a list \<Rightarrow> goint \<Rightarrow> 'a checked" where
  "index_at xs i = (if 0 \<le> i \<and> i < int (length xs) then Value (xs ! nat i) else Panic)"

definition slice_from :: "'a list \<Rightarrow> goint \<Rightarrow> 'a list checked" where
  "slice_from xs i = (if 0 \<le> i \<and> i \<le> int (length xs) then Value (drop (nat i) xs) else Panic)"

section \<open>Time\<close>

text \<open>
  An instant is a number of nanoseconds since the zero \<open>time.Time\<close> (year 1), so the zero
  value of a \<open>Time\<close> field is 0. A \<open>Duration\<close> is a 64-bit count of nanoseconds and
  \<open>Time.Sub\<close> saturates at its bounds.
\<close>

type_synonym instant = int
type_synonym duration = goint

definition time_Second :: duration where
  "time_Second = 1000000000"

definition time_Add :: "instant \<Rightarrow> duration \<Rightarrow> instant" where
  "time_Add t d = t + d"

definition time_Sub :: "instant \<Rightarrow> instant \<Rightarrow> duration" where
  "time_Sub t u = max (- 9223372036854775808) (min 9223372036854775807 (t - u))"

lemma time_Sub_neg_iff: "time_Sub t u < 0 \<longleftrightarrow> t < u"
  by (auto simp: time_Sub_def)

lemma time_Sub_le: "t - u \<le> d \<Longrightarrow> 0 \<le> d \<Longrightarrow> time_Sub t u \<le> d"
  by (auto simp: time_Sub_def)

section \<open>Formatting\<close>

fun show_nat :: "nat \<Rightarrow> string" where
  "show_nat n =
     (if n < 10 then [''0123456789'' ! n] else show_nat (n div 10) @ [''0123456789'' ! (n mod 10)])"

declare show_nat.simps [simp del]

definition show_int :: "int \<Rightarrow> string" where
  "show_int i = (if i < 0 then ''-'' @ show_nat (nat (- i)) else show_nat (nat i))"

fun join :: "string \<Rightarrow> string list \<Rightarrow> string" where
  "join sep [] = []"
| "join sep [x] = x"
| "join sep (x # y # ys) = x @ sep @ join sep (y # ys)"

lemma show_nat_nonempty [simp]: "show_nat n \<noteq> []"
  by (subst show_nat.simps) simp

section \<open>Lists\<close>

lemma set_filter_neq_replicate:
  "set (filter (\<lambda>x. x \<noteq> a) (replicate n a @ xs)) = set xs - {a}"
  by auto

lemma filter_neq_replicate [simp]:
  "filter (\<lambda>x. x \<noteq> a) (replicate n a @ xs) = filter (\<lambda>x. x \<noteq> a) xs"
  by simp

lemma filter_id_length: "\<forall>x \<in> set xs. P x \<Longrightarrow> length (filter P xs) = length xs"
  by simp

end
