(* ===== verification/Goroutine.thy ===== *)
theory Goroutine
  imports Go_Base
begin

text \<open>
  Goroutines. A goroutine is a tree of what it does next: a critical section on the shared
  object (\<open>Atom\<close>: the update made under the lock, and the rest of the code as a function
  of the state that was read), an interaction with the outside (\<open>Io\<close>: an event, and the
  rest of the code as a function of the answer), a jump to the head of a loop (\<open>Goto\<close>),
  or its end: a return, an operation that can never proceed (a send on a \<open>nil\<close> channel)
  or a panic. Source code is written in continuation-passing style over these, one
  \<open>Atom\<close> per lock acquisition, so that the reads and writes of concurrent handlers
  interleave in the model exactly where they do in the program.

  \<open>exec\<close> runs one goroutine alone; \<open>node_step\<close> interleaves a pool of them over one
  shared object; \<open>node_run\<close> is an executable scheduler for \<open>node_step\<close>. The locale
  \<open>goroutine_pool\<close> lifts what every goroutine keeps to every interleaving.
\<close>

datatype (dead 's, dead 'e, dead 'i, dead 'l) goproc =
    Return
  | Block
  | Crash
  | Goto 'l
  | Atom "'s \<Rightarrow> 's" "'s \<Rightarrow> ('s, 'e, 'i, 'l) goproc"
  | Io 'e "'i \<Rightarrow> ('s, 'e, 'i, 'l) goproc"

section \<open>One goroutine alone\<close>

text \<open>How a run ends; \<open>Waits\<close>: it needs an answer that the list of answers does not hold.\<close>

datatype 'l status = Returned | Blocked | Crashed | Jumped 'l | Waits

text \<open>The outcome of a run: the shared object, the events in order, how it ended.\<close>

type_synonym ('s, 'e, 'l) outcome = "'s \<times> 'e list \<times> 'l status"

definition emit :: "'e \<Rightarrow> ('s, 'e, 'l) outcome \<Rightarrow> ('s, 'e, 'l) outcome" where
  "emit e r = (fst r, e # fst (snd r), snd (snd r))"

primrec exec :: "('s \<Rightarrow> 'e \<Rightarrow> 'i \<Rightarrow> bool) \<Rightarrow> ('s, 'e, 'i, 'l) goproc
    \<Rightarrow> 'i list \<Rightarrow> 's \<Rightarrow> ('s, 'e, 'l) outcome" where
  "exec ok Return = (\<lambda>ins s. (s, [], Returned))"
| "exec ok Block = (\<lambda>ins s. (s, [], Blocked))"
| "exec ok Crash = (\<lambda>ins s. (s, [], Crashed))"
| "exec ok (Goto l) = (\<lambda>ins s. (s, [], Jumped l))"
| "exec ok (Atom u k) = (\<lambda>ins s. exec ok (k s) ins (u s))"
| "exec ok (Io e k) = (\<lambda>ins s.
     (case ins of
        [] \<Rightarrow> (s, [e], Waits)
      | i # rest \<Rightarrow> if ok s e i then emit e (exec ok (k i) rest s) else (s, [e], Waits)))"

lemma emit_simps [simp]:
  "emit e (s, es, st) = (s, e # es, st)"
  "fst (emit e r) = fst r" "fst (snd (emit e r)) = e # fst (snd r)"
  "snd (snd (emit e r)) = snd (snd r)"
  by (simp_all add: emit_def)

lemma emit_eq_iff:
  "emit e r = (s, es, st) \<longleftrightarrow> (\<exists>fs. es = e # fs \<and> r = (s, fs, st))"
  by (cases r) auto

lemma foldr_emit: "foldr emit es r = (fst r, es @ fst (snd r), snd (snd r))"
  by (induction es) simp_all

section \<open>What a goroutine keeps\<close>

text \<open>
  \<open>keeps ok I G E p\<close>: from any shared state with \<open>I\<close>, every critical section of \<open>p\<close>
  leads to a state with \<open>I\<close> that is related to the one before by \<open>G\<close>, whatever other
  goroutines do in between as long as they keep \<open>I\<close>, for every answer that \<open>ok\<close> allows in
  some state with \<open>I\<close>; and every event of \<open>p\<close> satisfies \<open>E\<close>.
\<close>

primrec keeps :: "('s \<Rightarrow> 'e \<Rightarrow> 'i \<Rightarrow> bool) \<Rightarrow> ('s \<Rightarrow> bool) \<Rightarrow> ('s \<Rightarrow> 's \<Rightarrow> bool) \<Rightarrow> ('e \<Rightarrow> bool)
    \<Rightarrow> ('s, 'e, 'i, 'l) goproc \<Rightarrow> bool" where
  "keeps ok I G E Return = True"
| "keeps ok I G E Block = True"
| "keeps ok I G E Crash = True"
| "keeps ok I G E (Goto l) = True"
| "keeps ok I G E (Atom u k) = (\<forall>s. I s \<longrightarrow> I (u s) \<and> G s (u s) \<and> keeps ok I G E (k s))"
| "keeps ok I G E (Io e k) = (E e \<and> (\<forall>i. (\<exists>s. I s \<and> ok s e i) \<longrightarrow> keeps ok I G E (k i)))"

lemma keeps_AtomI [keep_intros]:
  "(\<And>s. I s \<Longrightarrow> I (u s)) \<Longrightarrow> (\<And>s. I s \<Longrightarrow> G s (u s)) \<Longrightarrow>
   (\<And>s. I s \<Longrightarrow> keeps ok I G E (k s)) \<Longrightarrow> keeps ok I G E (Atom u k)"
  by simp

lemma keeps_IoI [keep_intros]: "E e \<Longrightarrow> (\<And>i. keeps ok I G E (k i)) \<Longrightarrow> keeps ok I G E (Io e k)"
  by simp

lemma keeps_IoI_env:
  "E e \<Longrightarrow> (\<And>i s. I s \<Longrightarrow> ok s e i \<Longrightarrow> keeps ok I G E (k i)) \<Longrightarrow> keeps ok I G E (Io e k)"
  by auto

lemma keeps_if [keep_intros]:
  "(b \<Longrightarrow> keeps ok I G E p) \<Longrightarrow> (\<not> b \<Longrightarrow> keeps ok I G E q) \<Longrightarrow> keeps ok I G E (if b then p else q)"
  by simp

lemma keeps_mono:
  "(\<And>e. E e \<Longrightarrow> E' e) \<Longrightarrow> keeps ok I G E p \<Longrightarrow> keeps ok I G E' p"
  by (induction p) auto

lemma keeps_exec:
  assumes "keeps ok I G E p" and "I s"
    and "\<And>s. G s s" and "\<And>a b c. G a b \<Longrightarrow> G b c \<Longrightarrow> G a c"
    and "exec ok p ins s = (s', es, st)"
  shows "I s' \<and> G s s' \<and> (\<forall>e \<in> set es. E e)"
  using assms(1,2,5)
proof (induction p arbitrary: ins s es)
  case (Atom u k)
  from Atom.prems have step: "I (u s)" "G s (u s)" "keeps ok I G E (k s)"
    and run: "exec ok (k s) ins (u s) = (s', es, st)" by auto
  from Atom.IH [OF _ step(3,1) run] have "I s' \<and> G (u s) s' \<and> (\<forall>e \<in> set es. E e)" by blast
  with step(2) assms(4) show ?case by blast
next
  case (Io e k)
  show ?case
  proof (cases ins)
    case Nil
    with Io.prems assms(3) show ?thesis by auto
  next
    case (Cons i rest)
    show ?thesis
    proof (cases "ok s e i")
      case True
      obtain t fs st' where run: "exec ok (k i) rest s = (t, fs, st')"
        by (metis prod_cases3)
      with True Cons Io.prems have "t = s'" "es = e # fs" by auto
      moreover from Io.prems(1,2) True have "keeps ok I G E (k i)" by auto
      ultimately have "I t \<and> G s t \<and> (\<forall>e \<in> set fs. E e)"
        using Io.IH [of "k i" s rest fs] Io.prems run
        by (auto simp: True Cons)
      with \<open>t = s'\<close> \<open>es = e # fs\<close> show ?thesis using Io.prems(1) by simp
    next
      case False
      with Cons Io.prems assms(3) show ?thesis by auto
    qed
  qed
qed (use assms(3) in auto)

section \<open>Many goroutines, one shared object\<close>

type_synonym ('s, 'e, 'i, 'l) node = "'s \<times> ('s, 'e, 'i, 'l) goproc list"

text \<open>
  One step of a node: some goroutine does its next critical section, gets an answer the
  environment can give, or jumps; or a new goroutine starts. Nothing moves after a panic.
\<close>

inductive node_step :: "('l \<Rightarrow> ('s, 'e, 'i, 'l) goproc) \<Rightarrow> ('s \<Rightarrow> 'e \<Rightarrow> 'i \<Rightarrow> bool)
    \<Rightarrow> (('s, 'e, 'i, 'l) goproc \<Rightarrow> bool)
    \<Rightarrow> ('s, 'e, 'i, 'l) node \<Rightarrow> ('s, 'e, 'i, 'l) node \<Rightarrow> bool"
  for code ok starts where
  atom: "Crash \<notin> set ts \<Longrightarrow> j < length ts \<Longrightarrow> ts ! j = Atom u k \<Longrightarrow>
     node_step code ok starts (s, ts) (u s, ts[j := k s])"
| io: "Crash \<notin> set ts \<Longrightarrow> j < length ts \<Longrightarrow> ts ! j = Io e k \<Longrightarrow> ok s e i \<Longrightarrow>
     node_step code ok starts (s, ts) (s, ts[j := k i])"
| jump: "Crash \<notin> set ts \<Longrightarrow> j < length ts \<Longrightarrow> ts ! j = Goto l \<Longrightarrow>
     node_step code ok starts (s, ts) (s, ts[j := code l])"
| start: "Crash \<notin> set ts \<Longrightarrow> starts p \<Longrightarrow> node_step code ok starts (s, ts) (s, ts @ [p])"

inductive_cases node_stepE: "node_step code ok starts n n'"

abbreviation node_steps where
  "node_steps code ok starts \<equiv> (node_step code ok starts)\<^sup>*\<^sup>*"

subsection \<open>An executable scheduler\<close>

text \<open>
  A schedule names, step by step, the goroutine that moves and the answer it gets if it
  waits for one, or the goroutine that starts. \<open>None\<close>: the schedule cannot be followed.
\<close>

datatype ('s, 'e, 'i, 'l) action = Step nat | Answer nat 'i | Start "('s, 'e, 'i, 'l) goproc"

fun is_crash :: "('s, 'e, 'i, 'l) goproc \<Rightarrow> bool" where
  "is_crash Crash = True"
| "is_crash _ = False"

fun node_act :: "('l \<Rightarrow> ('s, 'e, 'i, 'l) goproc) \<Rightarrow> ('s \<Rightarrow> 'e \<Rightarrow> 'i \<Rightarrow> bool)
    \<Rightarrow> ('s, 'e, 'i, 'l) action \<Rightarrow> ('s, 'e, 'i, 'l) node \<Rightarrow> ('s, 'e, 'i, 'l) node option" where
  "node_act code ok (Step j) (s, ts) =
     (if j < length ts \<and> \<not> list_ex is_crash ts
      then (case ts ! j of
              Atom u k \<Rightarrow> Some (u s, ts[j := k s])
            | Goto l \<Rightarrow> Some (s, ts[j := code l])
            | _ \<Rightarrow> None)
      else None)"
| "node_act code ok (Answer j i) (s, ts) =
     (if j < length ts \<and> \<not> list_ex is_crash ts
      then (case ts ! j of
              Io e k \<Rightarrow> if ok s e i then Some (s, ts[j := k i]) else None
            | _ \<Rightarrow> None)
      else None)"
| "node_act code ok (Start p) (s, ts) =
     (if \<not> list_ex is_crash ts then Some (s, ts @ [p]) else None)"

fun node_run :: "('l \<Rightarrow> ('s, 'e, 'i, 'l) goproc) \<Rightarrow> ('s \<Rightarrow> 'e \<Rightarrow> 'i \<Rightarrow> bool)
    \<Rightarrow> ('s, 'e, 'i, 'l) action list \<Rightarrow> ('s, 'e, 'i, 'l) node \<Rightarrow> ('s, 'e, 'i, 'l) node option" where
  "node_run code ok [] n = Some n"
| "node_run code ok (a # as) n =
     (case node_act code ok a n of None \<Rightarrow> None | Some n' \<Rightarrow> node_run code ok as n')"

fun starts_ok :: "(('s, 'e, 'i, 'l) goproc \<Rightarrow> bool) \<Rightarrow> ('s, 'e, 'i, 'l) action \<Rightarrow> bool" where
  "starts_ok starts (Start p) = starts p"
| "starts_ok starts _ = True"

lemma is_crash_iff: "is_crash p \<longleftrightarrow> p = Crash"
  by (cases p) auto

lemma no_crash_iff: "\<not> list_ex is_crash ts \<longleftrightarrow> Crash \<notin> set ts"
  by (auto simp: list_ex_iff is_crash_iff)

lemma node_act_step:
  assumes "node_act code ok a n = Some n'" and "starts_ok starts a"
  shows "node_step code ok starts n n'"
proof (cases n)
  case (Pair s ts)
  with assms show ?thesis
    by (cases a)
      (auto simp: no_crash_iff intro: node_step.intros split: if_splits goproc.splits)
qed

lemma node_run_steps:
  "node_run code ok as n = Some n' \<Longrightarrow> \<forall>a \<in> set as. starts_ok starts a \<Longrightarrow>
   node_steps code ok starts n n'"
proof (induction as arbitrary: n)
  case Nil
  then show ?case by simp
next
  case (Cons a as)
  then obtain m where act: "node_act code ok a n = Some m" and run: "node_run code ok as m = Some n'"
    by (auto split: option.splits)
  from Cons.prems have "starts_ok starts a" by simp
  with act have "node_step code ok starts n m" by (rule node_act_step)
  moreover have "node_steps code ok starts m n'" using Cons.IH [OF run] Cons.prems by simp
  ultimately show ?case by (rule converse_rtranclp_into_rtranclp)
qed

section \<open>Invariants of every interleaving\<close>

definition pool_keeps :: "('s \<Rightarrow> 'e \<Rightarrow> 'i \<Rightarrow> bool) \<Rightarrow> ('s \<Rightarrow> bool) \<Rightarrow> ('s \<Rightarrow> 's \<Rightarrow> bool) \<Rightarrow> ('e \<Rightarrow> bool)
    \<Rightarrow> ('s, 'e, 'i, 'l) node \<Rightarrow> bool" where
  "pool_keeps ok I G E n \<longleftrightarrow> I (fst n) \<and> (\<forall>p \<in> set (snd n). keeps ok I G E p)"

lemma pool_keeps_upd:
  "pool_keeps ok I G E (s, ts) \<Longrightarrow> I s' \<Longrightarrow> keeps ok I G E p \<Longrightarrow> pool_keeps ok I G E (s', ts[j := p])"
  by (auto simp: pool_keeps_def dest!: set_update_subset_insert [THEN subsetD])

lemma pool_keeps_mono:
  "(\<And>e. E e \<Longrightarrow> E' e) \<Longrightarrow> pool_keeps ok I G E n \<Longrightarrow> pool_keeps ok I G E' n"
  by (auto simp: pool_keeps_def intro: keeps_mono)

lemma pool_keeps_nth:
  "pool_keeps ok I G E (s, ts) \<Longrightarrow> j < length ts \<Longrightarrow> keeps ok I G E (ts ! j)"
  by (simp add: pool_keeps_def)

text \<open>
  The contract between the goroutines of a node and the node: if the code behind every
  label and every goroutine that can start keeps \<open>I\<close>, \<open>G\<close> and \<open>E\<close>, so does every
  interleaving.
\<close>

locale goroutine_pool =
  fixes code :: "'l \<Rightarrow> ('s, 'e, 'i, 'l) goproc"
    and starts :: "('s, 'e, 'i, 'l) goproc \<Rightarrow> bool"
    and ok :: "'s \<Rightarrow> 'e \<Rightarrow> 'i \<Rightarrow> bool"
    and I :: "'s \<Rightarrow> bool"
    and G :: "'s \<Rightarrow> 's \<Rightarrow> bool"
    and E :: "'e \<Rightarrow> bool"
  assumes code_keeps: "keeps ok I G E (code l)"
    and starts_keeps: "starts p \<Longrightarrow> keeps ok I G E p"
    and G_refl: "G s s"
    and G_trans: "G s t \<Longrightarrow> G t u \<Longrightarrow> G s u"
begin

lemma step_keeps:
  assumes "node_step code ok starts n n'" and "pool_keeps ok I G E n"
  shows "pool_keeps ok I G E n' \<and> G (fst n) (fst n')"
  using assms
proof cases
  case (atom ts j u k s)
  from pool_keeps_nth [OF assms(2) [unfolded atom] atom(4)] atom(5)
  have kp: "keeps ok I G E (Atom u k)" by simp
  from assms(2) atom have "I s" by (simp add: pool_keeps_def)
  with kp have "I (u s)" "G s (u s)" "keeps ok I G E (k s)" by auto
  with assms(2) atom show ?thesis by (simp add: pool_keeps_upd)
next
  case (io ts j e k s i)
  from pool_keeps_nth [OF assms(2) [unfolded io] io(4)] io(5)
  have "keeps ok I G E (Io e k)" by simp
  moreover from assms(2) io have "I s" by (simp add: pool_keeps_def)
  ultimately have "keeps ok I G E (k i)" using io(6) by auto
  with \<open>I s\<close> show ?thesis using io G_refl pool_keeps_upd [OF assms(2) [unfolded io]] by simp
next
  case (jump ts j l s)
  from assms(2) jump have "I s" by (simp add: pool_keeps_def)
  then show ?thesis
    using jump G_refl code_keeps pool_keeps_upd [OF assms(2) [unfolded jump]] by simp
next
  case (start ts p s)
  with assms(2) show ?thesis
    by (auto simp: pool_keeps_def G_refl starts_keeps)
qed

lemma steps_keep:
  assumes "node_steps code ok starts n n'" and "pool_keeps ok I G E n"
  shows "pool_keeps ok I G E n' \<and> G (fst n) (fst n')"
  using assms
proof (induction rule: rtranclp_induct)
  case base
  then show ?case by (simp add: G_refl)
next
  case (step m n')
  then show ?case using step_keeps G_trans by blast
qed

lemma reach_inv: "node_steps code ok starts n n' \<Longrightarrow> pool_keeps ok I G E n \<Longrightarrow> I (fst n')"
  using steps_keep by (auto simp: pool_keeps_def)

lemma reach_rel: "node_steps code ok starts n n' \<Longrightarrow> pool_keeps ok I G E n \<Longrightarrow> G (fst n) (fst n')"
  using steps_keep by blast

lemma reach_event:
  "node_steps code ok starts n n' \<Longrightarrow> pool_keeps ok I G E n \<Longrightarrow> Io e k \<in> set (snd n') \<Longrightarrow> E e"
  using steps_keep [of n n'] by (fastforce simp: pool_keeps_def)

lemma exec_keeps:
  "keeps ok I G E p \<Longrightarrow> I s \<Longrightarrow> exec ok p ins s = (s', es, st) \<Longrightarrow>
   I s' \<and> G s s' \<and> (\<forall>e \<in> set es. E e)"
  by (rule keeps_exec) (auto intro: G_refl G_trans)

end

end
