(* ===== verification/Network.thy ===== *)
theory Network
  imports Go_Base
begin

text \<open>
  \<open>network/packet.go\<close> and \<open>network/network.go\<close>: packets, their encoding into at most
  2048 bytes, the request side (dial, write, read one reply) and the server side (read one
  packet, hand it to the protocol, write the reply that arrives within two seconds). The
  \<open>gob\<close> encoder and decoder and the outcomes of the socket calls are arguments. A socket
  address is its printed IP and its port; \<open>None\<close> is a \<open>nil\<close> address.
\<close>

type_synonym byte = "8 word"
type_synonym bytes = "byte list"

record TCPAddr =
  tcp_IP :: string
  tcp_Port :: goint

type_synonym DataType = goint

abbreviation (input) REQUEST_VOTE :: DataType where "REQUEST_VOTE \<equiv> 0"
abbreviation (input) APPEND_ENTRY :: DataType where "APPEND_ENTRY \<equiv> 1"
abbreviation (input) FETCH_MISSING_ENTRIES :: DataType where "FETCH_MISSING_ENTRIES \<equiv> 2"

definition PACKET_SIZE :: nat where "PACKET_SIZE = 2048"

record 'd Packet =
  pk_Caller :: "TCPAddr option"
  pk_Data :: 'd
  pk_Type :: DataType

definition NewPacket :: "TCPAddr option \<Rightarrow> 'd \<Rightarrow> DataType \<Rightarrow> 'd Packet" where
  "NewPacket c data dt = \<lparr>pk_Caller = c, pk_Data = data, pk_Type = dt\<rparr>"

text \<open>
  The \<open>gob\<close> codec of a packet: \<open>gob_enc\<close> returns the encoded bytes or an error;
  \<open>gob_dec\<close> returns the decoded packet (the zero packet where nothing was decoded)
  and an error.
\<close>

type_synonym 'd gob_enc = "'d Packet \<Rightarrow> string + bytes"
type_synonym 'd gob_dec = "bytes \<Rightarrow> 'd Packet \<times> go_error"

text \<open>\<open>Encode\<close>: an encoding error is logged and then dropped: \<open>(nil, nil)\<close> is returned.\<close>

definition Encode :: "'d gob_enc \<Rightarrow> 'd Packet \<Rightarrow> bytes \<times> go_error" where
  "Encode enc p =
     (case enc p of Inl e \<Rightarrow> ([], nil_error) | Inr buffer \<Rightarrow> (take PACKET_SIZE buffer, nil_error))"

definition Decode :: "'d gob_dec \<Rightarrow> bytes \<Rightarrow> 'd Packet \<times> go_error" where
  "Decode dec rawPacket = dec rawPacket"

text \<open>A read into a zeroed 2048-byte buffer; the rest of the buffer stays zero.\<close>

definition read_buffer :: "nat \<Rightarrow> bytes \<Rightarrow> bytes" where
  "read_buffer n received = take n received @ replicate (n - length received) 0"

section \<open>Requests\<close>

record Network =
  net_addr :: TCPAddr

definition InitNetwork :: "string \<Rightarrow> goint \<Rightarrow> Network" where
  "InitNetwork ip portRPC = \<lparr>net_addr = \<lparr>tcp_IP = ip, tcp_Port = portRPC\<rparr>\<rparr>"

text \<open>What the socket calls of one request return, and what they do.\<close>

record net_env =
  ne_resolve :: go_error
  ne_dial :: go_error
  ne_write :: go_error
  ne_reply :: bytes

datatype net_event = Net_Dial TCPAddr | Net_Write bytes | Net_Close

definition SendRequest :: "'d gob_enc \<Rightarrow> net_env \<Rightarrow> Network \<Rightarrow> TCPAddr \<Rightarrow> 'd \<Rightarrow> DataType
    \<Rightarrow> go_error \<times> net_event list" where
  "SendRequest enc env n target data dt =
     (case Encode enc (NewPacket (Some (net_addr n)) data dt) of (encPacket, err) \<Rightarrow>
        if err \<noteq> nil_error then (Some ''FAILED TO ENCODE PACKET'', [])
        else if ne_resolve env \<noteq> nil_error then (Some ''FAILED TO RESOLVE TCP ADDR'', [])
        else if ne_dial env \<noteq> nil_error
        then (Some ''FAILED TO CONNECT TO TCP ENDPOINT'', [Net_Dial target])
        else if ne_write env \<noteq> nil_error
        then (Some ''FAILED TO WRITE'', [Net_Dial target, Net_Write encPacket])
        else (nil_error, [Net_Dial target, Net_Write encPacket]))"

text \<open>
  The reply channel carries at most one packet: the third component is the packet that
  arrives on it, \<open>None\<close> where the reply did not decode and nothing ever arrives.
\<close>

definition SendRequestAwaitResponse :: "'d gob_enc \<Rightarrow> 'd gob_dec \<Rightarrow> net_env \<Rightarrow> Network
    \<Rightarrow> TCPAddr \<Rightarrow> 'd \<Rightarrow> DataType \<Rightarrow> go_error \<times> net_event list \<times> 'd Packet option" where
  "SendRequestAwaitResponse enc dec env n target data dt =
     (case SendRequest enc env n target data dt of (err, events) \<Rightarrow>
        if err \<noteq> nil_error then (err, events, None)
        else (case Decode dec (read_buffer 2048 (ne_reply env)) of (decPacket, derr) \<Rightarrow>
                (nil_error, events @ [Net_Close],
                 if derr \<noteq> nil_error then None else Some decPacket)))"

section \<open>The server side\<close>

text \<open>
  \<open>handleRequest\<close> in two halves: what it hands to the protocol, and what it does with the
  protocol's answer (\<open>None\<close>: none within \<open>TIMEOUT_SEC_RECIEVE\<close>; a closed \<open>Done\<close> channel
  yields the empty reply). A decoding error is only logged: the zero packet goes on.
\<close>

definition handleRequest_rpc :: "'d gob_dec \<Rightarrow> bytes \<Rightarrow> 'd Packet" where
  "handleRequest_rpc dec received = fst (Decode dec (read_buffer 2048 received))"

definition handleRequest_reply :: "bytes option \<Rightarrow> net_event list" where
  "handleRequest_reply done =
     (case done of None \<Rightarrow> [Net_Close] | Some resp \<Rightarrow> [Net_Write resp, Net_Close])"

text \<open>
  \<open>Listen\<close> for a given series of accepted connections (the bytes that are read from each;
  \<open>None\<close> is a failed \<open>Accept\<close>): it starts one goroutine per connection and the result is what these
  hand to the protocol. A failed \<open>Accept\<close> is only logged, and the goroutine that is started
  all the same calls a method of the \<open>nil\<close> connection.
\<close>

fun accept_loop :: "'d gob_dec \<Rightarrow> bytes option list \<Rightarrow> 'd Packet list checked" where
  "accept_loop dec [] = Value []"
| "accept_loop dec (s # ss) =
     (case s of
        None \<Rightarrow> Panic
      | Some received \<Rightarrow>
          (case accept_loop dec ss of
             Panic \<Rightarrow> Panic
           | Value requests \<Rightarrow> Value (handleRequest_rpc dec received # requests)))"

definition Listen :: "'d gob_dec \<Rightarrow> go_error \<Rightarrow> bytes option list \<Rightarrow> 'd Packet list checked" where
  "Listen dec bindErr conns = (if bindErr \<noteq> nil_error then Panic else accept_loop dec conns)"

section \<open>Lemmas\<close>

lemma Listen_eq:
  "Listen dec bindErr conns =
     (if bindErr = nil_error \<and> None \<notin> set conns then Value (map (handleRequest_rpc dec \<circ> the) conns) else Panic)"
proof -
  have "accept_loop dec conns = (if None \<notin> set conns then Value (map (handleRequest_rpc dec \<circ> the) conns) else Panic)"
    by (induction conns) (auto split: option.split)
  then show ?thesis by (simp add: Listen_def)
qed

lemma length_Encode: "length (fst (Encode enc p)) \<le> PACKET_SIZE"
  by (simp add: Encode_def split: sum.splits)

lemma Encode_no_error [simp]: "snd (Encode enc p) = nil_error"
  by (simp add: Encode_def split: sum.splits)

lemma length_read_buffer [simp]: "length (read_buffer n bs) = n"
  by (simp add: read_buffer_def)

lemma read_buffer_short: "length bs \<le> n \<Longrightarrow> read_buffer n bs = bs @ replicate (n - length bs) 0"
  by (simp add: read_buffer_def)

section \<open>Properties\<close>

text \<open>
  A packet whose encoding fits into 2048 bytes and whose request reaches the peer is handed
  to the peer's protocol unchanged, with the sender's own address as its caller; the
  decoder is assumed to read one value and to ignore the zero bytes behind it.
\<close>

theorem packet_delivery:
  assumes enc: "enc (NewPacket (Some (net_addr n)) data dt) = Inr bs" and "length bs \<le> 2048"
    and dec: "\<And>rest. dec (bs @ rest) = (NewPacket (Some (net_addr n)) data dt, nil_error)"
    and sent: "SendRequest enc env n target data dt = (nil_error, events)"
  shows "events = [Net_Dial target, Net_Write bs] \<and>
    handleRequest_rpc dec bs = \<lparr>pk_Caller = Some (net_addr n), pk_Data = data, pk_Type = dt\<rparr>"
proof
  show "events = [Net_Dial target, Net_Write bs]"
    using sent enc assms(2)
    by (simp add: SendRequest_def Encode_def PACKET_SIZE_def split: if_splits)
  show "handleRequest_rpc dec bs = \<lparr>pk_Caller = Some (net_addr n), pk_Data = data, pk_Type = dt\<rparr>"
    using assms(2) dec
    by (simp add: handleRequest_rpc_def Decode_def read_buffer_short NewPacket_def)
qed

text \<open>A concrete codec for the witness: one byte of data, a fixed caller.\<close>

definition tiny_addr :: TCPAddr where
  "tiny_addr = \<lparr>tcp_IP = ''10.0.0.1'', tcp_Port = 9996\<rparr>"

definition tiny_enc :: "byte gob_enc" where
  "tiny_enc p = Inr [pk_Data p, word_of_int (pk_Type p)]"

definition tiny_dec :: "byte gob_dec" where
  "tiny_dec bs =
     (case bs of
        d # t # _ \<Rightarrow> (\<lparr>pk_Caller = Some tiny_addr, pk_Data = d, pk_Type = uint t\<rparr>, nil_error)
      | _ \<Rightarrow> (\<lparr>pk_Caller = None, pk_Data = 0, pk_Type = 0\<rparr>, Some ''EOF''))"

theorem packet_delivery_witness:
  "handleRequest_rpc tiny_dec [42, 1] =
     \<lparr>pk_Caller = Some tiny_addr, pk_Data = 42, pk_Type = APPEND_ENTRY\<rparr>"
proof -
  let ?n = "\<lparr>net_addr = tiny_addr\<rparr>"
  let ?env = "\<lparr>ne_resolve = None, ne_dial = None, ne_write = None, ne_reply = []\<rparr>"
  have e: "tiny_enc (NewPacket (Some (net_addr ?n)) 42 APPEND_ENTRY) = Inr [42, 1]"
    by (simp add: tiny_enc_def NewPacket_def)
  have l: "length [42 :: byte, 1] \<le> 2048" by simp
  have d: "tiny_dec ([42, 1] @ rest) = (NewPacket (Some (net_addr ?n)) 42 APPEND_ENTRY, nil_error)" for rest
    by (simp add: tiny_dec_def NewPacket_def)
  have s: "SendRequest tiny_enc ?env ?n tiny_addr 42 APPEND_ENTRY =
      (nil_error, [Net_Dial tiny_addr, Net_Write [42, 1]])"
    using e by (simp add: SendRequest_def Encode_def PACKET_SIZE_def)
  from packet_delivery [where n = ?n and dt = APPEND_ENTRY and data = 42 and bs = "[42, 1]" and enc = tiny_enc and
      dec = tiny_dec, OF e l d s] show ?thesis by simp
qed

end
