(* ===== verification/Go_Map.thy ===== *)
theory Go_Map
  imports Go_Base "HOL-Library.AList"
begin

text \<open>
  Go's built-in \<open>map\<close>, as an association list whose keys are distinct. The order of the
  list means nothing to the program: \<open>range\<close> visits the keys in an order the run-time
  chooses anew at every loop, so every operation that ranges over a map takes that order
  as an argument and \<open>range_order\<close> says which orders are possible. The locale
  \<open>dictionary\<close> states the laws the components use and proves what follows from them.
\<close>

type_synonym ('k, 'v) gomap = "('k \<times> 'v) list"

definition map_get :: "('k, 'v) gomap \<Rightarrow> 'k \<Rightarrow> 'v option" where
  "map_get m k = map_of m k"

definition map_set :: "'k \<Rightarrow> 'v \<Rightarrow> ('k, 'v) gomap \<Rightarrow> ('k, 'v) gomap" where
  "map_set k v m = AList.update k v m"

definition map_delete :: "'k \<Rightarrow> ('k, 'v) gomap \<Rightarrow> ('k, 'v) gomap" where
  "map_delete k m = AList.delete k m"

definition map_keys :: "('k, 'v) gomap \<Rightarrow> 'k list" where
  "map_keys m = map fst m"

definition map_len :: "('k, 'v) gomap \<Rightarrow> goint" where
  "map_len m = int (length m)"

definition map_ok :: "('k, 'v) gomap \<Rightarrow> bool" where
  "map_ok m \<longleftrightarrow> distinct (map_keys m)"

definition range_order :: "('k, 'v) gomap \<Rightarrow> 'k list \<Rightarrow> bool" where
  "range_order m ks \<longleftrightarrow> distinct ks \<and> set ks = set (map_keys m)"

text \<open>Mutation of every value through its pointer, as a loop over the map does.\<close>

definition map_all :: "('k \<Rightarrow> 'v \<Rightarrow> 'v) \<Rightarrow> ('k, 'v) gomap \<Rightarrow> ('k, 'v) gomap" where
  "map_all f m = map (\<lambda>(k, v). (k, f k v)) m"

text \<open>A loop that returns at the first entry with a property.\<close>

definition range_find :: "('v \<Rightarrow> bool) \<Rightarrow> ('k, 'v) gomap \<Rightarrow> 'k list \<Rightarrow> 'k option" where
  "range_find P m ks = find (\<lambda>k. case map_get m k of None \<Rightarrow> False | Some v \<Rightarrow> P v) ks"

lemma map_get_Nil [simp]: "map_get [] k = None"
  by (simp add: map_get_def)

lemma map_get_Cons [simp]: "map_get ((k', v) # m) k = (if k' = k then Some v else map_get m k)"
  by (simp add: map_get_def)

lemma map_keys_simps [simp]: "map_keys [] = []" "map_keys ((k, v) # m) = k # map_keys m"
  by (simp_all add: map_keys_def)

lemma map_get_set [simp]: "map_get (map_set k v m) k' = (if k' = k then Some v else map_get m k')"
  by (simp add: map_get_def map_set_def update_conv')

lemma map_set_same: "map_get m k = Some v \<Longrightarrow> map_set k v m = m"
  by (induction m) (auto simp: map_set_def split: if_splits)

lemma map_get_delete [simp]: "map_get (map_delete k m) k' = (if k' = k then None else map_get m k')"
  by (simp add: map_get_def map_delete_def delete_conv')

lemma map_get_None_iff: "map_get m k = None \<longleftrightarrow> k \<notin> set (map_keys m)"
  by (simp add: map_get_def map_keys_def map_of_eq_None_iff)

lemma map_get_Some_key: "map_get m k = Some v \<Longrightarrow> k \<in> set (map_keys m)"
  by (metis map_get_None_iff option.distinct(1))

lemma map_ok_Nil [simp]: "map_ok []"
  by (simp add: map_ok_def)

lemma map_ok_set [simp]: "map_ok m \<Longrightarrow> map_ok (map_set k v m)"
  by (simp add: map_ok_def map_keys_def map_set_def distinct_update)

lemma map_ok_delete [simp]: "map_ok m \<Longrightarrow> map_ok (map_delete k m)"
  by (simp add: map_ok_def map_keys_def map_delete_def distinct_delete)

lemma map_keys_set_old: "k \<in> set (map_keys m) \<Longrightarrow> map_keys (map_set k v m) = map_keys m"
  by (induction m) (auto simp: map_set_def)

lemma map_keys_set_new: "k \<notin> set (map_keys m) \<Longrightarrow> map_keys (map_set k v m) = map_keys m @ [k]"
  by (induction m) (auto simp: map_set_def)

lemma set_map_keys_set [simp]: "set (map_keys (map_set k v m)) = insert k (set (map_keys m))"
  by (cases "k \<in> set (map_keys m)") (auto simp: map_keys_set_old map_keys_set_new)

lemma map_keys_all [simp]: "map_keys (map_all f m) = map_keys m"
  by (simp add: map_all_def map_keys_def case_prod_beta' comp_def)

lemma map_get_all [simp]: "map_get (map_all f m) k = map_option (f k) (map_get m k)"
  by (induction m) (auto simp: map_all_def)

lemma map_ok_all [simp]: "map_ok (map_all f m) = map_ok m"
  by (simp add: map_ok_def)

lemma map_len_keys: "map_len m = int (length (map_keys m))"
  by (simp add: map_len_def map_keys_def)

lemma map_len_card: "map_ok m \<Longrightarrow> map_len m = int (card (set (map_keys m)))"
  by (simp add: map_len_keys map_ok_def distinct_card)

lemma range_order_keys: "map_ok m \<Longrightarrow> range_order m (map_keys m)"
  by (simp add: range_order_def map_ok_def)

lemma range_order_length: "map_ok m \<Longrightarrow> range_order m ks \<Longrightarrow> int (length ks) = map_len m"
  by (metis distinct_card map_len_card range_order_def)

lemma range_order_cong: "map_keys m = map_keys m' \<Longrightarrow> range_order m ks = range_order m' ks"
  by (simp add: range_order_def)

lemma range_find_Some:
  "range_find P m ks = Some k \<Longrightarrow> \<exists>v. map_get m k = Some v \<and> P v \<and> k \<in> set ks"
  by (auto simp: range_find_def find_Some_iff split: option.splits)

lemma range_find_None:
  "range_order m ks \<Longrightarrow> range_find P m ks = None \<longleftrightarrow> (\<forall>k v. map_get m k = Some v \<longrightarrow> \<not> P v)"
  by (auto simp: range_find_def find_None_iff range_order_def dest: map_get_Some_key
      split: option.splits)

lemma range_find_unique:
  assumes "range_order m ks" and "map_get m k = Some v" and "P v"
    and "\<And>k' v'. map_get m k' = Some v' \<Longrightarrow> P v' \<Longrightarrow> k' = k"
  shows "range_find P m ks = Some k"
proof (cases "range_find P m ks")
  case None
  with assms show ?thesis by (simp add: range_find_None)
next
  case (Some k')
  with assms(4) show ?thesis by (auto dest: range_find_Some)
qed

section \<open>The laws of a dictionary\<close>

locale dictionary =
  fixes get :: "'m \<Rightarrow> 'k \<Rightarrow> 'v option"
    and put :: "'k \<Rightarrow> 'v \<Rightarrow> 'm \<Rightarrow> 'm"
    and del :: "'k \<Rightarrow> 'm \<Rightarrow> 'm"
    and empty :: 'm
    and ok :: "'m \<Rightarrow> bool"
  assumes get_empty: "get empty k = None"
    and get_put: "ok m \<Longrightarrow> get (put k v m) k' = (if k' = k then Some v else get m k')"
    and get_del: "ok m \<Longrightarrow> get (del k m) k' = (if k' = k then None else get m k')"
    and ok_empty: "ok empty"
    and ok_put: "ok m \<Longrightarrow> ok (put k v m)"
    and ok_del: "ok m \<Longrightarrow> ok (del k m)"
begin

lemma ok_fold_put: "ok m \<Longrightarrow> ok (fold (\<lambda>(k, v). put k v) kvs m)"
  by (induction kvs arbitrary: m) (auto simp: ok_put)

text \<open>A sequence of insertions: the last binding of a key wins.\<close>

lemma get_fold_put:
  "ok m \<Longrightarrow> get (fold (\<lambda>(k, v). put k v) kvs m) k =
     (case map_of (rev kvs) k of None \<Rightarrow> get m k | Some v \<Rightarrow> Some v)"
proof (induction kvs arbitrary: m)
  case Nil
  then show ?case by simp
next
  case (Cons kv kvs)
  obtain a b where kv: "kv = (a, b)" by (cases kv)
  from Cons.prems have "ok (put a b m)" by (rule ok_put)
  then show ?case
    using Cons.prems by (auto simp: kv Cons.IH get_put map_add_def split: option.splits)
qed

lemma get_fold_put_present:
  assumes "ok m" and "k \<in> fst ` set kvs"
  shows "\<exists>v. (k, v) \<in> set kvs \<and> get (fold (\<lambda>(k, v). put k v) kvs m) k = Some v"
proof -
  from assms(2) obtain v where v: "map_of (rev kvs) k = Some v"
    by (metis map_of_eq_None_iff not_None_eq set_rev)
  then have "(k, v) \<in> set kvs"
    by (metis map_of_SomeD set_rev)
  with v assms(1) show ?thesis by (auto simp: get_fold_put)
qed

text \<open>A deletion undoes an insertion of a fresh key, seen through \<open>get\<close>.\<close>

lemma get_del_put: "ok m \<Longrightarrow> get m k = None \<Longrightarrow> get (del k (put k v m)) k' = get m k'"
  by (simp add: get_del get_put ok_put)

end

interpretation gm: dictionary map_get map_set map_delete "[]" map_ok
  by unfold_locales simp_all

end
