(* ===== verification/Kube_Resources.thy ===== *)
theory Kube_Resources
  imports Go_Map
begin

text \<open>
  \<open>kube/kube_resources.go\<close>: the command objects that are replicated (\<open>KubeCmd\<close> with a
  deployment or a node-port service), their constructors and printed form, and their
  translation into the API objects sent to the cluster. The Kubernetes client library is
  not part of the repository: its constants and its \<open>Create\<close>/\<open>List\<close> calls are the
  fields of a \<open>kube_api\<close> record that the operations take as an argument. An API object
  is modelled by the fields the source sets.
\<close>

section \<open>Command objects\<close>

text \<open>\<open>KubeMsg\<close> is an \<open>int\<close> that also arrives from the network, so any value can occur.\<close>

type_synonym KubeMsg = goint

abbreviation (input) NIL :: KubeMsg where "NIL \<equiv> 0"
abbreviation (input) CREATE_SERVICE :: KubeMsg where "CREATE_SERVICE \<equiv> 1"
abbreviation (input) DELETE_SERVICE :: KubeMsg where "DELETE_SERVICE \<equiv> 2"
abbreviation (input) CREATE_DEPLOYMENT :: KubeMsg where "CREATE_DEPLOYMENT \<equiv> 3"
abbreviation (input) DELETE_DEPLOYMENT :: KubeMsg where "DELETE_DEPLOYMENT \<equiv> 4"

definition KubeMsg_toString :: "KubeMsg \<Rightarrow> string" where
  "KubeMsg_toString m =
     (if m = CREATE_SERVICE then ''CREATE SERVICE''
      else if m = DELETE_SERVICE then ''DELETE SERVICE''
      else if m = CREATE_DEPLOYMENT then ''CREATE DEPLOYMENT''
      else if m = DELETE_DEPLOYMENT then ''DELETE DEPLOYMENT''
      else ''UNKNOWN TYPE'')"

record KubeLable =
  lbl_Key :: string
  lbl_Value :: string

record KubePort =
  port_Name :: string
  port_ContainerPort :: int32
  port_TargetPort :: int32
  port_NodePort :: int32

record KubeImage =
  img_Name :: string
  img_ImageName :: string
  img_Ports :: KubePort

record KubeNodePort =
  np_Name :: string
  np_Selector :: "KubeLable slice"
  np_Port :: KubePort

record KubeDeployment =
  dep_Name :: string
  dep_Replicas :: int32
  dep_Selector :: "KubeLable slice"
  dep_Labels :: "KubeLable slice"
  dep_Image :: KubeImage
  dep_Ports :: KubePort

record KubeCmd =
  cmd_Type :: KubeMsg
  cmd_ObjectDeployment :: KubeDeployment
  cmd_ObjectService :: KubeNodePort

text \<open>The zero values \<open>KubePort{}\<close>, \dots, \<open>KubeCmd{}\<close>.\<close>

definition KubePort0 :: KubePort where
  "KubePort0 = \<lparr>port_Name = [], port_ContainerPort = 0, port_TargetPort = 0, port_NodePort = 0\<rparr>"

definition KubeImage0 :: KubeImage where
  "KubeImage0 = \<lparr>img_Name = [], img_ImageName = [], img_Ports = KubePort0\<rparr>"

definition KubeNodePort0 :: KubeNodePort where
  "KubeNodePort0 = \<lparr>np_Name = [], np_Selector = None, np_Port = KubePort0\<rparr>"

definition KubeDeployment0 :: KubeDeployment where
  "KubeDeployment0 = \<lparr>dep_Name = [], dep_Replicas = 0, dep_Selector = None, dep_Labels = None,
     dep_Image = KubeImage0, dep_Ports = KubePort0\<rparr>"

definition KubeCmd0 :: KubeCmd where
  "KubeCmd0 = \<lparr>cmd_Type = NIL, cmd_ObjectDeployment = KubeDeployment0,
     cmd_ObjectService = KubeNodePort0\<rparr>"

section \<open>Printed form\<close>

text \<open>\<open>fmt\<close> prints a slice of structs as \<open>[{key value} \<dots>]\<close>, with \<open>%s\<close> and with \<open>%v\<close>.\<close>

definition show_labels :: "KubeLable slice \<Rightarrow> string" where
  "show_labels ls =
     ''['' @ join '' '' (map (\<lambda>l. ''{'' @ lbl_Key l @ '' '' @ lbl_Value l @ ''}'') (slice_items ls)) @ '']''"

definition KubeNodePort_toString :: "KubeNodePort \<Rightarrow> string" where
  "KubeNodePort_toString knp =
     ''NodePort: ID: ['' @ np_Name knp @ ''], Selector: ['' @ show_labels (np_Selector knp) @
     ''], ExposedPort ['' @ show_int (sint (port_TargetPort (np_Port knp))) @ '']''"

definition KubeDeployment_toString :: "KubeDeployment \<Rightarrow> string" where
  "KubeDeployment_toString kd =
     ''Deployment: ID: ['' @ dep_Name kd @ ''], Image: ['' @ img_Name (dep_Image kd) @
     ''], Replicas: ['' @ show_int (sint (dep_Replicas kd)) @
     ''], Labels: ['' @ show_labels (dep_Labels kd) @ '']''"

definition KubeCmd_ToString :: "KubeCmd \<Rightarrow> string" where
  "KubeCmd_ToString kc =
     (if cmd_Type kc = CREATE_SERVICE \<or> cmd_Type kc = DELETE_SERVICE
      then ''ACTION: '' @ KubeMsg_toString (cmd_Type kc) @ '' RESOURCE: '' @
           KubeNodePort_toString (cmd_ObjectService kc)
      else if cmd_Type kc = CREATE_DEPLOYMENT \<or> cmd_Type kc = DELETE_DEPLOYMENT
      then ''ACTION: '' @ KubeMsg_toString (cmd_Type kc) @ '' RESOURCE: '' @
           KubeDeployment_toString (cmd_ObjectDeployment kc)
      else ''UNKNOWN COMMAND'')"

section \<open>Constructors\<close>

definition CreateDeploymentObject :: "string \<Rightarrow> int32 \<Rightarrow> string \<Rightarrow> string \<Rightarrow> string \<Rightarrow> string
    \<Rightarrow> string \<Rightarrow> string \<Rightarrow> int32 \<Rightarrow> string \<Rightarrow> go_error \<times> KubeDeployment" where
  "CreateDeploymentObject metaName numReplicas selectKey selectValue labelKey labelValue
       cntrName cntrImage cntrPort portName =
     (nil_error,
      KubeDeployment0\<lparr>
        dep_Name := metaName,
        dep_Replicas := numReplicas,
        dep_Selector := Some [\<lparr>lbl_Key = selectKey, lbl_Value = selectValue\<rparr>],
        dep_Labels := Some [\<lparr>lbl_Key = labelKey, lbl_Value = labelValue\<rparr>],
        dep_Image := \<lparr>img_Name = cntrName, img_ImageName = cntrImage,
          img_Ports = KubePort0\<lparr>port_Name := portName, port_ContainerPort := cntrPort\<rparr>\<rparr>\<rparr>)"

definition CreateNodePortObject :: "string \<Rightarrow> string \<Rightarrow> int32 \<Rightarrow> int32 \<Rightarrow> int32
    \<Rightarrow> string \<Rightarrow> string \<Rightarrow> go_error \<times> KubeNodePort" where
  "CreateNodePortObject metaName portName cntrPort targetPort nodePort selectKey selectValue =
     (if cntrPort = 0 \<or> targetPort = 0 \<or> nodePort = 0
      then (Some ''MISSING SERVICE NODEPORT PORT DEFINITION'', KubeNodePort0)
      else if selectKey = [] \<or> selectValue = []
      then (Some ''MISSING SELECTOR VALUE - NO HEADLESS SERVICE DEFINITION'', KubeNodePort0)
      else (nil_error,
        \<lparr>np_Name = metaName,
         np_Selector = Some [\<lparr>lbl_Key = selectKey, lbl_Value = selectValue\<rparr>],
         np_Port = \<lparr>port_Name = portName, port_ContainerPort = cntrPort,
           port_TargetPort = targetPort, port_NodePort = nodePort\<rparr>\<rparr>))"

section \<open>API objects\<close>

record 'x ServicePort =
  sp_Name :: string
  sp_Port :: int32
  sp_TargetPort :: 'x
  sp_NodePort :: int32

record 'x Service =
  svc_Name :: string
  svc_Ports :: "'x ServicePort list"
  svc_Selector :: "(string, string) gomap"
  svc_Type :: string

record ContainerPort =
  cp_Name :: string
  cp_Protocol :: string
  cp_ContainerPort :: int32

record Container =
  cnt_Name :: string
  cnt_Image :: string
  cnt_Ports :: "ContainerPort list"

record Deployment =
  dpl_Name :: string
  dpl_Replicas :: int32
  dpl_MatchLabels :: "(string, string) gomap"
  dpl_TemplateLabels :: "(string, string) gomap"
  dpl_Containers :: "Container list"

text \<open>Of a listed node and pod the source reads the following.\<close>

record Node =
  node_Addresses :: "(string \<times> string) list"
  node_Conditions :: "(string \<times> string) list"

record Pod =
  pod_Phase :: string

text \<open>
  The client library. \<open>'c\<close> is the state of the cluster behind it; a \<open>Create\<close> call
  changes it, a \<open>List\<close> call reads it or fails.
\<close>

record ('x, 'c) kube_api =
  api_FromInt :: "goint \<Rightarrow> 'x"
  api_ServiceTypeNodePort :: string
  api_ProtocolTCP :: string
  api_NamespaceDefault :: string
  api_CreateService :: "string \<Rightarrow> 'x Service \<Rightarrow> 'c \<Rightarrow> go_error \<times> 'c"
  api_CreateDeployment :: "string \<Rightarrow> Deployment \<Rightarrow> 'c \<Rightarrow> go_error \<times> 'c"
  api_ListServices :: "'c \<Rightarrow> string + 'x Service list"
  api_ListNodes :: "'c \<Rightarrow> string + Node list"
  api_ListPods :: "'c \<Rightarrow> string + Pod list"

definition tupleToDict :: "KubeLable slice \<Rightarrow> (string, string) gomap" where
  "tupleToDict labels =
     fold (\<lambda>tuple dict.
       if lbl_Key tuple = [] \<or> lbl_Value tuple = [] then dict
       else map_set (lbl_Key tuple) (lbl_Value tuple) dict) (slice_items labels) []"

definition nodeportObject :: "('x, 'c) kube_api \<Rightarrow> KubeNodePort \<Rightarrow> 'x Service" where
  "nodeportObject api object =
     \<lparr>svc_Name = np_Name object,
      svc_Ports = [\<lparr>sp_Name = port_Name (np_Port object),
        sp_Port = port_ContainerPort (np_Port object),
        sp_TargetPort = api_FromInt api (sint (port_TargetPort (np_Port object))),
        sp_NodePort = port_NodePort (np_Port object)\<rparr>],
      svc_Selector = tupleToDict (np_Selector object),
      svc_Type = api_ServiceTypeNodePort api\<rparr>"

definition CreateNodePort :: "('x, 'c) kube_api \<Rightarrow> 'c \<Rightarrow> KubeNodePort \<Rightarrow> go_error \<times> 'c" where
  "CreateNodePort api clstr object = api_CreateService api ''default'' (nodeportObject api object) clstr"

definition deploymentObject :: "('x, 'c) kube_api \<Rightarrow> KubeDeployment \<Rightarrow> Deployment" where
  "deploymentObject api object =
     \<lparr>dpl_Name = dep_Name object,
      dpl_Replicas = dep_Replicas object,
      dpl_MatchLabels = tupleToDict (dep_Selector object),
      dpl_TemplateLabels = tupleToDict (dep_Labels object),
      dpl_Containers = [\<lparr>cnt_Name = img_Name (dep_Image object),
        cnt_Image = img_ImageName (dep_Image object),
        cnt_Ports = [\<lparr>cp_Name = port_Name (img_Ports (dep_Image object)),
          cp_Protocol = api_ProtocolTCP api,
          cp_ContainerPort = port_ContainerPort (img_Ports (dep_Image object))\<rparr>]\<rparr>]\<rparr>"

definition CreateDeployment :: "('x, 'c) kube_api \<Rightarrow> 'c \<Rightarrow> KubeDeployment \<Rightarrow> go_error \<times> 'c" where
  "CreateDeployment api clstr object =
     api_CreateDeployment api (api_NamespaceDefault api) (deploymentObject api object) clstr"

section \<open>Lemmas\<close>

abbreviation label_pairs :: "KubeLable slice \<Rightarrow> (string \<times> string) list" where
  "label_pairs labels \<equiv> map (\<lambda>l. (lbl_Key l, lbl_Value l))
     (filter (\<lambda>l. lbl_Key l \<noteq> [] \<and> lbl_Value l \<noteq> []) (slice_items labels))"

lemma tupleToDict_fold:
  "tupleToDict labels = fold (\<lambda>(k, v). map_set k v) (label_pairs labels) []"
proof -
  have "fold (\<lambda>tuple dict.
       if lbl_Key tuple = [] \<or> lbl_Value tuple = [] then dict
       else map_set (lbl_Key tuple) (lbl_Value tuple) dict) ls m =
     fold (\<lambda>(k, v). map_set k v) (map (\<lambda>l. (lbl_Key l, lbl_Value l))
       (filter (\<lambda>l. lbl_Key l \<noteq> [] \<and> lbl_Value l \<noteq> []) ls)) m" for ls m
    by (induction ls arbitrary: m) auto
  then show ?thesis by (simp add: tupleToDict_def)
qed

lemma tupleToDict_ok: "map_ok (tupleToDict labels)"
  unfolding tupleToDict_fold by (rule gm.ok_fold_put) simp

lemma KubeCmd0_Type [simp]: "cmd_Type KubeCmd0 = NIL"
  by (simp add: KubeCmd0_def)

lemma not_nil_KubeCmd: "cmd_Type c \<noteq> NIL \<Longrightarrow> c \<noteq> KubeCmd0"
  by auto

section \<open>Properties\<close>

text \<open>
  The selector and label dictionaries are built from the label tuples with both parts
  non-empty; of several tuples with one key the last wins, every other key is absent.
\<close>

theorem tupleToDict_last_wins:
  "map_get (tupleToDict labels) k =
     map_of (rev (map (\<lambda>l. (lbl_Key l, lbl_Value l))
       (filter (\<lambda>l. lbl_Key l \<noteq> [] \<and> lbl_Value l \<noteq> []) (slice_items labels)))) k"
  unfolding tupleToDict_fold by (subst gm.get_fold_put) (auto split: option.splits)

text \<open>
  A node-port object is built exactly when all three ports are non-zero and the selector
  has a key and a value; then the service sent to the cluster exposes the requested node
  port and selects on exactly that label, otherwise the caller gets an error and the zero
  object.
\<close>

theorem CreateNodePortObject_spec:
  "(case CreateNodePortObject nm pn cp tp np key val of (err, obj) \<Rightarrow>
      (err = nil_error \<longleftrightarrow> cp \<noteq> 0 \<and> tp \<noteq> 0 \<and> np \<noteq> 0 \<and> key \<noteq> [] \<and> val \<noteq> []) \<and>
      (if err = nil_error
       then map sp_NodePort (svc_Ports (nodeportObject api obj)) = [np] \<and>
            map sp_Port (svc_Ports (nodeportObject api obj)) = [cp] \<and>
            svc_Selector (nodeportObject api obj) = [(key, val)]
       else obj = KubeNodePort0))"
  by (simp add: CreateNodePortObject_def nodeportObject_def tupleToDict_def map_set_def)

end
