(* ===== verification/Raft_Rpc.thy ===== *)
theory Raft_Rpc
  imports Network Kube_Resources
begin

text \<open>
  \<open>raft/rpc.go\<close>: the four messages of the protocol and their decoding. A payload is the
  encoding of one of the four structs, or bytes that do not decode. \<open>gob\<close> matches struct
  fields by name: a payload decoded as another of the four types yields the fields the two
  types share (every two share \<open>Term\<close> and \<open>LogIndex\<close>) and zero values for the others.
  Zero-length slices are not transmitted and come back as \<open>nil\<close>. The limit of 2048 bytes
  on an encoded message is not part of this type; \<open>Raft_Wire\<close> has the bytes.
\<close>

record RequestVote =
  rv_Term :: goint
  rv_CandidateAddr :: string
  rv_LogIndex :: goint
  rv_Agreed :: bool

record AppendEntry =
  ae_Term :: goint
  ae_LeaderAddr :: string
  ae_LogIndex :: goint
  ae_NewObject :: KubeCmd
  ae_Confirmed :: bool

record FetchMissingEntries =
  fm_Term :: goint
  fm_LeaderAddr :: string
  fm_LogIndex :: goint
  fm_NewObject :: KubeCmd

record AppendEntryResponse =
  ar_Term :: goint
  ar_LeaderAddr :: string
  ar_LogIndex :: goint
  ar_Confirmed :: bool

datatype payload =
    PL_RequestVote RequestVote
  | PL_AppendEntry AppendEntry
  | PL_AppendEntryResponse AppendEntryResponse
  | PL_FetchMissingEntries FetchMissingEntries
  | PL_Bad

section \<open>What gob transmits\<close>

definition gob_slice :: "'a slice \<Rightarrow> 'a slice" where
  "gob_slice s = (if slice_items s = [] then None else s)"

definition gob_cmd :: "KubeCmd \<Rightarrow> KubeCmd" where
  "gob_cmd c = c\<lparr>
     cmd_ObjectDeployment := (cmd_ObjectDeployment c)\<lparr>
       dep_Selector := gob_slice (dep_Selector (cmd_ObjectDeployment c)),
       dep_Labels := gob_slice (dep_Labels (cmd_ObjectDeployment c))\<rparr>,
     cmd_ObjectService := (cmd_ObjectService c)\<lparr>
       np_Selector := gob_slice (np_Selector (cmd_ObjectService c))\<rparr>\<rparr>"

fun pl_Term :: "payload \<Rightarrow> goint" where
  "pl_Term (PL_RequestVote m) = rv_Term m"
| "pl_Term (PL_AppendEntry m) = ae_Term m"
| "pl_Term (PL_AppendEntryResponse m) = ar_Term m"
| "pl_Term (PL_FetchMissingEntries m) = fm_Term m"
| "pl_Term PL_Bad = 0"

fun pl_LogIndex :: "payload \<Rightarrow> goint" where
  "pl_LogIndex (PL_RequestVote m) = rv_LogIndex m"
| "pl_LogIndex (PL_AppendEntry m) = ae_LogIndex m"
| "pl_LogIndex (PL_AppendEntryResponse m) = ar_LogIndex m"
| "pl_LogIndex (PL_FetchMissingEntries m) = fm_LogIndex m"
| "pl_LogIndex PL_Bad = 0"

fun pl_LeaderAddr :: "payload \<Rightarrow> string" where
  "pl_LeaderAddr (PL_AppendEntry m) = ae_LeaderAddr m"
| "pl_LeaderAddr (PL_AppendEntryResponse m) = ar_LeaderAddr m"
| "pl_LeaderAddr (PL_FetchMissingEntries m) = fm_LeaderAddr m"
| "pl_LeaderAddr _ = []"

fun pl_CandidateAddr :: "payload \<Rightarrow> string" where
  "pl_CandidateAddr (PL_RequestVote m) = rv_CandidateAddr m"
| "pl_CandidateAddr _ = []"

fun pl_Agreed :: "payload \<Rightarrow> bool" where
  "pl_Agreed (PL_RequestVote m) = rv_Agreed m"
| "pl_Agreed _ = False"

fun pl_NewObject :: "payload \<Rightarrow> KubeCmd" where
  "pl_NewObject (PL_AppendEntry m) = gob_cmd (ae_NewObject m)"
| "pl_NewObject (PL_FetchMissingEntries m) = gob_cmd (fm_NewObject m)"
| "pl_NewObject _ = KubeCmd0"

fun pl_Confirmed :: "payload \<Rightarrow> bool" where
  "pl_Confirmed (PL_AppendEntry m) = ae_Confirmed m"
| "pl_Confirmed (PL_AppendEntryResponse m) = ar_Confirmed m"
| "pl_Confirmed _ = False"

section \<open>decodePayload at its four types\<close>

definition decode_error :: "payload \<Rightarrow> go_error" where
  "decode_error p = (if p = PL_Bad then Some ''DECODE ERROR'' else nil_error)"

definition decodePayload_RequestVote :: "payload \<Rightarrow> RequestVote \<times> go_error" where
  "decodePayload_RequestVote p =
     (\<lparr>rv_Term = pl_Term p, rv_CandidateAddr = pl_CandidateAddr p, rv_LogIndex = pl_LogIndex p,
       rv_Agreed = pl_Agreed p\<rparr>, decode_error p)"

definition decodePayload_AppendEntry :: "payload \<Rightarrow> AppendEntry \<times> go_error" where
  "decodePayload_AppendEntry p =
     (\<lparr>ae_Term = pl_Term p, ae_LeaderAddr = pl_LeaderAddr p, ae_LogIndex = pl_LogIndex p,
       ae_NewObject = pl_NewObject p, ae_Confirmed = pl_Confirmed p\<rparr>, decode_error p)"

definition decodePayload_FetchMissingEntries :: "payload \<Rightarrow> FetchMissingEntries \<times> go_error" where
  "decodePayload_FetchMissingEntries p =
     (\<lparr>fm_Term = pl_Term p, fm_LeaderAddr = pl_LeaderAddr p, fm_LogIndex = pl_LogIndex p,
       fm_NewObject = pl_NewObject p\<rparr>, decode_error p)"

definition decodePayload_AppendEntryResponse :: "payload \<Rightarrow> AppendEntryResponse \<times> go_error" where
  "decodePayload_AppendEntryResponse p =
     (\<lparr>ar_Term = pl_Term p, ar_LeaderAddr = pl_LeaderAddr p, ar_LogIndex = pl_LogIndex p,
       ar_Confirmed = pl_Confirmed p\<rparr>, decode_error p)"

lemmas decodePayload_defs = decodePayload_RequestVote_def decodePayload_AppendEntry_def
  decodePayload_FetchMissingEntries_def decodePayload_AppendEntryResponse_def decode_error_def

lemma gob_slice_id [simp]: "s \<noteq> Some [] \<Longrightarrow> gob_slice s = s"
  by (cases s) (auto simp: gob_slice_def)

lemma gob_slice_idem [simp]: "gob_slice (gob_slice s) = gob_slice s"
  by (simp add: gob_slice_def)

lemma gob_cmd_idem [simp]: "gob_cmd (gob_cmd c) = gob_cmd c"
  by (simp add: gob_cmd_def)

lemma gob_cmd_zero [simp]: "gob_cmd KubeCmd0 = KubeCmd0"
  by (simp add: gob_cmd_def KubeCmd0_def KubeDeployment0_def KubeNodePort0_def gob_slice_def)

lemma gob_cmd_Type [simp]: "cmd_Type (gob_cmd c) = cmd_Type c"
  by (simp add: gob_cmd_def)

end
