(* ===== verification/Raft_Peer.thy ===== *)
theory Raft_Peer
  imports Go_Base
begin

text \<open>
  \<open>raft/peer.go\<close>: the entry a node keeps for a peer (and for itself), and the roles of
  \<open>raft/raft.go\<close>. \<open>time.Now()\<close> is an argument \<open>now\<close>. Methods that write through
  the receiver return the new entry. \<open>Peer.ToString\<close>, which is
  not called, passes the host name where the format string belongs.
\<close>

text \<open>Roles never travel over the network, so the three constants are the whole type.\<close>

datatype RaftStatus = LEADER | CANDIDATE | MEMBER

definition RaftStatus_toString :: "RaftStatus \<Rightarrow> string" where
  "RaftStatus_toString r =
     (case r of LEADER \<Rightarrow> ''LEADER'' | CANDIDATE \<Rightarrow> ''CANDIDATE'' | MEMBER \<Rightarrow> ''MEMBER'')"

record Peer =
  peer_ttl :: instant
  peer_host :: string
  peer_active :: bool
  peer_addr :: string
  peer_role :: RaftStatus
  peer_term :: goint

definition InitPeer :: "string \<Rightarrow> string \<Rightarrow> Peer" where
  "InitPeer addr hostname =
     \<lparr>peer_ttl = 0, peer_host = hostname, peer_active = False, peer_addr = addr,
      peer_role = MEMBER, peer_term = 0\<rparr>"

definition peer_GetAddr :: "Peer \<Rightarrow> string" where
  "peer_GetAddr p = peer_addr p"

definition peer_GetTerm :: "Peer \<Rightarrow> goint" where
  "peer_GetTerm p = peer_term p"

definition peer_deactivatePeer :: "Peer \<Rightarrow> Peer" where
  "peer_deactivatePeer p = p\<lparr>peer_active := False, peer_role := MEMBER\<rparr>"

definition peer_GetTimeRemaining :: "instant \<Rightarrow> Peer \<Rightarrow> Peer \<times> duration" where
  "peer_GetTimeRemaining now p =
     (let ttlTime = time_Sub (peer_ttl p) now
      in (if ttlTime < 0 then peer_deactivatePeer p else p, ttlTime))"

definition peer_IsLeader :: "Peer \<Rightarrow> bool" where
  "peer_IsLeader p \<longleftrightarrow> peer_role p = LEADER"

definition peer_IsCandidate :: "Peer \<Rightarrow> bool" where
  "peer_IsCandidate p \<longleftrightarrow> peer_role p = CANDIDATE"

definition peer_IsMember :: "Peer \<Rightarrow> bool" where
  "peer_IsMember p \<longleftrightarrow> peer_role p = MEMBER"

definition peer_DeactivateLeader :: "Peer \<Rightarrow> Peer \<times> bool" where
  "peer_DeactivateLeader p = (p\<lparr>peer_role := MEMBER\<rparr>, True)"

definition peer_RaiseTerm :: "goint \<Rightarrow> Peer \<Rightarrow> Peer" where
  "peer_RaiseTerm increase p = p\<lparr>peer_term := add64 (peer_term p) increase\<rparr>"

definition peer_LowerTerm :: "goint \<Rightarrow> Peer \<Rightarrow> Peer" where
  "peer_LowerTerm decrease p = p\<lparr>peer_term := sub64 (peer_term p) decrease\<rparr>"

text \<open>
  \<open>fmt.Sprintf\<close> (a format and its arguments) and the seconds of a duration are arguments. The
  method of a leader's entry deactivates it when its time is over.
\<close>

definition peer_ToString ::
    "(string \<Rightarrow> string list \<Rightarrow> string) \<Rightarrow> (duration \<Rightarrow> string) \<Rightarrow> instant \<Rightarrow> Peer \<Rightarrow> Peer \<times> string" where
  "peer_ToString sprintf show_seconds now p =
     (let (p', ttlString) =
        (case peer_role p of
           LEADER \<Rightarrow> (case peer_GetTimeRemaining now p of (q, ttl) \<Rightarrow> (q, show_seconds ttl))
         | _ \<Rightarrow> (p, ''NA''))
      in (p', sprintf (peer_host p)
            [''[HOST: %s, ROLE: %s, TTL: %s]'', RaftStatus_toString (peer_role p), ttlString]))"

lemmas peer_role_defs = peer_IsLeader_def peer_IsCandidate_def peer_IsMember_def

lemma InitPeer_simps [routing_simps]:
  "peer_ttl (InitPeer a h) = 0" "peer_host (InitPeer a h) = h"
  "peer_active (InitPeer a h) = False" "peer_addr (InitPeer a h) = a"
  "peer_role (InitPeer a h) = MEMBER" "peer_term (InitPeer a h) = 0"
  by (simp_all add: InitPeer_def)

lemma peer_GetTimeRemaining_addr [routing_simps]:
  "peer_addr (fst (peer_GetTimeRemaining now p)) = peer_addr p"
  "peer_ttl (fst (peer_GetTimeRemaining now p)) = peer_ttl p"
  by (simp_all add: peer_GetTimeRemaining_def peer_deactivatePeer_def Let_def)

end
