(* ===== verification/Raft_Routing.thy ===== *)
theory Raft_Routing
  imports Raft_Peer Go_Map
begin

text \<open>
  \<open>raft/routing.go\<close>: the routing table of a node, with the node's own entry and one entry
  per peer address. Each method becomes a function from the table (and, where the method
  ranges over the map, the order \<open>ks\<close> of the visit, and the clock) to the new table and
  the returned values. A pointer to an entry is named by the key of the entry.
\<close>

text \<open>Nanoseconds: the untyped constant is compared with a \<open>Duration\<close>.\<close>

definition TIME_RANGE_HEARTBEAT :: duration where
  "TIME_RANGE_HEARTBEAT = 1"

text \<open>\<open>raft.go\<close>: how long a peer stays alive after a message, in seconds.\<close>

definition SEC_TIME_TIMEOUT_LEADER_HB :: goint where
  "SEC_TIME_TIMEOUT_LEADER_HB = 20"

record PeerRouting =
  rt_self :: Peer
  rt_table :: "(string, Peer) gomap"
  rt_active :: bool

definition InitPeerRouting :: "string \<Rightarrow> PeerRouting" where
  "InitPeerRouting hostAddress =
     \<lparr>rt_self = InitPeer hostAddress ''SELF'', rt_table = [], rt_active = False\<rparr>"

definition GetAddr :: "PeerRouting \<Rightarrow> string" where
  "GetAddr p = peer_addr (rt_self p)"

definition GetRole :: "PeerRouting \<Rightarrow> RaftStatus" where
  "GetRole p = peer_role (rt_self p)"

definition GetRoleString :: "PeerRouting \<Rightarrow> string" where
  "GetRoleString p = RaftStatus_toString (peer_role (rt_self p))"

definition GetTerm :: "PeerRouting \<Rightarrow> goint" where
  "GetTerm p = peer_term (rt_self p)"

definition IsPeer :: "string \<Rightarrow> PeerRouting \<Rightarrow> bool" where
  "IsPeer addr p \<longleftrightarrow> map_get (rt_table p) addr \<noteq> None"

text \<open>
  The slice is made with the length of the table and then appended to: it starts with as
  many empty strings (here) or \<open>nil\<close> pointers (\<open>GetPeers\<close>) as there are peers.
\<close>

definition GetPeersAddress :: "string list \<Rightarrow> PeerRouting \<Rightarrow> string list" where
  "GetPeersAddress ks p = replicate (length (rt_table p)) [] @ ks"

definition GetPeers :: "string list \<Rightarrow> PeerRouting \<Rightarrow> string option list" where
  "GetPeers ks p = replicate (length (rt_table p)) None @ map Some ks"

definition LockRoutingTableEntries :: "PeerRouting \<Rightarrow> PeerRouting \<times> goint" where
  "LockRoutingTableEntries p = (p\<lparr>rt_active := True\<rparr>, (map_len (rt_table p) + 1) div 2)"

definition AddPeer :: "string \<Rightarrow> string \<Rightarrow> PeerRouting \<Rightarrow> PeerRouting \<times> go_error" where
  "AddPeer addr contact p =
     (if rt_active p then (p, Some ''CANNOT ADD ENTRIES AFTER PROTOCOL INITIATION'')
      else if map_get (rt_table p) addr \<noteq> None then (p, Some ''ENTRY EXISTS'')
      else (p\<lparr>rt_table := map_set addr (InitPeer addr contact) (rt_table p)\<rparr>, nil_error))"

definition GetLeaderAddr :: "string list \<Rightarrow> PeerRouting \<Rightarrow> string \<times> go_error" where
  "GetLeaderAddr ks p =
     (if peer_IsLeader (rt_self p) then (peer_addr (rt_self p), nil_error)
      else case range_find peer_IsLeader (rt_table p) ks of
        Some addr \<Rightarrow> (addr, nil_error)
      | None \<Rightarrow> ([], Some ''NO ENTRY''))"

definition GetLeaderTimeout :: "instant \<Rightarrow> string list \<Rightarrow> PeerRouting
    \<Rightarrow> PeerRouting \<times> duration \<times> go_error" where
  "GetLeaderTimeout now ks p =
     (case range_find peer_IsLeader (rt_table p) ks of
        None \<Rightarrow> (p, 0, Some ''NO LEADER ELECTED'')
      | Some addr \<Rightarrow>
          (case map_get (rt_table p) addr of
             None \<Rightarrow> (p, 0, Some ''NO LEADER ELECTED'')
           | Some v \<Rightarrow>
               (case peer_GetTimeRemaining now v of (v', leaderTTL) \<Rightarrow>
                  (let p' = p\<lparr>rt_table := map_set addr v' (rt_table p)\<rparr>
                   in if leaderTTL < 0 then (p', 0, Some ''LEADER TIMEOUT'')
                      else (p', leaderTTL, nil_error)))))"

definition GetCandidateAddress :: "string list \<Rightarrow> PeerRouting \<Rightarrow> string \<times> go_error" where
  "GetCandidateAddress ks p =
     (case range_find peer_IsCandidate (rt_table p) ks of
        Some addr \<Rightarrow> (addr, nil_error)
      | None \<Rightarrow> ([], Some ''NO ASSIGNED CANDIDATE''))"

definition GetRandomMember :: "string list \<Rightarrow> PeerRouting
    \<Rightarrow> PeerRouting \<times> string option \<times> go_error" where
  "GetRandomMember ks p =
     (if \<not> peer_IsLeader (rt_self p)
      then (p\<lparr>rt_self := (rt_self p)\<lparr>peer_role := MEMBER\<rparr>\<rparr>, None,
            Some ''CANNOT ASSIGN CANDIDATE AS NON LEADER'')
      else case range_find peer_IsMember (rt_table p) ks of
        Some addr \<Rightarrow> (p, Some addr, nil_error)
      | None \<Rightarrow> (p, None, Some ''NO PEER ENTRY''))"

definition CheckLeaderTimeout :: "instant \<Rightarrow> string list \<Rightarrow> PeerRouting
    \<Rightarrow> PeerRouting \<times> bool \<times> duration \<times> go_error" where
  "CheckLeaderTimeout now ks p =
     (case GetLeaderTimeout now ks p of (p', timeNextHeartbeat, err) \<Rightarrow>
        if err \<noteq> nil_error then (p', True, 0, err)
        else if timeNextHeartbeat < TIME_RANGE_HEARTBEAT then (p', True, 0, nil_error)
        else (p', False, timeNextHeartbeat, nil_error))"

definition UpdateTTL :: "string \<Rightarrow> instant \<Rightarrow> PeerRouting \<Rightarrow> PeerRouting \<times> go_error" where
  "UpdateTTL addr now p =
     (case map_get (rt_table p) addr of
        Some pr \<Rightarrow>
          (p\<lparr>rt_table := map_set addr
               (pr\<lparr>peer_ttl := time_Add now (time_Second * SEC_TIME_TIMEOUT_LEADER_HB),
                   peer_active := True\<rparr>) (rt_table p)\<rparr>, nil_error)
      | None \<Rightarrow> (p, Some ''NO ENTRY''))"

definition RaiseTerm :: "goint \<Rightarrow> PeerRouting \<Rightarrow> PeerRouting" where
  "RaiseTerm increase p =
     (if increase > 0 then p\<lparr>rt_self := peer_RaiseTerm increase (rt_self p)\<rparr> else p)"

definition LowerTerm :: "goint \<Rightarrow> PeerRouting \<Rightarrow> PeerRouting" where
  "LowerTerm decrease p =
     (if decrease > 0 then p\<lparr>rt_self := peer_LowerTerm decrease (rt_self p)\<rparr> else p)"

definition BecomeMember :: "goint \<Rightarrow> PeerRouting \<Rightarrow> PeerRouting \<times> bool" where
  "BecomeMember newTerm p =
     (let p1 = p\<lparr>rt_self := (rt_self p)\<lparr>peer_term := newTerm\<rparr>\<rparr>
      in if \<not> peer_IsMember (rt_self p1)
         then (p1\<lparr>rt_self := (rt_self p1)\<lparr>peer_role := MEMBER\<rparr>\<rparr>, True)
         else (p1, False))"

definition BecomeCandidate :: "PeerRouting \<Rightarrow> PeerRouting \<times> bool" where
  "BecomeCandidate p =
     (p\<lparr>rt_self := (rt_self p)\<lparr>peer_role := CANDIDATE\<rparr>\<rparr>, peer_IsMember (rt_self p))"

definition MakeCandidate :: "string \<Rightarrow> PeerRouting \<Rightarrow> PeerRouting \<times> bool" where
  "MakeCandidate addr p =
     (let newCandidateAssigned = (map_get (rt_table p) addr \<noteq> None);
          visit = (\<lambda>paddr peer.
            let peer1 = (if peer_IsCandidate peer \<and> paddr \<noteq> addr
                         then peer\<lparr>peer_role := MEMBER\<rparr> else peer)
            in if paddr = addr then peer1\<lparr>peer_role := CANDIDATE\<rparr> else peer1);
          p1 = p\<lparr>rt_table := map_all visit (rt_table p)\<rparr>
      in if peer_addr (rt_self p1) = addr \<and> \<not> peer_IsCandidate (rt_self p1)
         then (p1\<lparr>rt_self := (rt_self p1)\<lparr>peer_role := CANDIDATE\<rparr>\<rparr>, True)
         else if peer_IsCandidate (rt_self p1) \<and> newCandidateAssigned
         then (p1\<lparr>rt_self := (rt_self p1)\<lparr>peer_role := MEMBER\<rparr>\<rparr>, newCandidateAssigned)
         else (p1, newCandidateAssigned))"

definition BecomeLeader :: "PeerRouting \<Rightarrow> PeerRouting" where
  "BecomeLeader p =
     p\<lparr>rt_self := (rt_self p)\<lparr>peer_role := LEADER\<rparr>,
       rt_table := map_all (\<lambda>_ peer. peer\<lparr>peer_role := MEMBER\<rparr>) (rt_table p)\<rparr>"

definition WipeLeader :: "PeerRouting \<Rightarrow> PeerRouting" where
  "WipeLeader p =
     p\<lparr>rt_self := (rt_self p)\<lparr>peer_role := MEMBER\<rparr>,
       rt_table := map_all (\<lambda>_ peer. peer\<lparr>peer_role := MEMBER\<rparr>) (rt_table p)\<rparr>"

definition MakeLeader :: "string \<Rightarrow> PeerRouting \<Rightarrow> PeerRouting \<times> bool" where
  "MakeLeader addr p =
     (case map_get (rt_table p) addr of
        Some peer \<Rightarrow>
          (p\<lparr>rt_table := map_set addr (peer\<lparr>peer_role := LEADER\<rparr>) (rt_table p)\<rparr>, True)
      | None \<Rightarrow>
          if peer_addr (rt_self p) = addr
          then (p\<lparr>rt_self := (rt_self p)\<lparr>peer_role := LEADER\<rparr>\<rparr>, True)
          else (p, False))"

text \<open>The part of \<open>RAFT.Start\<close> that fills the table; the errors are dropped.\<close>

definition add_peers :: "string list \<Rightarrow> PeerRouting \<Rightarrow> PeerRouting" where
  "add_peers peers p = fold (\<lambda>peer q. fst (AddPeer peer [] q)) peers p"

end
