(* ===== verification/Raft_Membership.thy ===== *)
theory Raft_Membership
  imports Raft_Routing
begin

text \<open>
  What the routing table guarantees: well-formedness under every operation, a membership
  that is frozen once the protocol has started (stated as a contract, the locale
  \<open>membership\<close>), the leader entry, the leader time-out, and the quorum that is read off
  the frozen table (the locale \<open>quorum_system\<close>).
\<close>

section \<open>Field facts\<close>

abbreviation rt_peers :: "PeerRouting \<Rightarrow> string list" where
  "rt_peers p \<equiv> map_keys (rt_table p)"

definition routing_ok :: "PeerRouting \<Rightarrow> bool" where
  "routing_ok p \<longleftrightarrow> map_ok (rt_table p) \<and> list_all (\<lambda>(k, v). peer_addr v = k) (rt_table p)"

lemma list_all_map_set:
  "list_all P m \<Longrightarrow> P (k, v) \<Longrightarrow> list_all P (map_set k v m)"
  by (induction m) (auto simp: map_set_def)

lemma list_all_get: "list_all (\<lambda>(k, v). P k v) m \<Longrightarrow> map_get m k = Some v \<Longrightarrow> P k v"
  by (induction m) (auto split: if_splits)

lemma list_all_map_all:
  "list_all (\<lambda>(k, v). P k v) m \<Longrightarrow> (\<And>k v. P k v \<Longrightarrow> P k (f k v)) \<Longrightarrow>
   list_all (\<lambda>(k, v). P k v) (map_all f m)"
  by (induction m) (auto simp: map_all_def)

lemma routing_ok_set:
  "routing_ok p \<Longrightarrow> peer_addr v = k \<Longrightarrow> routing_ok (p\<lparr>rt_table := map_set k v (rt_table p)\<rparr>)"
  by (simp add: routing_ok_def list_all_map_set)

lemma routing_ok_get: "routing_ok p \<Longrightarrow> map_get (rt_table p) k = Some v \<Longrightarrow> peer_addr v = k"
  unfolding routing_ok_def using list_all_get [of "\<lambda>k v. peer_addr v = k"] by blast

lemma routing_ok_all:
  "routing_ok p \<Longrightarrow> (\<And>k v. peer_addr v = k \<Longrightarrow> peer_addr (f k v) = k) \<Longrightarrow>
   routing_ok (p\<lparr>rt_table := map_all f (rt_table p)\<rparr>)"
  using list_all_map_all [of "\<lambda>k v. peer_addr v = k" "rt_table p" f]
  by (auto simp: routing_ok_def)

lemma routing_ok_all_role [simp]:
  "routing_ok p \<Longrightarrow>
   routing_ok (p\<lparr>rt_table := map_all (\<lambda>_ peer. peer\<lparr>peer_role := r\<rparr>) (rt_table p)\<rparr>)"
  by (rule routing_ok_all) simp_all

lemma routing_ok_self [simp]: "routing_ok (p\<lparr>rt_self := x\<rparr>) = routing_ok p"
  by (simp add: routing_ok_def)

lemma routing_ok_active [simp]: "routing_ok (p\<lparr>rt_active := x\<rparr>) = routing_ok p"
  by (simp add: routing_ok_def)

section \<open>Operations as a type\<close>

text \<open>The methods of \<open>PeerRouting\<close> that write, with the environment's choices as arguments.\<close>

datatype routing_op =
    Op_LockRoutingTableEntries
  | Op_AddPeer string string
  | Op_GetLeaderTimeout instant "string list"
  | Op_CheckLeaderTimeout instant "string list"
  | Op_GetRandomMember "string list"
  | Op_UpdateTTL string instant
  | Op_RaiseTerm goint
  | Op_LowerTerm goint
  | Op_BecomeMember goint
  | Op_BecomeCandidate
  | Op_MakeCandidate string
  | Op_BecomeLeader
  | Op_WipeLeader
  | Op_MakeLeader string

fun routing_apply :: "routing_op \<Rightarrow> PeerRouting \<Rightarrow> PeerRouting" where
  "routing_apply Op_LockRoutingTableEntries p = fst (LockRoutingTableEntries p)"
| "routing_apply (Op_AddPeer a c) p = fst (AddPeer a c p)"
| "routing_apply (Op_GetLeaderTimeout now ks) p = fst (GetLeaderTimeout now ks p)"
| "routing_apply (Op_CheckLeaderTimeout now ks) p = fst (CheckLeaderTimeout now ks p)"
| "routing_apply (Op_GetRandomMember ks) p = fst (GetRandomMember ks p)"
| "routing_apply (Op_UpdateTTL a now) p = fst (UpdateTTL a now p)"
| "routing_apply (Op_RaiseTerm i) p = RaiseTerm i p"
| "routing_apply (Op_LowerTerm i) p = LowerTerm i p"
| "routing_apply (Op_BecomeMember t) p = fst (BecomeMember t p)"
| "routing_apply Op_BecomeCandidate p = fst (BecomeCandidate p)"
| "routing_apply (Op_MakeCandidate a) p = fst (MakeCandidate a p)"
| "routing_apply Op_BecomeLeader p = BecomeLeader p"
| "routing_apply Op_WipeLeader p = WipeLeader p"
| "routing_apply (Op_MakeLeader a) p = fst (MakeLeader a p)"

lemma GetLeaderTimeout_fst_cases:
  "fst (GetLeaderTimeout now ks p) = p \<or>
   (\<exists>k v. map_get (rt_table p) k = Some v \<and>
     fst (GetLeaderTimeout now ks p) =
       p\<lparr>rt_table := map_set k (fst (peer_GetTimeRemaining now v)) (rt_table p)\<rparr>)"
  by (auto simp: GetLeaderTimeout_def Let_def case_prod_beta split: option.splits)

lemma CheckLeaderTimeout_fst: "fst (CheckLeaderTimeout now ks p) = fst (GetLeaderTimeout now ks p)"
  by (simp add: CheckLeaderTimeout_def split: prod.splits)

lemma GetLeaderTimeout_keeps [routing_simps]:
  "rt_peers (fst (GetLeaderTimeout now ks p)) = rt_peers p"
  "rt_self (fst (GetLeaderTimeout now ks p)) = rt_self p"
  "rt_active (fst (GetLeaderTimeout now ks p)) = rt_active p"
  "routing_ok p \<Longrightarrow> routing_ok (fst (GetLeaderTimeout now ks p))"
  using GetLeaderTimeout_fst_cases [of now ks p]
  by (auto simp: routing_simps routing_ok_get map_keys_set_old map_get_Some_key routing_ok_set)

lemmas CheckLeaderTimeout_keeps [routing_simps] =
  GetLeaderTimeout_keeps [folded CheckLeaderTimeout_fst]

lemma UpdateTTL_keeps [routing_simps]:
  "rt_peers (fst (UpdateTTL a now p)) = rt_peers p"
  "rt_self (fst (UpdateTTL a now p)) = rt_self p"
  "rt_active (fst (UpdateTTL a now p)) = rt_active p"
  "routing_ok p \<Longrightarrow> routing_ok (fst (UpdateTTL a now p))"
  by (auto simp: UpdateTTL_def map_keys_set_old map_get_Some_key routing_ok_get
      intro: routing_ok_set split: option.splits)

lemma MakeLeader_keeps [routing_simps]:
  "rt_peers (fst (MakeLeader a p)) = rt_peers p"
  "peer_addr (rt_self (fst (MakeLeader a p))) = peer_addr (rt_self p)"
  "rt_active (fst (MakeLeader a p)) = rt_active p"
  "routing_ok p \<Longrightarrow> routing_ok (fst (MakeLeader a p))"
  by (auto simp: MakeLeader_def map_keys_set_old map_get_Some_key routing_ok_get
      intro: routing_ok_set split: option.splits)

lemma WipeLeader_keeps [routing_simps]:
  "rt_peers (WipeLeader p) = rt_peers p"
  "peer_addr (rt_self (WipeLeader p)) = peer_addr (rt_self p)"
  "rt_active (WipeLeader p) = rt_active p"
  "routing_ok p \<Longrightarrow> routing_ok (WipeLeader p)"
  using routing_ok_all_role [of p MEMBER] by (simp_all add: WipeLeader_def routing_ok_def)

lemma BecomeLeader_keeps [routing_simps]:
  "rt_peers (BecomeLeader p) = rt_peers p"
  "peer_addr (rt_self (BecomeLeader p)) = peer_addr (rt_self p)"
  "rt_active (BecomeLeader p) = rt_active p"
  "routing_ok p \<Longrightarrow> routing_ok (BecomeLeader p)"
  using routing_ok_all_role [of p MEMBER] by (simp_all add: BecomeLeader_def routing_ok_def)

lemma MakeCandidate_keeps [routing_simps]:
  "rt_peers (fst (MakeCandidate a p)) = rt_peers p"
  "peer_addr (rt_self (fst (MakeCandidate a p))) = peer_addr (rt_self p)"
  "rt_active (fst (MakeCandidate a p)) = rt_active p"
  "routing_ok p \<Longrightarrow> routing_ok (fst (MakeCandidate a p))"
  by (auto simp: MakeCandidate_def Let_def intro!: routing_ok_all)

lemma AddPeer_keeps [routing_simps]:
  "rt_active p \<Longrightarrow> fst (AddPeer a c p) = p"
  "rt_self (fst (AddPeer a c p)) = rt_self p"
  "rt_active (fst (AddPeer a c p)) = rt_active p"
  "routing_ok p \<Longrightarrow> routing_ok (fst (AddPeer a c p))"
  by (auto simp: AddPeer_def routing_simps intro: routing_ok_set)

lemmas self_op_defs = LockRoutingTableEntries_def GetRandomMember_def RaiseTerm_def LowerTerm_def
  BecomeMember_def BecomeCandidate_def peer_RaiseTerm_def peer_LowerTerm_def Let_def

lemma routing_apply_ok: "routing_ok p \<Longrightarrow> routing_ok (routing_apply op p)"
  by (cases op) (simp_all add: routing_simps self_op_defs split: option.splits)

lemma routing_apply_addr: "peer_addr (rt_self (routing_apply op p)) = peer_addr (rt_self p)"
  by (cases op) (simp_all add: routing_simps self_op_defs split: option.splits)

lemma routing_apply_active: "rt_active p \<Longrightarrow> rt_active (routing_apply op p)"
  by (cases op) (simp_all add: routing_simps self_op_defs split: option.splits)

lemma routing_apply_peers: "rt_active p \<Longrightarrow> rt_peers (routing_apply op p) = rt_peers p"
  by (cases op) (simp_all add: routing_simps self_op_defs split: option.splits)

section \<open>The membership contract\<close>

locale membership =
  fixes perform :: "'op \<Rightarrow> 't \<Rightarrow> 't"
    and members :: "'t \<Rightarrow> 'a list"
    and owner :: "'t \<Rightarrow> 'a"
    and locked :: "'t \<Rightarrow> bool"
    and ok :: "'t \<Rightarrow> bool"
  assumes ok_perform: "ok t \<Longrightarrow> ok (perform op t)"
    and locked_perform: "locked t \<Longrightarrow> locked (perform op t)"
    and members_perform: "locked t \<Longrightarrow> members (perform op t) = members t"
    and owner_perform: "owner (perform op t) = owner t"
begin

lemma run_ok: "ok t \<Longrightarrow> ok (fold perform ops t)"
  by (induction ops arbitrary: t) (simp_all add: ok_perform)

lemma run_locked:
  "locked t \<Longrightarrow> locked (fold perform ops t) \<and> members (fold perform ops t) = members t"
  by (induction ops arbitrary: t) (simp_all add: locked_perform members_perform)

lemma run_owner: "owner (fold perform ops t) = owner t"
  by (induction ops arbitrary: t) (simp_all add: owner_perform)

end

interpretation rm: membership routing_apply rt_peers GetAddr rt_active routing_ok
  by unfold_locales
    (simp_all add: routing_apply_ok routing_apply_active routing_apply_peers routing_apply_addr
      GetAddr_def)

section \<open>The table a node starts with\<close>

lemma add_peers_Cons: "add_peers (x # xs) p = add_peers xs (fst (AddPeer x [] p))"
  by (simp add: add_peers_def)

lemma add_peers_keeps [routing_simps]:
  "rt_self (add_peers ps p) = rt_self p"
  "rt_active (add_peers ps p) = rt_active p"
  "routing_ok p \<Longrightarrow> routing_ok (add_peers ps p)"
  by (induction ps arbitrary: p) (simp_all add: add_peers_Cons routing_simps, simp_all add: add_peers_def)

lemma set_peers_AddPeer:
  "\<not> rt_active p \<Longrightarrow> set (rt_peers (fst (AddPeer a c p))) = insert a (set (rt_peers p))"
  by (auto simp: AddPeer_def dest: map_get_Some_key)

lemma set_peers_add_peers:
  "\<not> rt_active p \<Longrightarrow> set (rt_peers (add_peers ps p)) = set ps \<union> set (rt_peers p)"
proof (induction ps arbitrary: p)
  case Nil
  then show ?case by (simp add: add_peers_def)
next
  case (Cons a ps)
  then show ?case by (simp add: add_peers_Cons set_peers_AddPeer routing_simps)
qed

lemma InitPeerRouting_simps [routing_simps]:
  "rt_table (InitPeerRouting a) = []" "rt_active (InitPeerRouting a) = False"
  "rt_self (InitPeerRouting a) = InitPeer a ''SELF''"
  by (simp_all add: InitPeerRouting_def)

lemma routing_ok_Init: "routing_ok (InitPeerRouting a)"
  by (simp add: routing_ok_def routing_simps)

lemma start_routing_facts:
  "routing_ok (add_peers ps (InitPeerRouting a))"
  "set (rt_peers (add_peers ps (InitPeerRouting a))) = set ps"
  "GetAddr (add_peers ps (InitPeerRouting a)) = a"
  "\<not> rt_active (add_peers ps (InitPeerRouting a))"
  by (simp_all add: routing_simps routing_ok_Init set_peers_add_peers GetAddr_def)

section \<open>Finding and timing out the leader\<close>

text \<open>The table entry of \<open>k\<close> is the only one with the leader role.\<close>

definition only_leader :: "string \<Rightarrow> Peer \<Rightarrow> PeerRouting \<Rightarrow> bool" where
  "only_leader k v p \<longleftrightarrow> map_get (rt_table p) k = Some v \<and> peer_IsLeader v \<and>
     list_all (\<lambda>(k', v'). peer_IsLeader v' \<longrightarrow> k' = k) (rt_table p)"

lemma only_leader_find:
  "only_leader k v p \<Longrightarrow> range_order (rt_table p) ks \<Longrightarrow>
   range_find peer_IsLeader (rt_table p) ks = Some k"
  using list_all_get [of "\<lambda>k' v'. peer_IsLeader v' \<longrightarrow> k' = k" "rt_table p"]
  by (auto simp: only_leader_def intro: range_find_unique)

lemma GetLeaderTimeout_only:
  assumes "only_leader k v p" and "range_order (rt_table p) ks"
  shows "GetLeaderTimeout now ks p =
    (if peer_ttl v < now
     then (p\<lparr>rt_table := map_set k (peer_deactivatePeer v) (rt_table p)\<rparr>, 0, Some ''LEADER TIMEOUT'')
     else (p, time_Sub (peer_ttl v) now, nil_error))"
  using assms only_leader_find [OF assms]
  by (simp add: GetLeaderTimeout_def only_leader_def peer_GetTimeRemaining_def Let_def
      time_Sub_neg_iff map_set_same)

lemma UpdateTTL_only_leader:
  assumes "only_leader k v p"
  shows "only_leader k (v\<lparr>peer_ttl := time_Add t (time_Second * SEC_TIME_TIMEOUT_LEADER_HB),
      peer_active := True\<rparr>) (fst (UpdateTTL k t p))"
  using assms by (auto simp: only_leader_def UpdateTTL_def peer_role_defs intro!: list_all_map_set)

section \<open>Properties\<close>

text \<open>
  Once the table filled by \<open>RAFT.Start\<close> is locked, no sequence of routing operations
  changes which peers it holds or the node's own address, and the table stays well formed
  (distinct keys, every entry stored under its own address).
\<close>

theorem membership_frozen:
  "let p = fold routing_apply ops
             (fst (LockRoutingTableEntries (add_peers ps (InitPeerRouting a))))
   in set (rt_peers p) = set ps \<and> GetAddr p = a \<and> routing_ok p"
proof -
  let ?q = "fst (LockRoutingTableEntries (add_peers ps (InitPeerRouting a)))"
  have q: "rt_active ?q" "routing_ok ?q" "set (rt_peers ?q) = set ps" "GetAddr ?q = a"
    using start_routing_facts [of ps a] by (simp_all add: LockRoutingTableEntries_def GetAddr_def)
  then show ?thesis
    using rm.run_locked [of ?q ops] rm.run_ok [of ?q ops] rm.run_owner [of ops ?q]
    by (simp add: Let_def)
qed

text \<open>
  Whatever order the map is visited in, \<open>GetLeaderAddr\<close> returns the address of an entry
  with the leader role (the node's own entry first) and fails exactly when there is none.
\<close>

theorem GetLeaderAddr_spec:
  assumes "range_order (rt_table p) ks"
  shows "case GetLeaderAddr ks p of (addr, err) \<Rightarrow>
    if err = nil_error
    then (peer_IsLeader (rt_self p) \<and> addr = GetAddr p) \<or>
         (\<not> peer_IsLeader (rt_self p) \<and> (\<exists>v. map_get (rt_table p) addr = Some v \<and> peer_IsLeader v))
    else addr = [] \<and> \<not> peer_IsLeader (rt_self p) \<and>
         (\<forall>k v. map_get (rt_table p) k = Some v \<longrightarrow> \<not> peer_IsLeader v)"
  using assms
  by (auto simp: GetLeaderAddr_def GetAddr_def range_find_None dest: range_find_Some
      split: option.splits)

theorem GetLeaderAddr_spec_witness:
  "let p = fst (MakeLeader ''b'' (add_peers [''b'', ''c''] (InitPeerRouting ''a'')))
   in range_order (rt_table p) [''c'', ''b''] \<and> GetLeaderAddr [''c'', ''b''] p = (''b'', nil_error)"
proof -
  let ?p = "fst (MakeLeader ''b'' (add_peers [''b'', ''c''] (InitPeerRouting ''a'')))"
  have o: "range_order (rt_table ?p) [''c'', ''b'']" by code_simp
  have "GetLeaderAddr [''c'', ''b''] ?p = (''b'', nil_error)" by code_simp
  with GetLeaderAddr_spec [OF o] o show ?thesis by (simp add: Let_def)
qed

text \<open>C26:
  a leader that was heard from at time \<open>t\<close> is accepted by the time-out check until
  \<open>t + 20 s\<close> (in any order of the visit); later the check fails and takes the leader role
  away from the entry, so that no leader is left.
\<close>

theorem leader_lease:
  assumes "only_leader k v p" and "range_order (rt_table p) ks"
  shows "case GetLeaderTimeout now ks (fst (UpdateTTL k t p)) of (p', ttl, err) \<Rightarrow>
    (err = nil_error \<longleftrightarrow> now \<le> t + 20000000000) \<and>
    (err = nil_error \<longrightarrow> 0 \<le> ttl) \<and>
    (err \<noteq> nil_error \<longrightarrow> range_find peer_IsLeader (rt_table p') ks = None)"
proof -
  let ?q = "fst (UpdateTTL k t p)"
  let ?v = "v\<lparr>peer_ttl := time_Add t (time_Second * SEC_TIME_TIMEOUT_LEADER_HB), peer_active := True\<rparr>"
  have ord: "range_order (rt_table ?q) ks"
    using assms(2) range_order_cong [OF UpdateTTL_keeps(1)] by blast
  note only = UpdateTTL_only_leader [OF assms(1), of t]
  have ttl: "peer_ttl ?v = t + 20000000000"
    by (simp add: time_Add_def time_Second_def SEC_TIME_TIMEOUT_LEADER_HB_def)
  have none: "range_find peer_IsLeader (map_set k (peer_deactivatePeer ?v) (rt_table ?q)) ks = None"
    using only list_all_get [of "\<lambda>k' v'. peer_IsLeader v' \<longrightarrow> k' = k" "rt_table ?q"]
    by (auto simp: range_find_def find_None_iff only_leader_def peer_deactivatePeer_def peer_role_defs
        split: option.splits if_splits)
  show ?thesis
    using GetLeaderTimeout_only [OF only ord, of now] ttl none time_Sub_neg_iff [of "t + 20000000000" now]
    by (auto simp: not_less)
qed

theorem leader_lease_witness:
  "let p = fst (MakeLeader ''b'' (add_peers [''b'', ''c''] (InitPeerRouting ''a'')))
   in snd (snd (GetLeaderTimeout 20000000007 [''b'', ''c''] (fst (UpdateTTL ''b'' 7 p)))) = nil_error"
proof -
  let ?p = "fst (MakeLeader ''b'' (add_peers [''b'', ''c''] (InitPeerRouting ''a'')))"
  have l: "only_leader ''b'' ((InitPeer ''b'' [])\<lparr>peer_role := LEADER\<rparr>) ?p" by code_simp
  have o: "range_order (rt_table ?p) [''b'', ''c'']" by code_simp
  from leader_lease [OF l o, of 20000000007 7] show ?thesis
    by (auto simp: Let_def split: prod.splits)
qed

text \<open>
  Making a second peer the leader does not take the role from the first: both entries are
  leaders, and which one \<open>GetLeaderAddr\<close> names depends on the order of the map visit.
\<close>

theorem MakeLeader_keeps_old_leader:
  assumes "routing_ok p" and "\<not> peer_IsLeader (rt_self p)" and "a \<noteq> b"
    and "IsPeer a p" and "IsPeer b p"
  shows "let p' = fst (MakeLeader b (fst (MakeLeader a p)))
    in \<forall>x \<in> {a, b}. \<exists>ks. range_order (rt_table p') ks \<and> GetLeaderAddr ks p' = (x, nil_error)"
proof -
  let ?p = "fst (MakeLeader b (fst (MakeLeader a p)))"
  from assms obtain va vb where "map_get (rt_table p) a = Some va" "map_get (rt_table p) b = Some vb"
    by (auto simp: IsPeer_def)
  with assms have lead: "\<exists>v. map_get (rt_table ?p) x = Some v \<and> peer_IsLeader v" if "x \<in> {a, b}" for x
    using that by (auto simp: MakeLeader_def peer_role_defs)
  have self: "\<not> peer_IsLeader (rt_self ?p)"
    using assms by (auto simp: MakeLeader_def IsPeer_def split: option.splits)
  have keys: "distinct (rt_peers ?p)"
    using assms(1) by (simp add: routing_simps routing_ok_def map_ok_def)
  have "\<exists>ks. range_order (rt_table ?p) ks \<and> GetLeaderAddr ks ?p = (x, nil_error)" if "x \<in> {a, b}" for x
  proof -
    from lead [OF that] obtain v where v: "map_get (rt_table ?p) x = Some v" "peer_IsLeader v" by blast
    let ?ks = "x # remove1 x (rt_peers ?p)"
    have "range_order (rt_table ?p) ?ks"
      using keys map_get_Some_key [OF v(1)] by (auto simp: range_order_def)
    moreover have "GetLeaderAddr ?ks ?p = (x, nil_error)"
      using self v by (simp add: GetLeaderAddr_def range_find_def)
    ultimately show ?thesis by blast
  qed
  then show ?thesis by (simp add: Let_def)
qed

theorem MakeLeader_keeps_old_leader_witness:
  "let p = add_peers [''b'', ''c''] (InitPeerRouting ''a'');
       p' = fst (MakeLeader ''c'' (fst (MakeLeader ''b'' p)))
   in \<exists>ks. range_order (rt_table p') ks \<and> GetLeaderAddr ks p' = (''b'', nil_error)"
proof -
  let ?p = "add_peers [''b'', ''c''] (InitPeerRouting ''a'')"
  have h: "routing_ok ?p" "\<not> peer_IsLeader (rt_self ?p)" "''b'' \<noteq> ''c''" "IsPeer ''b'' ?p" "IsPeer ''c'' ?p"
    by code_simp+
  from MakeLeader_keeps_old_leader [OF h] show ?thesis by (simp add: Let_def)
qed

section \<open>Types\<close>

text \<open>The arguments that are Go integers.\<close>

fun op_typed :: "routing_op \<Rightarrow> bool" where
  "op_typed (Op_RaiseTerm i) = is_goint i"
| "op_typed (Op_LowerTerm i) = is_goint i"
| "op_typed (Op_BecomeMember t) = is_goint t"
| "op_typed _ = True"

text \<open>The own term is a machine integer; the terms of the peers' entries are never written.\<close>

definition terms_typed :: "PeerRouting \<Rightarrow> bool" where
  "terms_typed p \<longleftrightarrow> is_goint (peer_term (rt_self p)) \<and> list_all (\<lambda>(_, v). peer_term v = 0) (rt_table p)"

lemma terms_typed_set:
  "terms_typed p \<Longrightarrow> peer_term v = 0 \<Longrightarrow> terms_typed (p\<lparr>rt_table := map_set k v (rt_table p)\<rparr>)"
  by (simp add: terms_typed_def list_all_map_set)

lemma terms_typed_get: "terms_typed p \<Longrightarrow> map_get (rt_table p) k = Some v \<Longrightarrow> peer_term v = 0"
  using list_all_get [of "\<lambda>_ v. peer_term v = 0" "rt_table p" k v] by (simp add: terms_typed_def)

lemma terms_typed_all:
  "terms_typed p \<Longrightarrow> (\<And>k v. peer_term (f k v) = peer_term v) \<Longrightarrow>
   terms_typed (p\<lparr>rt_table := map_all f (rt_table p)\<rparr>)"
  using list_all_map_all [of "\<lambda>_ v. peer_term v = 0" "rt_table p" f] by (auto simp: terms_typed_def)

lemma peer_GetTimeRemaining_term: "peer_term (fst (peer_GetTimeRemaining now v)) = peer_term v"
  by (simp add: peer_GetTimeRemaining_def peer_deactivatePeer_def Let_def)

lemma terms_typed_GetLeaderTimeout: "terms_typed p \<Longrightarrow> terms_typed (fst (GetLeaderTimeout now ks p))"
  using GetLeaderTimeout_fst_cases [of now ks p]
  by (auto simp: peer_GetTimeRemaining_term terms_typed_get intro!: terms_typed_set)

lemma terms_typed_role_all:
  "terms_typed p \<Longrightarrow> terms_typed (p\<lparr>rt_self := (rt_self p)\<lparr>peer_role := r\<rparr>,
     rt_table := map_all (\<lambda>_ peer. peer\<lparr>peer_role := r'\<rparr>) (rt_table p)\<rparr>)"
  using terms_typed_all [of p "\<lambda>_ peer. peer\<lparr>peer_role := r'\<rparr>"] by (simp add: terms_typed_def)

lemma routing_apply_typed:
  assumes "terms_typed p" "op_typed op"
  shows "terms_typed (routing_apply op p)"
proof (cases op)
  case (Op_AddPeer a c)
  with assms(1) show ?thesis by (auto simp: AddPeer_def routing_simps intro: terms_typed_set)
next
  case (Op_UpdateTTL a now)
  with assms(1) show ?thesis
    by (auto simp: UpdateTTL_def terms_typed_get intro: terms_typed_set split: option.splits)
next
  case (Op_MakeCandidate a)
  have "terms_typed (p\<lparr>rt_table := map_all (\<lambda>paddr peer.
      let peer1 = (if peer_IsCandidate peer \<and> paddr \<noteq> a then peer\<lparr>peer_role := MEMBER\<rparr> else peer)
      in if paddr = a then peer1\<lparr>peer_role := CANDIDATE\<rparr> else peer1) (rt_table p)\<rparr>)"
    using assms(1) by (rule terms_typed_all) (simp add: Let_def)
  with Op_MakeCandidate show ?thesis by (simp add: MakeCandidate_def Let_def terms_typed_def)
next
  case (Op_MakeLeader a)
  with assms(1) show ?thesis
    by (auto simp: MakeLeader_def terms_typed_get intro: terms_typed_set split: option.splits)
      (simp add: terms_typed_def)
next
  case (Op_GetLeaderTimeout now ks)
  with assms(1) show ?thesis by (simp add: terms_typed_GetLeaderTimeout)
next
  case (Op_CheckLeaderTimeout now ks)
  with assms(1) show ?thesis by (simp add: terms_typed_GetLeaderTimeout CheckLeaderTimeout_fst)
qed (use assms terms_typed_role_all [OF assms(1)] in \<open>simp_all add: BecomeLeader_def WipeLeader_def self_op_defs terms_typed_def add64_def sub64_def
    split: option.splits\<close>)

text \<open>C21:
  from the empty table, every sequence of routing operations with machine integers as
  arguments leaves a well-typed table: the peers are distinct, every entry is stored under
  its own address, the node's address is the one it was made with, its term is a 64-bit
  integer, and the term of a peer's entry is still zero (no operation writes it).
\<close>
theorem routing_table_typed:
  assumes "list_all op_typed ops"
  shows "let p = fold routing_apply ops (InitPeerRouting a)
    in distinct (rt_peers p) \<and> GetAddr p = a \<and> is_goint (GetTerm p) \<and>
       (\<forall>k v. map_get (rt_table p) k = Some v \<longrightarrow> peer_addr v = k \<and> peer_GetTerm v = 0)"
proof -
  let ?p = "fold routing_apply ops (InitPeerRouting a)"
  have "terms_typed (fold routing_apply ops q)" if "terms_typed q" for q
    using assms that by (induction ops arbitrary: q) (simp_all add: routing_apply_typed)
  moreover have "terms_typed (InitPeerRouting a)"
    by (simp add: terms_typed_def routing_simps is_goint_def)
  ultimately have t: "terms_typed ?p" by simp
  have ok: "routing_ok ?p" by (rule rm.run_ok [OF routing_ok_Init])
  moreover have "GetAddr ?p = a" unfolding rm.run_owner by (simp add: GetAddr_def routing_simps)
  moreover have "peer_addr v = k \<and> peer_GetTerm v = 0" if "map_get (rt_table ?p) k = Some v" for k v
    using routing_ok_get [OF ok that] terms_typed_get [OF t that] by (simp add: peer_GetTerm_def)
  ultimately show ?thesis
    using t unfolding Let_def routing_ok_def map_ok_def GetTerm_def terms_typed_def by blast
qed

theorem routing_table_typed_witness:
  "is_goint (GetTerm (fold routing_apply [Op_AddPeer ''b'' [], Op_RaiseTerm 9223372036854775807, Op_RaiseTerm 1]
     (InitPeerRouting ''a'')))"
proof -
  have "list_all op_typed [Op_AddPeer ''b'' [], Op_RaiseTerm 9223372036854775807, Op_RaiseTerm 1]"
    by (simp add: is_goint_def)
  from routing_table_typed [OF this] show ?thesis unfolding Let_def by blast
qed

end
