(* ===== verification/Raft_State.thy ===== *)
theory Raft_State
  imports Goroutine Raft_Rpc Raft_Membership
begin

text \<open>
  \<open>raft/raft.go\<close>, the RAFT object: its fields, the accessors that each take one of its
  locks, and the commit log. Every accessor comes in two forms: the function of the object
  that runs under the lock, and the goroutine step (name with prefix \<open>r_\<close>) that passes
  the result to the rest of the code. A call of a routing method, which the program makes
  without a lock, is one step too.

  The events of a node (\<open>raft_event\<close>) are what its goroutines do besides critical
  sections; the answers (\<open>raft_input\<close>) carry the clock, the order of a map visit, the
  outcome of a request, the replies a vote collected, and the case of a \<open>select\<close>.
  Log output is left out: it only reads the role and the term.
\<close>

section \<open>The object\<close>

text \<open>A channel field: \<open>nil\<close> or made.\<close>

datatype chan = NilChan | OpenChan

text \<open>
  \<open>raft_toCluster\<close> lists the commands of the goroutines that wait at the channel \<open>toCluster\<close> to
  send theirs, in the order they were started; \<open>raft_delivered\<close> are the commands the kube client
  has received, in that order. \<open>newLeaderCh\<close> is made by \<open>InitRaft\<close> and has no field here.
\<close>

record RAFT =
  raft_role :: RaftStatus
  raft_newTerm :: chan
  raft_term :: goint
  raft_peers :: PeerRouting
  raft_quorum :: goint
  raft_supportingCandidate :: string
  raft_commitLog :: "KubeCmd list"
  raft_toCluster :: "KubeCmd list"
  raft_delivered :: "KubeCmd list"
  raft_raftPort :: goint

text \<open>\<open>InitRaft\<close> sets no \<open>newTerm\<close>: the field keeps the zero value of a channel, \<open>nil\<close>.\<close>

definition InitRaft :: "string \<Rightarrow> goint \<Rightarrow> RAFT" where
  "InitRaft ip port =
     \<lparr>raft_role = MEMBER, raft_newTerm = NilChan, raft_term = 0,
      raft_peers = InitPeerRouting ip, raft_quorum = 0, raft_supportingCandidate = [],
      raft_commitLog = [], raft_toCluster = [], raft_delivered = [], raft_raftPort = port\<rparr>"

section \<open>Events and answers\<close>

text \<open>A received request: the packet and the channel its reply goes to.\<close>

record RPC =
  rpc_P :: "payload Packet"
  rpc_Done :: nat

definition GetPacket :: "RPC \<Rightarrow> payload Packet" where
  "GetPacket rpc = rpc_P rpc"

datatype raft_event =
    Ev_Now
  | Ev_Visit
  | Ev_Request string payload DataType
  | Ev_Notify string payload DataType
  | Ev_Gather "string list" payload DataType
  | Ev_Election "string list" payload DataType
  | Ev_Reply nat "payload Packet"
  | Ev_CloseDone nat
  | Ev_SendNewTerm
  | Ev_SendNewLeader string
  | Ev_Sleep
  | Ev_LeaderSelect
  | Ev_AwaitSelect duration

datatype raft_outcome = Send_failed | Timed_out | Answered payload

datatype raft_select = Sel_main | Sel_newTerm | Sel_newLeader string

record raft_input =
  in_now :: instant
  in_order :: "string list"
  in_outcome :: raft_outcome
  in_votes :: "payload list"
  in_select :: raft_select

definition input0 :: raft_input where
  "input0 = \<lparr>in_now = 0, in_order = [], in_outcome = Timed_out, in_votes = [], in_select = Sel_main\<rparr>"

text \<open>The heads of the loops of the main goroutine.\<close>

datatype raft_label = L_startRAFT | L_startLeader | L_awaitLeaderTTL duration

type_synonym rproc = "(RAFT, raft_event, raft_input, raft_label) goproc"

text \<open>
  Which answers can come: a map visit takes some order of the keys of the routing table, a
  vote gets at most one reply per goroutine that was started, and a \<open>select\<close> never takes
  the case of a \<open>nil\<close> channel.
\<close>

fun raft_env :: "RAFT \<Rightarrow> raft_event \<Rightarrow> raft_input \<Rightarrow> bool" where
  "raft_env s Ev_Visit i = range_order (rt_table (raft_peers s)) (in_order i)"
| "raft_env s (Ev_Gather to p dt) i = (length (in_votes i) \<le> length to)"
| "raft_env s (Ev_Election to p dt) i =
     (length (in_votes i) \<le> length to \<and>
      (in_select i = Sel_newTerm \<longrightarrow> raft_newTerm s \<noteq> NilChan))"
| "raft_env s Ev_LeaderSelect i =
     (case in_select i of
        Sel_main \<Rightarrow> True
      | Sel_newTerm \<Rightarrow> raft_newTerm s \<noteq> NilChan
      | Sel_newLeader _ \<Rightarrow> False)"
| "raft_env s (Ev_AwaitSelect d) i =
     (case in_select i of
        Sel_main \<Rightarrow> True
      | Sel_newTerm \<Rightarrow> raft_newTerm s \<noteq> NilChan
      | Sel_newLeader _ \<Rightarrow> False)"
| "raft_env s _ i = True"

section \<open>Accessors\<close>

definition getRole :: "RAFT \<Rightarrow> RaftStatus" where
  "getRole r = raft_role r"

definition RAFT_toString :: "RAFT \<Rightarrow> string" where
  "RAFT_toString r = RaftStatus_toString (getRole r)"

definition isSupportingCandidate :: "RAFT \<Rightarrow> bool" where
  "isSupportingCandidate r \<longleftrightarrow> raft_supportingCandidate r \<noteq> []"

definition changeRole :: "RaftStatus \<Rightarrow> RAFT \<Rightarrow> RAFT" where
  "changeRole newRole r = r\<lparr>raft_role := newRole\<rparr>"

definition isRole :: "RaftStatus \<Rightarrow> RAFT \<Rightarrow> bool" where
  "isRole compareRole r \<longleftrightarrow> raft_role r = compareRole"

definition updateRole :: "RaftStatus \<Rightarrow> RAFT \<Rightarrow> RAFT" where
  "updateRole newRole r = r\<lparr>raft_role := newRole\<rparr>"

definition getTerm :: "RAFT \<Rightarrow> goint" where
  "getTerm r = raft_term r"

definition updateTerm :: "goint \<Rightarrow> RAFT \<Rightarrow> RAFT" where
  "updateTerm newTerm r = r\<lparr>raft_term := newTerm\<rparr>"

text \<open>\<open>addCommit\<close> also starts the goroutine that sends the command to the kube client.\<close>

definition addCommit :: "KubeCmd \<Rightarrow> RAFT \<Rightarrow> RAFT" where
  "addCommit commitConfirmed r =
     r\<lparr>raft_commitLog :=
         (if raft_commitLog r = [] then [commitConfirmed] else raft_commitLog r @ [commitConfirmed]),
       raft_toCluster := raft_toCluster r @ [commitConfirmed]\<rparr>"

text \<open>
  The kube client receives from one of the goroutines that wait, the \<open>i\<close>-th: the channel is
  unbuffered, and any of them can be the one whose send goes through.
\<close>

definition deliverCommit :: "nat \<Rightarrow> RAFT \<Rightarrow> RAFT" where
  "deliverCommit i r =
     (if i < length (raft_toCluster r)
      then r\<lparr>raft_toCluster := take i (raft_toCluster r) @ drop (Suc i) (raft_toCluster r),
             raft_delivered := raft_delivered r @ [raft_toCluster r ! i]\<rparr>
      else r)"

definition getSliceLog :: "goint \<Rightarrow> RAFT \<Rightarrow> KubeCmd list checked" where
  "getSliceLog lastEntry r = slice_from (raft_commitLog r) lastEntry"

definition getLogItem :: "goint \<Rightarrow> RAFT \<Rightarrow> KubeCmd checked" where
  "getLogItem index r =
     (if index = 0 then Value KubeCmd0 else index_at (raft_commitLog r) (sub64 index 1))"

definition getLengthLog :: "RAFT \<Rightarrow> goint" where
  "getLengthLog r = fold (\<lambda>entry count. if entry \<noteq> KubeCmd0 then count + 1 else count) (raft_commitLog r) 0"

definition supportCandidate :: "string \<Rightarrow> RAFT \<Rightarrow> RAFT" where
  "supportCandidate addr r = r\<lparr>raft_supportingCandidate := addr\<rparr>"

definition stopSupport :: "RAFT \<Rightarrow> RAFT \<times> bool" where
  "stopSupport r = (r\<lparr>raft_supportingCandidate := []\<rparr>, raft_supportingCandidate r \<noteq> [])"

text \<open>\<open>printLog\<close>: the lines it prints, or the panic of an index past the log.\<close>

definition printLog :: "goint \<Rightarrow> RAFT \<Rightarrow> string list checked" where
  "printLog items r =
     (if items = 0 then Value [''EMPTY COMMIT LOG'']
      else fold (\<lambda>n out.
        case out of Panic \<Rightarrow> Panic
        | Value ls \<Rightarrow>
            (case getLogItem (int n) r of
               Panic \<Rightarrow> Panic
             | Value item \<Rightarrow>
                 Value (ls @ [''AT INDEX: ['' @ show_int (int n) @ ''/'' @ show_int items @ ''] '' @
                   KubeCmd_ToString item])))
        [0 ..< length (raft_commitLog r) + 1] (Value []))"

text \<open>A line of the log, and the lines of \<open>stats\<close> (which is not called).\<close>

definition roleLog :: "string \<Rightarrow> RAFT \<Rightarrow> string" where
  "roleLog msg r = ''['' @ RAFT_toString r @ '':'' @ show_int (getTerm r) @ ''] '' @ msg"

definition stats :: "RAFT \<Rightarrow> string list checked" where
  "stats r =
     (case printLog (getLengthLog r) r of
        Panic \<Rightarrow> Panic
      | Value ls \<Rightarrow>
          Value (''RAFT STATUS UPDATE:'' # roleLog (''COMMIT INDEX: '' @ show_int (getLengthLog r)) r # ls))"

section \<open>Accessors as steps of a goroutine\<close>

definition r_read :: "(RAFT \<Rightarrow> 'a) \<Rightarrow> ('a \<Rightarrow> rproc) \<Rightarrow> rproc" where
  "r_read f k = Atom id (\<lambda>r. k (f r))"

definition r_write :: "(RAFT \<Rightarrow> RAFT) \<Rightarrow> rproc \<Rightarrow> rproc" where
  "r_write u k = Atom u (\<lambda>_. k)"

abbreviation r_getRole :: "(RaftStatus \<Rightarrow> rproc) \<Rightarrow> rproc" where
  "r_getRole \<equiv> r_read getRole"

abbreviation r_isRole :: "RaftStatus \<Rightarrow> (bool \<Rightarrow> rproc) \<Rightarrow> rproc" where
  "r_isRole x \<equiv> r_read (isRole x)"

abbreviation r_changeRole :: "RaftStatus \<Rightarrow> rproc \<Rightarrow> rproc" where
  "r_changeRole x \<equiv> r_write (changeRole x)"

abbreviation r_getTerm :: "(goint \<Rightarrow> rproc) \<Rightarrow> rproc" where
  "r_getTerm \<equiv> r_read getTerm"

abbreviation r_updateTerm :: "goint \<Rightarrow> rproc \<Rightarrow> rproc" where
  "r_updateTerm t \<equiv> r_write (updateTerm t)"

abbreviation r_getLengthLog :: "(goint \<Rightarrow> rproc) \<Rightarrow> rproc" where
  "r_getLengthLog \<equiv> r_read getLengthLog"

abbreviation r_addCommit :: "KubeCmd \<Rightarrow> rproc \<Rightarrow> rproc" where
  "r_addCommit c \<equiv> r_write (addCommit c)"

definition r_getLogItem :: "goint \<Rightarrow> (KubeCmd \<Rightarrow> rproc) \<Rightarrow> rproc" where
  "r_getLogItem index k =
     r_read (getLogItem index) (\<lambda>res. case res of Panic \<Rightarrow> Crash | Value item \<Rightarrow> k item)"

section \<open>Routing calls as steps of a goroutine\<close>

definition r_IsPeer :: "string \<Rightarrow> (bool \<Rightarrow> rproc) \<Rightarrow> rproc" where
  "r_IsPeer addr k = r_read (\<lambda>r. IsPeer addr (raft_peers r)) k"

definition r_UpdateTTL :: "string \<Rightarrow> rproc \<Rightarrow> rproc" where
  "r_UpdateTTL addr k = Io Ev_Now (\<lambda>i.
     r_write (\<lambda>r. r\<lparr>raft_peers := fst (UpdateTTL addr (in_now i) (raft_peers r))\<rparr>) k)"

definition r_MakeLeader :: "string \<Rightarrow> rproc \<Rightarrow> rproc" where
  "r_MakeLeader addr k = r_write (\<lambda>r. r\<lparr>raft_peers := fst (MakeLeader addr (raft_peers r))\<rparr>) k"

definition r_WipeLeader :: "rproc \<Rightarrow> rproc" where
  "r_WipeLeader k = r_write (\<lambda>r. r\<lparr>raft_peers := WipeLeader (raft_peers r)\<rparr>) k"

definition r_GetAddr :: "(string \<Rightarrow> rproc) \<Rightarrow> rproc" where
  "r_GetAddr k = r_read (\<lambda>r. GetAddr (raft_peers r)) k"

definition r_GetPeersAddress :: "(string list \<Rightarrow> rproc) \<Rightarrow> rproc" where
  "r_GetPeersAddress k = Io Ev_Visit (\<lambda>i. r_read (\<lambda>r. GetPeersAddress (in_order i) (raft_peers r)) k)"

definition r_GetLeaderAddr :: "(string \<times> go_error \<Rightarrow> rproc) \<Rightarrow> rproc" where
  "r_GetLeaderAddr k = Io Ev_Visit (\<lambda>i. r_read (\<lambda>r. GetLeaderAddr (in_order i) (raft_peers r)) k)"

definition r_GetLeaderTimeout :: "(duration \<times> go_error \<Rightarrow> rproc) \<Rightarrow> rproc" where
  "r_GetLeaderTimeout k = Io Ev_Visit (\<lambda>i.
     Atom (\<lambda>r. r\<lparr>raft_peers := fst (GetLeaderTimeout (in_now i) (in_order i) (raft_peers r))\<rparr>)
       (\<lambda>r. k (snd (GetLeaderTimeout (in_now i) (in_order i) (raft_peers r)))))"

definition r_CheckLeaderTimeout :: "(bool \<times> duration \<times> go_error \<Rightarrow> rproc) \<Rightarrow> rproc" where
  "r_CheckLeaderTimeout k = Io Ev_Visit (\<lambda>i.
     Atom (\<lambda>r. r\<lparr>raft_peers := fst (CheckLeaderTimeout (in_now i) (in_order i) (raft_peers r))\<rparr>)
       (\<lambda>r. k (snd (CheckLeaderTimeout (in_now i) (in_order i) (raft_peers r)))))"

section \<open>Channel sends\<close>

text \<open>A send on a \<open>nil\<close> channel blocks for ever.\<close>

definition r_sendNewTerm :: "rproc \<Rightarrow> rproc" where
  "r_sendNewTerm k = Atom id (\<lambda>r. if raft_newTerm r = NilChan then Block else Io Ev_SendNewTerm (\<lambda>_. k))"

definition r_sendNewLeader :: "string \<Rightarrow> rproc \<Rightarrow> rproc" where
  "r_sendNewLeader addr k = Io (Ev_SendNewLeader addr) (\<lambda>_. k)"

section \<open>Lemmas\<close>

lemma getLengthLog_filter:
  "getLengthLog r = int (length (filter (\<lambda>entry. entry \<noteq> KubeCmd0) (raft_commitLog r)))"
proof -
  have "fold (\<lambda>entry count. if entry \<noteq> KubeCmd0 then count + 1 else count) xs n =
      n + int (length (filter (\<lambda>entry. entry \<noteq> KubeCmd0) xs))" for xs and n :: int
    by (induction xs arbitrary: n) auto
  then show ?thesis by (simp add: getLengthLog_def)
qed

text \<open>
  A proper command is not the zero command and survives transmission unchanged; a good log
  holds proper commands only.
\<close>

definition proper_cmd :: "KubeCmd \<Rightarrow> bool" where
  "proper_cmd c \<longleftrightarrow> c \<noteq> KubeCmd0 \<and> gob_cmd c = c"

definition log_ok :: "RAFT \<Rightarrow> bool" where
  "log_ok r \<longleftrightarrow> list_all proper_cmd (raft_commitLog r)"

lemma proper_cmd_pl: "pl_NewObject pl \<noteq> KubeCmd0 \<Longrightarrow> proper_cmd (pl_NewObject pl)"
  by (cases pl) (auto simp: proper_cmd_def)

lemma log_ok_nth: "log_ok r \<Longrightarrow> i < length (raft_commitLog r) \<Longrightarrow> proper_cmd (raft_commitLog r ! i)"
  by (simp add: log_ok_def list_all_length)

lemma getLengthLog_ok: "log_ok r \<Longrightarrow> getLengthLog r = int (length (raft_commitLog r))"
  unfolding getLengthLog_filter log_ok_def list_all_iff proper_cmd_def
  by (metis (mono_tags, lifting) filter_True)

lemma getLengthLog_nonneg [simp]: "0 \<le> getLengthLog r"
  by (simp add: getLengthLog_filter)

lemma commitLog_addCommit [raft_simps]: "raft_commitLog (addCommit c r) = raft_commitLog r @ [c]"
  by (simp add: addCommit_def)

lemma addCommit_fields [raft_simps]:
  "raft_toCluster (addCommit c r) = raft_toCluster r @ [c]"
  "raft_delivered (addCommit c r) = raft_delivered r"
  "raft_role (addCommit c r) = raft_role r" "raft_term (addCommit c r) = raft_term r"
  "raft_newTerm (addCommit c r) = raft_newTerm r" "raft_peers (addCommit c r) = raft_peers r"
  "raft_quorum (addCommit c r) = raft_quorum r" "raft_raftPort (addCommit c r) = raft_raftPort r"
  by (simp_all add: addCommit_def)

lemma deliverCommit_fields [raft_simps]:
  "raft_commitLog (deliverCommit i r) = raft_commitLog r"
  "raft_role (deliverCommit i r) = raft_role r" "raft_term (deliverCommit i r) = raft_term r"
  "raft_newTerm (deliverCommit i r) = raft_newTerm r" "raft_peers (deliverCommit i r) = raft_peers r"
  "raft_quorum (deliverCommit i r) = raft_quorum r"
  by (simp_all add: deliverCommit_def)

lemma role_term_fields [raft_simps]:
  "raft_delivered (changeRole x r) = raft_delivered r" "raft_delivered (updateTerm t r) = raft_delivered r"
  "raft_commitLog (changeRole x r) = raft_commitLog r" "raft_toCluster (changeRole x r) = raft_toCluster r"
  "raft_term (changeRole x r) = raft_term r" "raft_newTerm (changeRole x r) = raft_newTerm r"
  "raft_peers (changeRole x r) = raft_peers r" "raft_quorum (changeRole x r) = raft_quorum r"
  "raft_role (changeRole x r) = x"
  "raft_commitLog (updateTerm t r) = raft_commitLog r" "raft_toCluster (updateTerm t r) = raft_toCluster r"
  "raft_role (updateTerm t r) = raft_role r" "raft_newTerm (updateTerm t r) = raft_newTerm r"
  "raft_peers (updateTerm t r) = raft_peers r" "raft_quorum (updateTerm t r) = raft_quorum r"
  "raft_term (updateTerm t r) = t"
  by (simp_all add: changeRole_def updateTerm_def)

lemma getLengthLog_cong: "raft_commitLog r = raft_commitLog r' \<Longrightarrow> getLengthLog r = getLengthLog r'"
  by (simp add: getLengthLog_filter)

lemma getLengthLog_fields [raft_simps]:
  "getLengthLog (changeRole x r) = getLengthLog r" "getLengthLog (updateTerm t r) = getLengthLog r"
  "getLengthLog (r\<lparr>raft_peers := p\<rparr>) = getLengthLog r"
  by (rule getLengthLog_cong, simp add: raft_simps)+

lemma getLengthLog_addCommit [raft_simps]:
  "c \<noteq> KubeCmd0 \<Longrightarrow> getLengthLog (addCommit c r) = getLengthLog r + 1"
  by (simp add: getLengthLog_filter raft_simps)

lemma log_ok_fields [raft_simps]:
  "log_ok (changeRole x r) = log_ok r" "log_ok (updateTerm t r) = log_ok r"
  "log_ok (r\<lparr>raft_peers := p\<rparr>) = log_ok r"
  "log_ok (addCommit c r) \<longleftrightarrow> log_ok r \<and> proper_cmd c"
  by (auto simp: log_ok_def raft_simps)

end
