(* ===== verification/Raft_Handler.thy ===== *)
theory Raft_Handler
  imports Raft_State
begin

text \<open>
  \<open>raft/raft.go\<close>, replication and the request handler: the requests a node sends, the vote
  on a new object, \<open>commitObject\<close>, the catch-up of a missing log and \<open>handleRpc\<close> with its
  three kinds of request. Each function of the source is a goroutine in continuation-passing
  style; every read of the role, the term or the log length is a step of its own, in the
  order the code evaluates them, short-circuit operators included.
\<close>

section \<open>Replies\<close>

text \<open>The reply is written by a goroutine of its own, so the handler goes on at once.\<close>

definition r_sendEncodedReply :: "string \<Rightarrow> payload \<Rightarrow> DataType \<Rightarrow> nat \<Rightarrow> rproc \<Rightarrow> rproc" where
  "r_sendEncodedReply targetAddr pl dt ch k =
     r_read raft_raftPort (\<lambda>port.
       Io (Ev_Reply ch (NewPacket (Some \<lparr>tcp_IP = targetAddr, tcp_Port = port\<rparr>) pl dt)) (\<lambda>_. k))"

definition r_sendReplyObjectCommited :: "nat \<Rightarrow> bool \<Rightarrow> rproc \<Rightarrow> rproc" where
  "r_sendReplyObjectCommited replyChan status k =
     r_GetLeaderAddr (\<lambda>(leaderAddr, err).
     r_getTerm (\<lambda>t. r_getLengthLog (\<lambda>n.
       r_sendEncodedReply leaderAddr
         (PL_AppendEntryResponse \<lparr>ar_Term = t, ar_LeaderAddr = leaderAddr, ar_LogIndex = n,
            ar_Confirmed = status\<rparr>) REQUEST_VOTE replyChan k)))"

text \<open>The \<open>status\<close> argument is not used: \<open>Agreed\<close> is always true.\<close>

definition r_sendReplyLeaderVote :: "nat \<Rightarrow> bool \<Rightarrow> rproc \<Rightarrow> rproc" where
  "r_sendReplyLeaderVote replyChan status k =
     r_GetLeaderAddr (\<lambda>(leaderAddr, err).
     r_getTerm (\<lambda>t.
       r_sendEncodedReply leaderAddr
         (PL_RequestVote \<lparr>rv_Term = t, rv_CandidateAddr = leaderAddr, rv_LogIndex = 0,
            rv_Agreed = True\<rparr>) REQUEST_VOTE replyChan k))"

definition r_respondFetchMissingEntries :: "nat \<Rightarrow> KubeCmd \<Rightarrow> goint \<Rightarrow> string \<Rightarrow> rproc \<Rightarrow> rproc" where
  "r_respondFetchMissingEntries replyChan obj index laddr k =
     r_sendEncodedReply laddr
       (PL_FetchMissingEntries \<lparr>fm_Term = 0, fm_LeaderAddr = [], fm_LogIndex = index,
          fm_NewObject = obj\<rparr>) FETCH_MISSING_ENTRIES replyChan k"

section \<open>The vote on a new object\<close>

text \<open>
  The collecting loop of \<open>requestAddObject\<close>: the replies that arrive, each within five
  seconds of the one before; the end of the list is the time-out. The quorum is looked at
  after every reply, never before the first.
\<close>

fun collect_confirms :: "goint \<Rightarrow> goint \<Rightarrow> payload list \<Rightarrow> bool" where
  "collect_confirms quorum numVotes [] = False"
| "collect_confirms quorum numVotes (pack # packs) =
     (let reply = fst (decodePayload_AppendEntryResponse pack);
          numVotes' = (if ar_Confirmed reply then numVotes + 1 else numVotes)
      in if numVotes' \<ge> quorum then True else collect_confirms quorum numVotes' packs)"

abbreviation nonempty_addrs :: "string list \<Rightarrow> string list" where
  "nonempty_addrs members \<equiv> filter (\<lambda>pr. pr \<noteq> []) members"

definition r_requestAddObject :: "KubeCmd \<Rightarrow> (bool \<Rightarrow> rproc) \<Rightarrow> rproc" where
  "r_requestAddObject obj k =
     r_GetPeersAddress (\<lambda>members. r_GetAddr (\<lambda>selfAddr. r_getLengthLog (\<lambda>logIndex.
     r_getTerm (\<lambda>newTerm. r_read raft_quorum (\<lambda>quorum.
       Io (Ev_Gather (nonempty_addrs members)
             (PL_AppendEntry \<lparr>ae_Term = newTerm, ae_LeaderAddr = selfAddr, ae_LogIndex = logIndex,
                ae_NewObject = obj, ae_Confirmed = False\<rparr>) APPEND_ENTRY)
         (\<lambda>i. k (collect_confirms quorum 0 (in_votes i))))))))"

definition r_sendLeaderWrite :: "goint \<Rightarrow> goint \<Rightarrow> string \<Rightarrow> KubeCmd \<Rightarrow> (raft_outcome \<Rightarrow> rproc) \<Rightarrow> rproc" where
  "r_sendLeaderWrite t logIndex ladr newEntry k =
     Io (Ev_Request ladr
           (PL_AppendEntry \<lparr>ae_Term = t, ae_LeaderAddr = ladr, ae_LogIndex = logIndex,
              ae_NewObject = newEntry, ae_Confirmed = False\<rparr>) APPEND_ENTRY)
       (\<lambda>i. k (in_outcome i))"

definition r_commitObject :: "KubeCmd \<Rightarrow> (bool \<Rightarrow> rproc) \<Rightarrow> rproc" where
  "r_commitObject obj k =
     r_isRole LEADER (\<lambda>leader.
       if leader then
         r_requestAddObject obj (\<lambda>quorum. if quorum then r_addCommit obj (k True) else k False)
       else r_isRole CANDIDATE (\<lambda>candidate.
         if candidate then k False
         else
           r_GetLeaderTimeout (\<lambda>(ttl, leaderError).
             if leaderError \<noteq> nil_error then k False
             else r_GetLeaderAddr (\<lambda>(ladr, err).
               r_getTerm (\<lambda>t. r_getLengthLog (\<lambda>n.
                 r_sendLeaderWrite t n ladr obj (\<lambda>resp.
                   case resp of
                     Send_failed \<Rightarrow> k False
                   | Timed_out \<Rightarrow> k False
                   | Answered packet \<Rightarrow>
                       if \<not> ar_Confirmed (fst (decodePayload_AppendEntryResponse packet)) then k False
                       else r_addCommit obj (k True))))))))"

section \<open>Catching up\<close>

definition r_sendFetchObjectAtIndex :: "goint \<Rightarrow> goint \<Rightarrow> string \<Rightarrow> (raft_outcome \<Rightarrow> rproc) \<Rightarrow> rproc" where
  "r_sendFetchObjectAtIndex t index laddr k =
     Io (Ev_Request laddr
           (PL_FetchMissingEntries \<lparr>fm_Term = t, fm_LeaderAddr = laddr, fm_LogIndex = index,
              fm_NewObject = KubeCmd0\<rparr>) FETCH_MISSING_ENTRIES)
       (\<lambda>i. k (in_outcome i))"

text \<open>The loop over the missing entries: as many rounds as entries were missing at its start.\<close>

fun r_fetchLoop :: "nat \<Rightarrow> goint \<Rightarrow> string \<Rightarrow> rproc \<Rightarrow> rproc" where
  "r_fetchLoop 0 t ladr k = k"
| "r_fetchLoop (Suc n) t ladr k =
     r_getLengthLog (\<lambda>len.
       let fetchIndex = add64 len 1
       in r_sendFetchObjectAtIndex t fetchIndex ladr (\<lambda>resp.
         case resp of
           Send_failed \<Rightarrow> Return
         | Timed_out \<Rightarrow> Return
         | Answered packet \<Rightarrow>
             let data = fst (decodePayload_FetchMissingEntries packet)
             in if fm_NewObject data = KubeCmd0 \<or> fm_LogIndex data \<noteq> fetchIndex then Return
                else r_addCommit (fm_NewObject data) (r_fetchLoop n t ladr k)))"

definition r_catchUp :: "nat \<Rightarrow> AppendEntry \<Rightarrow> rproc" where
  "r_catchUp done data =
     r_getLengthLog (\<lambda>len.
       let latestLogsToFetch = sub64 (ae_LogIndex data) len
       in r_GetLeaderAddr (\<lambda>(ladr, err). r_getTerm (\<lambda>t.
         r_fetchLoop (nat latestLogsToFetch) t ladr (r_sendReplyObjectCommited done True Return))))"

section \<open>The three requests\<close>

definition handle_REQUEST_VOTE :: "nat \<Rightarrow> RequestVote \<Rightarrow> rproc" where
  "handle_REQUEST_VOTE done data =
     r_getTerm (\<lambda>t1.
       if rv_Term data > t1 then
         r_updateTerm (rv_Term data) (r_changeRole MEMBER (r_getLengthLog (\<lambda>n1.
           if rv_LogIndex data < n1 then
             r_WipeLeader (Io (Ev_CloseDone done) (\<lambda>_. r_sendNewTerm Return))
           else r_getLengthLog (\<lambda>n2.
             if rv_LogIndex data \<ge> n2 then
               r_MakeLeader (rv_CandidateAddr data)
                 (r_sendReplyLeaderVote done True (r_sendNewTerm Return))
             else r_sendNewTerm Return))))
       else r_getTerm (\<lambda>t2.
         if rv_Term data = t2 then
           r_getLengthLog (\<lambda>n.
             if rv_LogIndex data > n then
               r_MakeLeader (rv_CandidateAddr data)
                 (r_isRole CANDIDATE (\<lambda>candidate.
                    if candidate
                    then r_sendNewLeader (rv_CandidateAddr data) (r_sendReplyLeaderVote done True Return)
                    else r_sendReplyLeaderVote done True Return))
             else Return)
         else Return))"

text \<open>The last \<open>else\<close> of the source: neither a candidate behind the sender nor a newer term.\<close>

definition handle_APPEND_ENTRY_current :: "nat \<Rightarrow> AppendEntry \<Rightarrow> bool \<Rightarrow> rproc" where
  "handle_APPEND_ENTRY_current done data objectNil =
     r_isRole LEADER (\<lambda>leader.
       if leader \<and> \<not> objectNil then
         r_getLengthLog (\<lambda>n.
           if ae_LogIndex data = n then
             r_commitObject (ae_NewObject data) (\<lambda>added.
               if added then r_sendReplyObjectCommited done added Return else Return)
           else r_sendReplyObjectCommited done False Return)
       else
         r_getLengthLog (\<lambda>n1.
           if n1 = ae_LogIndex data \<and> objectNil then Return
           else r_getLengthLog (\<lambda>n2.
             if n2 = ae_LogIndex data then r_sendReplyObjectCommited done True Return
             else r_catchUp done data)))"

definition handle_APPEND_ENTRY_rest :: "nat \<Rightarrow> AppendEntry \<Rightarrow> bool \<Rightarrow> rproc" where
  "handle_APPEND_ENTRY_rest done data objectNil =
     r_getTerm (\<lambda>t.
       if ae_Term data > t then r_updateTerm (ae_Term data) (r_sendNewTerm Return)
       else handle_APPEND_ENTRY_current done data objectNil)"

definition handle_APPEND_ENTRY :: "nat \<Rightarrow> AppendEntry \<Rightarrow> rproc" where
  "handle_APPEND_ENTRY done data =
     (let objectNil = (ae_NewObject data = KubeCmd0);
          rest = handle_APPEND_ENTRY_rest done data objectNil
      in r_getTerm (\<lambda>t.
        if ae_Term data \<ge> t then
          r_getLengthLog (\<lambda>n.
            if ae_LogIndex data > n then
              r_isRole CANDIDATE (\<lambda>candidate.
                if candidate then
                  r_updateTerm (ae_Term data)
                    (r_MakeLeader (ae_LeaderAddr data) (r_sendNewLeader (ae_LeaderAddr data) Return))
                else rest)
            else rest)
        else rest))"

definition handle_FETCH_MISSING_ENTRIES :: "nat \<Rightarrow> FetchMissingEntries \<Rightarrow> rproc" where
  "handle_FETCH_MISSING_ENTRIES done data =
     r_getTerm (\<lambda>t1.
       if fm_Term data > t1 then Return
       else r_isRole LEADER (\<lambda>leader.
         if leader then
           r_getTerm (\<lambda>t2.
             if fm_Term data \<le> t2 then
               r_getLengthLog (\<lambda>n.
                 if fm_LogIndex data \<le> n then
                   r_getLogItem (fm_LogIndex data) (\<lambda>requestedObject.
                     r_respondFetchMissingEntries done requestedObject (fm_LogIndex data)
                       (fm_LeaderAddr data) Return)
                 else Return)
             else Return)
         else Return))"

section \<open>handleRpc\<close>

text \<open>A packet without a caller (the zero packet of a failed decoding) is a \<open>nil\<close> dereference.\<close>

definition handleRpc :: "RPC \<Rightarrow> rproc" where
  "handleRpc rpc =
     (let rp = GetPacket rpc
      in case pk_Caller rp of
           None \<Rightarrow> Crash
         | Some caller \<Rightarrow>
             let callerAddrs = tcp_IP caller
             in r_IsPeer callerAddrs (\<lambda>known.
                  if \<not> known then Return
                  else r_UpdateTTL callerAddrs
                    (if pk_Type rp = REQUEST_VOTE
                     then handle_REQUEST_VOTE (rpc_Done rpc) (fst (decodePayload_RequestVote (pk_Data rp)))
                     else if pk_Type rp = APPEND_ENTRY
                     then handle_APPEND_ENTRY (rpc_Done rpc) (fst (decodePayload_AppendEntry (pk_Data rp)))
                     else if pk_Type rp = FETCH_MISSING_ENTRIES
                     then handle_FETCH_MISSING_ENTRIES (rpc_Done rpc)
                       (fst (decodePayload_FetchMissingEntries (pk_Data rp)))
                     else Return)))"

text \<open>The goroutine that \<open>Start\<close> starts for a command of the command line.\<close>

definition handleCli :: "KubeCmd \<Rightarrow> rproc" where
  "handleCli incCommit = r_commitObject incCommit (\<lambda>status. Return)"

end
