(* ===== verification/Raft_Election.thy ===== *)
theory Raft_Election
  imports Raft_Handler
begin

text \<open>
  \<open>raft/raft.go\<close>, the main goroutine: watching the leader, standing for election, leading.
  The loops are labels (\<open>raft_label\<close>); \<open>raft_code\<close> gives the body behind each.
\<close>

section \<open>Standing for election\<close>

text \<open>
  The collecting loop of \<open>requestLeaderVotes\<close>: every reply counts as a vote, its content
  is not looked at. The end of the list is the time-out.
\<close>

fun collect_votes :: "goint \<Rightarrow> goint \<Rightarrow> payload list \<Rightarrow> bool" where
  "collect_votes quorum numVotes [] = False"
| "collect_votes quorum numVotes (_ # packs) =
     (let numVotes' = numVotes + 1
      in if numVotes' \<ge> quorum then True else collect_votes quorum numVotes' packs)"

text \<open>
  \<open>requestLeaderVotes\<close> and the \<open>select\<close> that waits for its result. The answer names the
  case that was taken and, for the election result, the replies that led to it.
\<close>

definition r_requestLeaderVotes :: "goint \<Rightarrow> (goint \<Rightarrow> raft_input \<Rightarrow> rproc) \<Rightarrow> rproc" where
  "r_requestLeaderVotes newTerm k =
     r_GetPeersAddress (\<lambda>members. r_GetAddr (\<lambda>selfAddr. r_getLengthLog (\<lambda>logIndex.
     r_read raft_quorum (\<lambda>quorum.
       Io (Ev_Election (nonempty_addrs members)
             (PL_RequestVote \<lparr>rv_Term = newTerm, rv_CandidateAddr = selfAddr, rv_LogIndex = logIndex,
                rv_Agreed = False\<rparr>) REQUEST_VOTE)
         (\<lambda>i. k quorum i)))))"

section \<open>Watching and leading\<close>

text \<open>\<open>watchLeader\<close> returns at once without a valid leader; the caller then turns candidate.\<close>

definition r_afterWatch :: rproc where
  "r_afterWatch = r_changeRole CANDIDATE (Goto L_startRAFT)"

definition r_watchLeader :: rproc where
  "r_watchLeader =
     r_GetLeaderTimeout (\<lambda>(leaderTTL, err).
       if err \<noteq> nil_error then r_afterWatch else Goto (L_awaitLeaderTTL leaderTTL))"

definition r_awaitLeaderTTL :: "duration \<Rightarrow> rproc" where
  "r_awaitLeaderTTL heartbeatTimeout =
     Io (Ev_AwaitSelect heartbeatTimeout) (\<lambda>i.
       case in_select i of
         Sel_newTerm \<Rightarrow> r_afterWatch
       | _ \<Rightarrow>
         r_CheckLeaderTimeout (\<lambda>(timeout, nextHeartbeatTimeout, err).
           if err \<noteq> nil_error \<or> timeout then r_afterWatch
           else Goto (L_awaitLeaderTTL nextHeartbeatTimeout)))"

fun r_notifyAll :: "string list \<Rightarrow> payload \<Rightarrow> rproc \<Rightarrow> rproc" where
  "r_notifyAll [] pl k = k"
| "r_notifyAll (peer # peers) pl k =
     (if peer = [] then r_notifyAll peers pl k
      else Io (Ev_Notify peer pl APPEND_ENTRY) (\<lambda>_. r_notifyAll peers pl k))"

definition r_sendLogUpdates :: "goint \<Rightarrow> goint \<Rightarrow> rproc \<Rightarrow> rproc" where
  "r_sendLogUpdates t logIndex k =
     r_GetAddr (\<lambda>selfAddr. r_GetPeersAddress (\<lambda>members.
       r_notifyAll members
         (PL_AppendEntry \<lparr>ae_Term = t, ae_LeaderAddr = selfAddr, ae_LogIndex = logIndex,
            ae_NewObject = KubeCmd0, ae_Confirmed = False\<rparr>) k))"

definition r_startLeader :: rproc where
  "r_startLeader =
     Io Ev_LeaderSelect (\<lambda>i.
       case in_select i of
         Sel_newTerm \<Rightarrow> r_changeRole MEMBER (Goto L_startRAFT)
       | _ \<Rightarrow>
         r_isRole LEADER (\<lambda>leader.
           if \<not> leader then Goto L_startRAFT
           else r_getTerm (\<lambda>t. r_getLengthLog (\<lambda>n. r_sendLogUpdates t n (Goto L_startLeader)))))"

section \<open>The main loop\<close>

definition r_candidateTurn :: rproc where
  "r_candidateTurn =
     r_getTerm (\<lambda>t.
       let newTerm = add64 t 1
       in r_updateTerm newTerm (r_requestLeaderVotes newTerm (\<lambda>quorum i.
         case in_select i of
           Sel_main \<Rightarrow>
             if collect_votes quorum 0 (in_votes i)
             then r_changeRole LEADER (Goto L_startRAFT)
             else Goto L_startRAFT
         | Sel_newLeader _ \<Rightarrow> r_changeRole MEMBER (Io Ev_Sleep (\<lambda>_. Goto L_startRAFT))
         | Sel_newTerm \<Rightarrow>
             r_MakeLeader [] (r_changeRole MEMBER (Io Ev_Sleep (\<lambda>_. Goto L_startRAFT))))))"

definition r_mainTurn :: rproc where
  "r_mainTurn =
     r_getRole (\<lambda>role. case role of
       LEADER \<Rightarrow> Goto L_startLeader
     | CANDIDATE \<Rightarrow> r_candidateTurn
     | MEMBER \<Rightarrow> r_watchLeader)"

fun raft_code :: "raft_label \<Rightarrow> rproc" where
  "raft_code L_startRAFT = r_mainTurn"
| "raft_code L_startLeader = r_startLeader"
| "raft_code (L_awaitLeaderTTL d) = r_awaitLeaderTTL d"

text \<open>\<open>startRAFT\<close> locks the routing table, stores the quorum and enters the loop.\<close>

definition startRAFT :: rproc where
  "startRAFT =
     r_write (\<lambda>r. r\<lparr>raft_quorum := snd (LockRoutingTableEntries (raft_peers r)),
                    raft_peers := fst (LockRoutingTableEntries (raft_peers r))\<rparr>)
       (Goto L_startRAFT)"

section \<open>A node\<close>

text \<open>
  \<open>RAFT.Start\<close>: the peers are entered, the main goroutine starts, and from then on any
  received request and any command of the command line starts a goroutine, and the kube
  client may receive a committed command that waits for it.
\<close>

definition raft_boot :: "string \<Rightarrow> goint \<Rightarrow> string list \<Rightarrow> RAFT" where
  "raft_boot ip port peers =
     (InitRaft ip port)\<lparr>raft_peers := add_peers peers (raft_peers (InitRaft ip port))\<rparr>"

inductive raft_starts :: "rproc \<Rightarrow> bool" where
  rpc: "raft_starts (handleRpc rpc)"
| cli: "proper_cmd cmd \<Longrightarrow> raft_starts (handleCli cmd)"
| deliver: "raft_starts (r_write (deliverCommit i) Return)"

type_synonym raft_node = "(RAFT, raft_event, raft_input, raft_label) node"

definition raft_init :: "string \<Rightarrow> goint \<Rightarrow> string list \<Rightarrow> raft_node" where
  "raft_init ip port peers = (raft_boot ip port peers, [startRAFT])"

abbreviation raft_step :: "raft_node \<Rightarrow> raft_node \<Rightarrow> bool" where
  "raft_step \<equiv> node_step raft_code raft_env raft_starts"

abbreviation raft_steps :: "raft_node \<Rightarrow> raft_node \<Rightarrow> bool" where
  "raft_steps \<equiv> node_steps raft_code raft_env raft_starts"

end
