(* ===== verification/Raft_Quorum.thy ===== *)
theory Raft_Quorum
  imports Raft_Membership
begin

text \<open>
  The quorum a node computes when it locks its table, and why it is a majority. A cluster
  is the list of the addresses its nodes are started with; a node at \<open>a\<close> is given the
  others as its peers. The votes that are counted are those of the others; a candidate
  supports itself silently.
\<close>

section \<open>The contract of a quorum\<close>

locale quorum_system =
  fixes members :: "'c \<Rightarrow> 'n set"
    and quorum :: "'c \<Rightarrow> 'n \<Rightarrow> 'n set \<Rightarrow> bool"
  assumes finite_members: "finite (members c)"
    and quorum_others: "quorum c a V \<Longrightarrow> V \<subseteq> members c - {a}"
    and quorum_majority:
      "a \<in> members c \<Longrightarrow> quorum c a V \<Longrightarrow> card (members c) < 2 * card (insert a V)"
begin

lemma intersect:
  assumes "a \<in> members c" and "b \<in> members c" and "quorum c a V" and "quorum c b W"
  shows "insert a V \<inter> insert b W \<noteq> {}"
proof
  assume disj: "insert a V \<inter> insert b W = {}"
  have sub: "insert a V \<union> insert b W \<subseteq> members c"
    using assms quorum_others by blast
  then have fin: "finite (insert a V)" "finite (insert b W)"
    using finite_members [of c] by (metis finite_Un rev_finite_subset)+
  have "card (insert a V) + card (insert b W) = card (insert a V \<union> insert b W)"
    by (rule card_Un_disjoint [OF fin disj, symmetric])
  also have "\<dots> \<le> card (members c)"
    using sub finite_members by (rule card_mono [rotated])
  finally show False
    using quorum_majority [OF assms(1,3)] quorum_majority [OF assms(2,4)] by simp
qed

text \<open>Two candidates that both win were supported by a common third node, or voted for each other.\<close>

lemma common_voter:
  assumes "a \<in> members c" and "b \<in> members c" and "quorum c a V" and "quorum c b W" and "a \<noteq> b"
  shows "(\<exists>x. x \<in> V \<and> x \<in> W) \<or> a \<in> W \<or> b \<in> V"
  using intersect [OF assms(1-4)] assms(5) by blast

end

section \<open>The quorum of the program\<close>

definition node_routing :: "string list \<Rightarrow> string \<Rightarrow> PeerRouting" where
  "node_routing c a = add_peers (removeAll a c) (InitPeerRouting a)"

definition node_quorum :: "string list \<Rightarrow> string \<Rightarrow> goint" where
  "node_quorum c a = snd (LockRoutingTableEntries (node_routing c a))"

definition vote_quorum :: "string list \<Rightarrow> string \<Rightarrow> string set \<Rightarrow> bool" where
  "vote_quorum c a V \<longleftrightarrow> V \<subseteq> set c - {a} \<and> node_quorum c a \<le> int (card V)"

lemma node_routing_len:
  assumes "a \<in> set c"
  shows "map_len (rt_table (node_routing c a)) + 1 = int (card (set c))"
proof -
  have "map_len (rt_table (node_routing c a)) = int (card (set c - {a}))"
    using start_routing_facts [of "removeAll a c" a]
    by (simp add: node_routing_def routing_ok_def map_len_card)
  moreover have "card (set c - {a}) + 1 = card (set c)"
    using assms by (metis List.finite_set Suc_eq_plus1 card_Suc_Diff1)
  ultimately show ?thesis by simp
qed

lemma node_quorum_half: "a \<in> set c \<Longrightarrow> node_quorum c a = int (card (set c) div 2)"
  by (simp add: node_quorum_def LockRoutingTableEntries_def node_routing_len zdiv_int)

interpretation rq: quorum_system set vote_quorum
proof unfold_locales
  fix c :: "string list" and a V
  assume a: "a \<in> set c" and q: "vote_quorum c a V"
  then have "finite V" and "a \<notin> V" and "card (set c) div 2 \<le> card V"
    by (auto simp: vote_quorum_def node_quorum_half intro: finite_subset)
  then show "card (set c) < 2 * card (insert a V)" by simp
qed (auto simp: vote_quorum_def)

section \<open>Properties\<close>

text \<open>C19:
  the quorum a node reads off its locked table is half the cluster, rounded down; together
  with its own support that many votes are a strict majority, and one vote less is not.
\<close>

theorem quorum_is_majority:
  assumes "a \<in> set c"
  shows "int (card (set c)) < 2 * (node_quorum c a + 1) \<and> 2 * node_quorum c a \<le> int (card (set c))"
proof -
  have "n < 2 * (n div 2 + 1) \<and> 2 * (n div 2) \<le> n" for n :: nat by presburger
  from this [of "card (set c)"] show ?thesis by (simp add: node_quorum_half [OF assms] flip: of_nat_mult)
qed

theorem quorum_is_majority_witness:
  "(3 :: int) < 2 * (node_quorum [''a'', ''b'', ''c''] ''a'' + 1) \<and>
   node_quorum [''a'', ''b'', ''c''] ''a'' = 1"
proof -
  have a: "''a'' \<in> set [''a'', ''b'', ''c'']" by simp
  have "node_quorum [''a'', ''b'', ''c''] ''a'' = 1" by code_simp
  with quorum_is_majority [OF a] show ?thesis by simp
qed

text \<open>
  If two different nodes of a cluster each collect a quorum of votes, some node supported
  both: a third node voted for both, or one of the two voted for the other.
\<close>

theorem winning_quorums_share_a_voter:
  assumes "a \<in> set c" and "b \<in> set c" and "a \<noteq> b"
    and "vote_quorum c a V" and "vote_quorum c b W"
  shows "(\<exists>x. x \<in> V \<and> x \<in> W) \<or> a \<in> W \<or> b \<in> V"
  by (rule rq.common_voter [OF assms(1,2,4,5,3)])

theorem winning_quorums_share_a_voter_witness:
  "vote_quorum [''a'', ''b'', ''c''] ''a'' {''c''} \<and> vote_quorum [''a'', ''b'', ''c''] ''b'' {''c''} \<and>
   ((\<exists>x. x \<in> {''c''} \<and> x \<in> {''c''}) \<or> ''a'' \<in> {''c''} \<or> ''b'' \<in> {''c''})"
proof -
  let ?c = "[''a'', ''b'', ''c'']"
  have n: "node_quorum ?c ''a'' = 1" "node_quorum ?c ''b'' = 1" by code_simp+
  have h: "''a'' \<in> set ?c" "''b'' \<in> set ?c" "''a'' \<noteq> ''b''"
    "vote_quorum ?c ''a'' {''c''}" "vote_quorum ?c ''b'' {''c''}"
    by (simp_all add: vote_quorum_def n)
  from winning_quorums_share_a_voter [OF h] h show ?thesis by simp
qed

end
