(* ===== verification/Raft_Invariants.thy ===== *)
theory Raft_Invariants
  imports Raft_Election Raft_Quorum "HOL-Library.Sublist" "HOL-Library.Multiset"
begin

text \<open>
  What holds of a node in every interleaving of its handlers, of the commands of the
  command line and of its main goroutine, whatever the network and the scheduler do. The
  contract \<open>goroutine_pool\<close> is instantiated with the code of the node; each function of
  the source is shown to keep the invariant once, by the collection \<open>keep_intros\<close>.

  The invariant has three parameters: the peers \<open>P\<close> of the node, the commands \<open>T\<close> that
  requests, answers and the command line bring in, and the reply channels \<open>CH\<close> of the
  requests. With everything for the last two this is a node on its own; a cluster
  (\<open>Raft_Cluster\<close>) chooses them.
\<close>

section \<open>The invariant\<close>

definition quorum_ok :: "RAFT \<Rightarrow> bool" where
  "quorum_ok r \<longleftrightarrow>
     (if rt_active (raft_peers r) then raft_quorum r = (map_len (rt_table (raft_peers r)) + 1) div 2
      else raft_quorum r = 0)"

text \<open>Without an address to ask, no leader.\<close>

definition raft_inv :: "string set \<Rightarrow> KubeCmd set \<Rightarrow> RAFT \<Rightarrow> bool" where
  "raft_inv P T r \<longleftrightarrow> log_ok r \<and> set (raft_commitLog r) \<subseteq> T \<and> raft_newTerm r = NilChan \<and>
     mset (raft_delivered r) + mset (raft_toCluster r) = mset (raft_commitLog r) \<and>
     routing_ok (raft_peers r) \<and> quorum_ok r \<and> set (rt_peers (raft_peers r)) = P \<and>
     (P \<subseteq> {[]} \<longrightarrow> raft_role r \<noteq> LEADER)"

text \<open>The log only grows; peers and own address stay; a locked table stays locked.\<close>

definition raft_guar :: "RAFT \<Rightarrow> RAFT \<Rightarrow> bool" where
  "raft_guar r r' \<longleftrightarrow> prefix (raft_commitLog r) (raft_commitLog r') \<and>
     rt_peers (raft_peers r') = rt_peers (raft_peers r) \<and>
     GetAddr (raft_peers r') = GetAddr (raft_peers r) \<and>
     (rt_active (raft_peers r) \<longrightarrow> rt_active (raft_peers r'))"

text \<open>What a message brings: no command, or one of \<open>T\<close>.\<close>

definition carries :: "KubeCmd set \<Rightarrow> payload \<Rightarrow> bool" where
  "carries T pl \<longleftrightarrow> pl_NewObject pl \<in> insert KubeCmd0 T"

text \<open>
  No goroutine ever gets past a send on \<open>newTerm\<close>; every reply that carries a vote agrees
  and goes to the channel of a request; no request goes to the empty address or twice to
  the same peer; a proposal is a proper command.
\<close>

fun raft_event_ok :: "KubeCmd set \<Rightarrow> nat set \<Rightarrow> raft_event \<Rightarrow> bool" where
  "raft_event_ok T CH Ev_SendNewTerm = False"
| "raft_event_ok T CH (Ev_Reply ch pkt) =
     (ch \<in> CH \<and> carries T (pk_Data pkt) \<and>
      (case pk_Data pkt of PL_RequestVote v \<Rightarrow> rv_Agreed v | _ \<Rightarrow> True))"
| "raft_event_ok T CH (Ev_Request a pl dt) = carries T pl"
| "raft_event_ok T CH (Ev_Notify a pl dt) = (a \<noteq> [] \<and> carries T pl)"
| "raft_event_ok T CH (Ev_Gather to pl dt) =
     ([] \<notin> set to \<and> distinct to \<and> carries T pl \<and>
      (case pl of PL_AppendEntry m \<Rightarrow> proper_cmd (ae_NewObject m) | _ \<Rightarrow> False))"
| "raft_event_ok T CH (Ev_Election to pl dt) =
     ([] \<notin> set to \<and> distinct to \<and> carries T pl \<and>
      (case pl of PL_RequestVote m \<Rightarrow> True | _ \<Rightarrow> False))"
| "raft_event_ok T CH _ = True"

text \<open>The answers and the new goroutines, restricted to the commands of \<open>T\<close> and the channels of \<open>CH\<close>.\<close>

definition raft_env_from :: "KubeCmd set \<Rightarrow> RAFT \<Rightarrow> raft_event \<Rightarrow> raft_input \<Rightarrow> bool" where
  "raft_env_from T s e i \<longleftrightarrow> raft_env s e i \<and>
     (\<forall>a pl dt q. e = Ev_Request a pl dt \<longrightarrow> in_outcome i = Answered q \<longrightarrow> carries T q)"

inductive raft_starts_from :: "KubeCmd set \<Rightarrow> nat set \<Rightarrow> rproc \<Rightarrow> bool" for T CH where
  rpc: "carries T (pk_Data (rpc_P rpc)) \<Longrightarrow> rpc_Done rpc \<in> CH \<Longrightarrow> raft_starts_from T CH (handleRpc rpc)"
| cli: "proper_cmd cmd \<Longrightarrow> cmd \<in> T \<Longrightarrow> raft_starts_from T CH (handleCli cmd)"
| deliver: "raft_starts_from T CH (r_write (deliverCommit i) Return)"

lemma carries_UNIV [simp]: "carries UNIV pl"
  by (simp add: carries_def)

lemma raft_env_from_UNIV [simp]: "raft_env_from UNIV = raft_env"
  by (intro ext) (simp add: raft_env_from_def)

lemma raft_starts_from_UNIV [simp]: "raft_starts_from UNIV UNIV = raft_starts"
  by (intro ext iffI)
    (auto elim!: raft_starts_from.cases raft_starts.cases intro: raft_starts_from.intros raft_starts.intros)

abbreviation raft_keeps :: "string set \<Rightarrow> KubeCmd set \<Rightarrow> nat set \<Rightarrow> rproc \<Rightarrow> bool" where
  "raft_keeps P T CH \<equiv> keeps (raft_env_from T) (raft_inv P T) raft_guar (raft_event_ok T CH)"

lemma raft_guar_refl: "raft_guar r r"
  by (simp add: raft_guar_def)

lemma raft_guar_trans: "raft_guar r s \<Longrightarrow> raft_guar s t \<Longrightarrow> raft_guar r t"
  by (auto simp: raft_guar_def)

section \<open>Steps keep it\<close>

lemma keeps_read [keep_intros]: "(\<And>x. raft_keeps P T CH (k x)) \<Longrightarrow> raft_keeps P T CH (r_read f k)"
  by (simp add: r_read_def raft_guar_refl)

lemma keeps_write [keep_intros]:
  "(\<And>r. raft_inv P T r \<Longrightarrow> raft_inv P T (u r)) \<Longrightarrow> (\<And>r. raft_inv P T r \<Longrightarrow> raft_guar r (u r)) \<Longrightarrow>
   raft_keeps P T CH k \<Longrightarrow> raft_keeps P T CH (r_write u k)"
  by (simp add: r_write_def)

lemma keeps_prod [keep_intros]:
  "(\<And>a b. raft_keeps P T CH (f a b)) \<Longrightarrow> raft_keeps P T CH (case p of (a, b) \<Rightarrow> f a b)"
  by (cases p) simp

lemma keeps_option [keep_intros]:
  "raft_keeps P T CH p \<Longrightarrow> (\<And>a. raft_keeps P T CH (f a)) \<Longrightarrow> raft_keeps P T CH (case x of None \<Rightarrow> p | Some a \<Rightarrow> f a)"
  by (cases x) simp_all

lemma keeps_outcome [keep_intros]:
  "raft_keeps P T CH p \<Longrightarrow> raft_keeps P T CH q \<Longrightarrow> (\<And>pl. x = Answered pl \<Longrightarrow> raft_keeps P T CH (f pl)) \<Longrightarrow>
   raft_keeps P T CH (case x of Send_failed \<Rightarrow> p | Timed_out \<Rightarrow> q | Answered pl \<Rightarrow> f pl)"
  by (cases x) simp_all

lemma keeps_select [keep_intros]:
  "raft_keeps P T CH p \<Longrightarrow> raft_keeps P T CH q \<Longrightarrow> (\<And>a. raft_keeps P T CH (f a)) \<Longrightarrow>
   raft_keeps P T CH (case x of Sel_main \<Rightarrow> p | Sel_newTerm \<Rightarrow> q | Sel_newLeader a \<Rightarrow> f a)"
  by (cases x) simp_all

lemma keeps_ends [keep_intros]:
  "raft_keeps P T CH Return" "raft_keeps P T CH Block" "raft_keeps P T CH Crash" "raft_keeps P T CH (Goto l)"
  by simp_all

lemma raft_inv_changeRole:
  "P \<subseteq> {[]} \<longrightarrow> x \<noteq> LEADER \<Longrightarrow> raft_inv P T r \<Longrightarrow> raft_inv P T (changeRole x r)"
  by (simp add: raft_inv_def raft_simps quorum_ok_def)

lemma raft_inv_changeRole_lower [keep_intros]:
  "raft_inv P T r \<Longrightarrow> raft_inv P T (changeRole MEMBER r)" "raft_inv P T r \<Longrightarrow> raft_inv P T (changeRole CANDIDATE r)"
  by (simp_all add: raft_inv_changeRole)

lemma raft_inv_updateTerm [keep_intros]: "raft_inv P T r \<Longrightarrow> raft_inv P T (updateTerm t r)"
  by (simp add: raft_inv_def raft_simps quorum_ok_def)

lemma raft_inv_addCommit [keep_intros]:
  "proper_cmd c \<Longrightarrow> c \<in> T \<Longrightarrow> raft_inv P T r \<Longrightarrow> raft_inv P T (addCommit c r)"
  by (simp add: raft_inv_def raft_simps quorum_ok_def)

lemma mset_take_drop:
  "i < length xs \<Longrightarrow> mset xs = add_mset (xs ! i) (mset (take i xs @ drop (Suc i) xs))"
  by (subst id_take_nth_drop [of i xs]) simp_all

lemma raft_inv_deliverCommit [keep_intros]:
  assumes "raft_inv P T r"
  shows "raft_inv P T (deliverCommit i r)"
proof -
  have "mset (raft_delivered (deliverCommit i r)) + mset (raft_toCluster (deliverCommit i r)) =
      mset (raft_delivered r) + mset (raft_toCluster r)"
    using mset_take_drop [of i "raft_toCluster r"] by (simp add: deliverCommit_def)
  with assms show ?thesis
    by (simp add: raft_inv_def raft_simps quorum_ok_def log_ok_def)
qed

lemma raft_inv_peers:
  "raft_inv P T r \<Longrightarrow> routing_ok p \<Longrightarrow> rt_peers p = rt_peers (raft_peers r) \<Longrightarrow>
   rt_active p = rt_active (raft_peers r) \<Longrightarrow> raft_inv P T (r\<lparr>raft_peers := p\<rparr>)"
  by (simp add: raft_inv_def quorum_ok_def raft_simps map_len_keys)

lemma raft_guar_same [keep_intros]:
  "raft_guar r (changeRole x r)" "raft_guar r (updateTerm t r)" "raft_guar r (addCommit c r)"
  "raft_guar r (deliverCommit i r)"
  by (simp_all add: raft_guar_def raft_simps)

lemma raft_guar_peers:
  "rt_peers p = rt_peers (raft_peers r) \<Longrightarrow>
   peer_addr (rt_self p) = peer_addr (rt_self (raft_peers r)) \<Longrightarrow>
   rt_active p = rt_active (raft_peers r) \<Longrightarrow> raft_guar r (r\<lparr>raft_peers := p\<rparr>)"
  by (simp add: raft_guar_def GetAddr_def)

lemma raft_inv_routing: "raft_inv P T r \<Longrightarrow> routing_ok (raft_peers r)"
  by (simp add: raft_inv_def)

lemmas raft_peers_keep = raft_inv_peers raft_guar_peers raft_inv_routing

lemma keeps_UpdateTTL [keep_intros]: "raft_keeps P T CH k \<Longrightarrow> raft_keeps P T CH (r_UpdateTTL a k)"
  unfolding r_UpdateTTL_def
  by (intro keep_intros) (simp_all add: raft_peers_keep routing_simps)

lemma keeps_MakeLeader [keep_intros]: "raft_keeps P T CH k \<Longrightarrow> raft_keeps P T CH (r_MakeLeader a k)"
  unfolding r_MakeLeader_def
  by (intro keep_intros) (simp_all add: raft_peers_keep routing_simps)

lemma keeps_WipeLeader [keep_intros]: "raft_keeps P T CH k \<Longrightarrow> raft_keeps P T CH (r_WipeLeader k)"
  unfolding r_WipeLeader_def
  by (intro keep_intros) (simp_all add: raft_peers_keep routing_simps)

lemma keeps_GetLeaderTimeout [keep_intros]:
  "(\<And>x. raft_keeps P T CH (k x)) \<Longrightarrow> raft_keeps P T CH (r_GetLeaderTimeout k)"
  by (simp add: r_GetLeaderTimeout_def raft_peers_keep routing_simps)

lemma keeps_CheckLeaderTimeout [keep_intros]:
  "(\<And>x. raft_keeps P T CH (k x)) \<Longrightarrow> raft_keeps P T CH (r_CheckLeaderTimeout k)"
  by (simp add: r_CheckLeaderTimeout_def raft_peers_keep routing_simps)

lemma keeps_routing_reads [keep_intros]:
  "(\<And>x. raft_keeps P T CH (f x)) \<Longrightarrow> raft_keeps P T CH (r_IsPeer a f)"
  "(\<And>x. raft_keeps P T CH (g x)) \<Longrightarrow> raft_keeps P T CH (r_GetAddr g)"
  "(\<And>x. raft_keeps P T CH (h x)) \<Longrightarrow> raft_keeps P T CH (r_GetPeersAddress h)"
  "(\<And>x. raft_keeps P T CH (l x)) \<Longrightarrow> raft_keeps P T CH (r_GetLeaderAddr l)"
  unfolding r_IsPeer_def r_GetAddr_def r_GetPeersAddress_def r_GetLeaderAddr_def
  by (intro keep_intros; simp)+

lemma carries_item:
  assumes "raft_inv P T r" and "getLogItem i r = Value x"
  shows "gob_cmd x \<in> insert KubeCmd0 T"
proof (cases "i = 0")
  case True
  with assms(2) show ?thesis by (simp add: getLogItem_def)
next
  case False
  with assms(2) have "x \<in> set (raft_commitLog r)"
    by (auto simp: getLogItem_def index_at_def split: if_splits)
  with assms(1) show ?thesis
    by (auto simp: raft_inv_def log_ok_def list_all_iff proper_cmd_def)
qed

lemma keeps_getLogItem [keep_intros]:
  assumes "\<And>x. gob_cmd x \<in> insert KubeCmd0 T \<Longrightarrow> raft_keeps P T CH (k x)"
  shows "raft_keeps P T CH (r_getLogItem i k)"
  unfolding r_getLogItem_def r_read_def
proof (rule keeps_AtomI)
  fix r assume "raft_inv P T r"
  then show "raft_keeps P T CH (case getLogItem i r of Panic \<Rightarrow> Crash | Value item \<Rightarrow> k item)"
    using assms carries_item by (auto split: checked.split)
qed (simp_all add: raft_guar_refl)

text \<open>The answer to a request brings no command but one of \<open>T\<close>.\<close>

lemma keeps_Request [keep_intros]:
  assumes "carries T pl" and "\<And>out. (\<forall>q. out = Answered q \<longrightarrow> carries T q) \<Longrightarrow> raft_keeps P T CH (k out)"
  shows "raft_keeps P T CH (Io (Ev_Request a pl dt) (\<lambda>i. k (in_outcome i)))"
  using assms by (auto intro!: keeps_IoI_env simp: raft_env_from_def)

lemma keeps_sendNewTerm [keep_intros]: "raft_keeps P T CH (r_sendNewTerm k)"
  by (simp add: r_sendNewTerm_def raft_inv_def raft_guar_refl)

lemma keeps_sendNewLeader [keep_intros]: "raft_keeps P T CH k \<Longrightarrow> raft_keeps P T CH (r_sendNewLeader a k)"
  by (simp add: r_sendNewLeader_def)

section \<open>Every function keeps it\<close>

lemma carries_simps [simp]:
  "carries T (PL_RequestVote m)" "carries T (PL_AppendEntryResponse r)"
  "carries T (PL_AppendEntry e) \<longleftrightarrow> gob_cmd (ae_NewObject e) \<in> insert KubeCmd0 T"
  "carries T (PL_FetchMissingEntries f) \<longleftrightarrow> gob_cmd (fm_NewObject f) \<in> insert KubeCmd0 T"
  by (simp_all add: carries_def)

lemma proper_cmd_gob: "proper_cmd c \<Longrightarrow> gob_cmd c = c"
  by (simp add: proper_cmd_def)

lemma keeps_replies [keep_intros]:
  "ch \<in> CH \<Longrightarrow> raft_keeps P T CH k \<Longrightarrow> raft_keeps P T CH (r_sendReplyObjectCommited ch st k)"
  "ch \<in> CH \<Longrightarrow> raft_keeps P T CH k \<Longrightarrow> raft_keeps P T CH (r_sendReplyLeaderVote ch st k)"
  "ch \<in> CH \<Longrightarrow> gob_cmd obj \<in> insert KubeCmd0 T \<Longrightarrow> raft_keeps P T CH k \<Longrightarrow>
   raft_keeps P T CH (r_respondFetchMissingEntries ch obj i a k)"
  unfolding r_sendReplyObjectCommited_def r_sendReplyLeaderVote_def
    r_respondFetchMissingEntries_def r_sendEncodedReply_def
  by (intro keep_intros; simp add: NewPacket_def)+

text \<open>The targets of a vote: without an address to ask there are none, and none is asked twice.\<close>

lemma keeps_GetPeersAddress_targets:
  assumes "\<And>ms. (P \<subseteq> {[]} \<Longrightarrow> nonempty_addrs ms = []) \<Longrightarrow> distinct (nonempty_addrs ms) \<Longrightarrow>
    raft_keeps P T CH (k ms)"
  shows "raft_keeps P T CH (r_GetPeersAddress k)"
  unfolding r_GetPeersAddress_def
proof (rule keeps_IoI_env)
  fix i s
  assume "raft_inv P T s" and "raft_env_from T s Ev_Visit i"
  then have order: "set (in_order i) = P" "distinct (in_order i)"
    by (simp_all add: raft_inv_def raft_env_from_def range_order_def)
  have "nonempty_addrs (GetPeersAddress (in_order i) p) = []" if "P \<subseteq> {[]}" for p
    using that order by (auto simp: GetPeersAddress_def filter_empty_conv)
  moreover have "distinct (nonempty_addrs (GetPeersAddress (in_order i) p))" for p
    using order by (simp add: GetPeersAddress_def)
  ultimately have "raft_keeps P T CH (k (GetPeersAddress (in_order i) p))" for p
    by (rule assms)
  then show "raft_keeps P T CH (r_read (\<lambda>r. GetPeersAddress (in_order i) (raft_peers r)) k)"
    by (simp add: r_read_def raft_guar_refl)
qed simp

lemma keeps_requestAddObject [keep_intros]:
  assumes "proper_cmd obj" and "obj \<in> T" and "\<And>b. raft_keeps P T CH (k b)"
  shows "raft_keeps P T CH (r_requestAddObject obj k)"
  unfolding r_requestAddObject_def
  by (rule keeps_GetPeersAddress_targets) (intro keep_intros assms; simp add: assms proper_cmd_gob)

lemma keeps_commitObject [keep_intros]:
  "proper_cmd obj \<Longrightarrow> obj \<in> T \<Longrightarrow> (\<And>b. raft_keeps P T CH (k b)) \<Longrightarrow> raft_keeps P T CH (r_commitObject obj k)"
  unfolding r_commitObject_def r_sendLeaderWrite_def
  by (intro keep_intros) (simp_all add: proper_cmd_gob)

lemma keeps_fetchLoop [keep_intros]:
  "raft_keeps P T CH k \<Longrightarrow> raft_keeps P T CH (r_fetchLoop n t a k)"
proof (induction n)
  case 0
  then show ?case by simp
next
  case (Suc n)
  then show ?case
    unfolding r_fetchLoop.simps r_sendFetchObjectAtIndex_def Let_def
    by (intro keep_intros)
      (auto simp: decodePayload_FetchMissingEntries_def proper_cmd_pl carries_def)
qed

lemma keeps_catchUp [keep_intros]: "ch \<in> CH \<Longrightarrow> raft_keeps P T CH (r_catchUp ch data)"
  unfolding r_catchUp_def Let_def by (intro keep_intros)

lemma keeps_REQUEST_VOTE [keep_intros]: "ch \<in> CH \<Longrightarrow> raft_keeps P T CH (handle_REQUEST_VOTE ch data)"
  unfolding handle_REQUEST_VOTE_def by (intro keep_intros) simp_all

lemma keeps_APPEND_ENTRY_current [keep_intros]:
  "ch \<in> CH \<Longrightarrow> objectNil \<or> proper_cmd (ae_NewObject data) \<and> ae_NewObject data \<in> T \<Longrightarrow>
   raft_keeps P T CH (handle_APPEND_ENTRY_current ch data objectNil)"
  unfolding handle_APPEND_ENTRY_current_def by (intro keep_intros) simp_all

lemma keeps_APPEND_ENTRY [keep_intros]:
  "ch \<in> CH \<Longrightarrow> carries T pl \<Longrightarrow>
   raft_keeps P T CH (handle_APPEND_ENTRY ch (fst (decodePayload_AppendEntry pl)))"
  unfolding handle_APPEND_ENTRY_def handle_APPEND_ENTRY_rest_def Let_def
  by (intro keep_intros) (auto simp: decodePayload_AppendEntry_def proper_cmd_pl carries_def)

lemma keeps_FETCH_MISSING_ENTRIES [keep_intros]:
  "ch \<in> CH \<Longrightarrow> raft_keeps P T CH (handle_FETCH_MISSING_ENTRIES ch data)"
  unfolding handle_FETCH_MISSING_ENTRIES_def by (intro keep_intros)

lemma keeps_handleRpc [keep_intros]:
  "rpc_Done rpc \<in> CH \<Longrightarrow> carries T (pk_Data (rpc_P rpc)) \<Longrightarrow> raft_keeps P T CH (handleRpc rpc)"
  unfolding handleRpc_def Let_def GetPacket_def by (intro keep_intros)

lemma keeps_handleCli [keep_intros]:
  "proper_cmd cmd \<Longrightarrow> cmd \<in> T \<Longrightarrow> raft_keeps P T CH (handleCli cmd)"
  unfolding handleCli_def by (intro keep_intros)

lemma keeps_notifyAll [keep_intros]:
  "carries T pl \<Longrightarrow> raft_keeps P T CH k \<Longrightarrow> raft_keeps P T CH (r_notifyAll ps pl k)"
  by (induction ps) simp_all

lemma keeps_afterWatch [keep_intros]: "raft_keeps P T CH r_afterWatch"
  unfolding r_afterWatch_def by (intro keep_intros)

text \<open>Without targets there are no replies, so no election is won.\<close>

lemma keeps_election:
  assumes "P \<subseteq> {[]} \<Longrightarrow> nonempty_addrs ms = []" and "distinct (nonempty_addrs ms)"
  shows "raft_keeps P T CH (Io (Ev_Election (nonempty_addrs ms) (PL_RequestVote m) REQUEST_VOTE) (\<lambda>i.
    case in_select i of
      Sel_main \<Rightarrow> if collect_votes q 0 (in_votes i) then r_changeRole LEADER (Goto L_startRAFT) else Goto L_startRAFT
    | Sel_newTerm \<Rightarrow> r_MakeLeader [] (r_changeRole MEMBER (Io Ev_Sleep (\<lambda>_. Goto L_startRAFT)))
    | Sel_newLeader _ \<Rightarrow> r_changeRole MEMBER (Io Ev_Sleep (\<lambda>_. Goto L_startRAFT))))"
proof (rule keeps_IoI_env)
  fix i s
  assume "raft_env_from T s (Ev_Election (nonempty_addrs ms) (PL_RequestVote m) REQUEST_VOTE) i"
  then have lost: "\<not> collect_votes q 0 (in_votes i)" if "P \<subseteq> {[]}"
    using assms(1) [OF that] by (simp add: raft_env_from_def)
  have win: "raft_keeps P T CH (if collect_votes q 0 (in_votes i) then r_changeRole LEADER (Goto L_startRAFT)
      else Goto L_startRAFT)"
    using lost by (auto intro!: keeps_write raft_inv_changeRole raft_guar_same)
  show "raft_keeps P T CH (case in_select i of
      Sel_main \<Rightarrow> if collect_votes q 0 (in_votes i) then r_changeRole LEADER (Goto L_startRAFT) else Goto L_startRAFT
    | Sel_newTerm \<Rightarrow> r_MakeLeader [] (r_changeRole MEMBER (Io Ev_Sleep (\<lambda>_. Goto L_startRAFT)))
    | Sel_newLeader _ \<Rightarrow> r_changeRole MEMBER (Io Ev_Sleep (\<lambda>_. Goto L_startRAFT)))"
    by (rule keeps_select [OF win]) (intro keep_intros; simp)+
qed (simp add: assms(2))

lemma keeps_candidateTurn [keep_intros]: "raft_keeps P T CH r_candidateTurn"
  unfolding r_candidateTurn_def r_requestLeaderVotes_def Let_def
  by (intro keeps_read keeps_write raft_inv_updateTerm raft_guar_same keeps_GetPeersAddress_targets
      keeps_routing_reads keeps_election)

lemma keeps_main [keep_intros]:
  "raft_keeps P T CH r_watchLeader" "raft_keeps P T CH (r_awaitLeaderTTL d)" "raft_keeps P T CH r_startLeader"
  unfolding r_watchLeader_def r_awaitLeaderTTL_def r_startLeader_def r_sendLogUpdates_def
  by (intro keep_intros; simp)+

lemma keeps_mainTurn [keep_intros]: "raft_keeps P T CH r_mainTurn"
proof -
  have "raft_keeps P T CH (case role of LEADER \<Rightarrow> Goto L_startLeader | CANDIDATE \<Rightarrow> r_candidateTurn
      | MEMBER \<Rightarrow> r_watchLeader)" for role
    by (cases role) (simp_all add: keeps_main keeps_candidateTurn)
  then show ?thesis unfolding r_mainTurn_def by (intro keep_intros)
qed

lemma keeps_raft_code: "raft_keeps P T CH (raft_code l)"
  by (cases l) (simp_all add: keeps_mainTurn keeps_main)

lemma keeps_startRAFT: "raft_keeps P T CH startRAFT"
  unfolding startRAFT_def
  by (intro keep_intros)
    (simp_all add: raft_inv_def LockRoutingTableEntries_def quorum_ok_def raft_guar_def GetAddr_def
      log_ok_def)

lemma keeps_raft_starts: "raft_starts_from T CH p \<Longrightarrow> raft_keeps P T CH p"
  by (auto elim!: raft_starts_from.cases intro!: keeps_handleRpc keeps_handleCli keeps_write
      raft_inv_deliverCommit raft_guar_same)

interpretation raft: goroutine_pool raft_code "raft_starts_from T CH" "raft_env_from T" "raft_inv P T"
    raft_guar "raft_event_ok T CH" for P T CH
  by unfold_locales (auto intro: keeps_raft_code keeps_raft_starts raft_guar_refl raft_guar_trans)

end
