(* ===== verification/Raft_Node.thy ===== *)
theory Raft_Node
  imports Raft_Invariants
begin

text \<open>
  A node from its start: what the invariant gives for every reachable state, and four
  interleavings, found by running the scheduler, in which the program does what a Raft node
  must not do. In the schedules the main goroutine is number 0 and the handlers follow in
  the order they start.
\<close>

section \<open>Runs\<close>

abbreviation steps :: "nat \<Rightarrow> nat \<Rightarrow> (RAFT, raft_event, raft_input, raft_label) action list" where
  "steps j n \<equiv> replicate n (Step j)"

text \<open>The node under observation is \<open>a\<close>, with the peers \<open>b\<close> and \<open>c\<close>.\<close>

definition demo_init :: raft_node where
  "demo_init = raft_init ''a'' 9996 [''b'', ''c'']"

definition demo_cmd :: KubeCmd where
  "demo_cmd = KubeCmd0\<lparr>cmd_Type := CREATE_DEPLOYMENT,
     cmd_ObjectDeployment := KubeDeployment0\<lparr>dep_Name := ''d''\<rparr>\<rparr>"

definition demo_cmd2 :: KubeCmd where
  "demo_cmd2 = KubeCmd0\<lparr>cmd_Type := CREATE_SERVICE, cmd_ObjectService := KubeNodePort0\<lparr>np_Name := ''s''\<rparr>\<rparr>"

definition demo_visit :: raft_input where
  "demo_visit = input0\<lparr>in_order := [''b'', ''c'']\<rparr>"

definition demo_vote :: payload where
  "demo_vote = PL_RequestVote \<lparr>rv_Term = 1, rv_CandidateAddr = ''a'', rv_LogIndex = 0, rv_Agreed = True\<rparr>"

definition demo_confirm :: payload where
  "demo_confirm = PL_AppendEntryResponse \<lparr>ar_Term = 1, ar_LeaderAddr = ''a'', ar_LogIndex = 0,
     ar_Confirmed = True\<rparr>"

definition demo_request_vote :: "string \<Rightarrow> goint \<Rightarrow> goint \<Rightarrow> RPC" where
  "demo_request_vote cand t n =
     \<lparr>rpc_P = NewPacket (Some \<lparr>tcp_IP = cand, tcp_Port = 9996\<rparr>)
        (PL_RequestVote \<lparr>rv_Term = t, rv_CandidateAddr = cand, rv_LogIndex = n, rv_Agreed = False\<rparr>)
        REQUEST_VOTE,
      rpc_Done = 7\<rparr>"

definition demo_heartbeat :: "string \<Rightarrow> goint \<Rightarrow> goint \<Rightarrow> RPC" where
  "demo_heartbeat lead t n =
     \<lparr>rpc_P = NewPacket (Some \<lparr>tcp_IP = lead, tcp_Port = 9996\<rparr>)
        (PL_AppendEntry \<lparr>ae_Term = t, ae_LeaderAddr = lead, ae_LogIndex = n, ae_NewObject = KubeCmd0,
           ae_Confirmed = False\<rparr>) APPEND_ENTRY,
      rpc_Done = 8\<rparr>"

text \<open>The main goroutine up to the \<open>select\<close> of its first election.\<close>

definition sched_candidate :: "(RAFT, raft_event, raft_input, raft_label) action list" where
  "sched_candidate = steps 0 3 @ [Answer 0 demo_visit] @ steps 0 6 @ [Answer 0 demo_visit] @ steps 0 4"

text \<open>It wins with one vote and commits a command of the command line with one confirmation.\<close>

definition sched_leader :: "(RAFT, raft_event, raft_input, raft_label) action list" where
  "sched_leader = sched_candidate @ [Answer 0 (input0\<lparr>in_votes := [demo_vote]\<rparr>)] @ steps 0 1"

definition sched_commit :: "(RAFT, raft_event, raft_input, raft_label) action list" where
  "sched_commit = sched_leader @ [Start (handleCli demo_cmd)] @ steps 1 1 @ [Answer 1 demo_visit] @
     steps 1 5 @ [Answer 1 (input0\<lparr>in_votes := [demo_confirm]\<rparr>)] @ steps 1 1"

definition at_end :: "(RAFT, raft_event, raft_input, raft_label) action list \<Rightarrow> raft_node" where
  "at_end sched = the (node_run raft_code raft_env sched demo_init)"

lemma demo_cmd_proper: "proper_cmd demo_cmd"
  by code_simp

lemma node_run_demo:
  "node_run raft_code raft_env sched demo_init \<noteq> None \<Longrightarrow>
   \<forall>a \<in> set sched. starts_ok raft_starts a \<Longrightarrow> raft_steps demo_init (at_end sched)"
  unfolding at_end_def by (rule node_run_steps) auto

lemma node_run_append:
  "node_run code ok (xs @ ys) n =
     (case node_run code ok xs n of None \<Rightarrow> None | Some m \<Rightarrow> node_run code ok ys m)"
  by (induction xs arbitrary: n) (auto split: option.splits)

lemma demo_reach_suffix:
  assumes "node_run raft_code raft_env xs demo_init \<noteq> None"
    and "node_run raft_code raft_env (xs @ ys) demo_init \<noteq> None"
    and "\<forall>a \<in> set (xs @ ys). starts_ok raft_starts a"
  shows "raft_steps demo_init (at_end xs) \<and> raft_steps (at_end xs) (at_end (xs @ ys))"
proof -
  from assms(1) obtain m where xs: "node_run raft_code raft_env xs demo_init = Some m" by blast
  with assms(2) obtain m' where ys: "node_run raft_code raft_env ys m = Some m'"
    by (auto simp: node_run_append)
  have "at_end xs = m" "at_end (xs @ ys) = m'"
    unfolding at_end_def node_run_append by (simp_all add: xs ys)
  then show ?thesis
    using node_run_steps [OF xs, of raft_starts] node_run_steps [OF ys, of raft_starts] assms(3) by simp
qed

lemma demo_commit_reach:
  "raft_steps (raft_init ''a'' 9996 [''b'', ''c''])
     (fst (at_end sched_commit), snd (at_end sched_commit))"
proof -
  have "node_run raft_code raft_env sched_commit demo_init \<noteq> None" by code_simp
  moreover have "\<forall>a \<in> set sched_commit. starts_ok raft_starts a"
    by (auto simp: sched_commit_def sched_leader_def sched_candidate_def
        intro: raft_starts.cli demo_cmd_proper)
  ultimately show ?thesis using node_run_demo [of sched_commit] by (simp add: demo_init_def)
qed

lemma demo_commit_state:
  "raft_commitLog (fst (at_end sched_commit)) = [demo_cmd]"
  "raft_quorum (fst (at_end sched_commit)) = 1"
  unfolding at_end_def by code_simp+

section \<open>The invariant from the start\<close>

lemma raft_init_keeps:
  "pool_keeps (raft_env_from T) (raft_inv (set peers) T) raft_guar (raft_event_ok T CH) (raft_init ip port peers)"
  using start_routing_facts [of peers ip]
  by (simp add: pool_keeps_def raft_init_def keeps_startRAFT raft_inv_def raft_boot_def InitRaft_def
      log_ok_def quorum_ok_def)

text \<open>A node on its own: any command may come in, on any channel.\<close>

lemmas reach_raft_keeps = raft.steps_keep [where T = UNIV and CH = UNIV, simplified, OF _ raft_init_keeps
  [where T = UNIV and CH = UNIV, simplified]]
lemmas reach_raft_inv = raft.reach_inv [where T = UNIV and CH = UNIV, simplified, OF _ raft_init_keeps
  [where T = UNIV and CH = UNIV, simplified]]
lemmas reach_raft_guar = raft.reach_rel [where T = UNIV and CH = UNIV, simplified, OF _ raft_init_keeps
  [where T = UNIV and CH = UNIV, simplified]]
lemmas reach_raft_event = raft.reach_event [where T = UNIV and CH = UNIV, simplified, OF _ raft_init_keeps
  [where T = UNIV and CH = UNIV, simplified]]

section \<open>Properties\<close>

text \<open>C3:
  in every state a node can reach, its commit log holds no zero command and nothing that
  transmission would change, so the counted length is the length of the log.
\<close>

theorem commit_log_well_formed:
  assumes "raft_steps (raft_init ip port peers) (s, ts)"
  shows "list_all proper_cmd (raft_commitLog s) \<and> getLengthLog s = int (length (raft_commitLog s))"
  using reach_raft_inv [OF assms] by (simp add: raft_inv_def getLengthLog_ok flip: log_ok_def)

theorem commit_log_well_formed_witness:
  "raft_commitLog (fst (at_end sched_commit)) = [demo_cmd] \<and>
   getLengthLog (fst (at_end sched_commit)) = 1"
  using commit_log_well_formed [OF demo_commit_reach] demo_commit_state by simp

text \<open>C2:
  in every reachable state the commands the kube client has received, together with those on
  their way to it, are exactly the entries of the commit log, each as often as it is in the
  log: nothing that was not committed is carried out, and no commit is lost or sent twice.
  The order may differ from the log's.
\<close>

theorem cluster_writes_match_log:
  assumes "raft_steps (raft_init ip port peers) (s, ts)"
  shows "mset (raft_delivered s) + mset (raft_toCluster s) = mset (raft_commitLog s)"
  using reach_raft_inv [OF assms] by (simp add: raft_inv_def)

theorem cluster_writes_match_log_witness:
  "mset (raft_delivered (fst (at_end sched_commit))) + mset (raft_toCluster (fst (at_end sched_commit))) =
   {#demo_cmd#}"
  using cluster_writes_match_log [OF demo_commit_reach] demo_commit_state by simp

text \<open>C1:
  whatever the handlers, the command line and the main goroutine do between two states of a
  run, the commit log of the earlier state is a prefix of that of the later one.
\<close>

theorem commit_log_append_only:
  assumes "raft_steps (raft_init ip port peers) n" and "raft_steps n n'"
  shows "prefix (raft_commitLog (fst n)) (raft_commitLog (fst n'))"
proof -
  have "pool_keeps raft_env (raft_inv (set peers) UNIV) raft_guar (raft_event_ok UNIV UNIV) n"
    using reach_raft_keeps [OF assms(1)] by simp
  from raft.reach_rel [where T = UNIV and CH = UNIV, simplified, OF assms(2) this] show ?thesis
    by (simp add: raft_guar_def)
qed

theorem commit_log_append_only_witness:
  "prefix (raft_commitLog (fst (raft_init ''a'' 9996 [''b'', ''c''])))
     (raft_commitLog (fst (at_end sched_commit))) \<and> raft_commitLog (fst (at_end sched_commit)) = [demo_cmd]"
  using commit_log_append_only [OF rtranclp.rtrancl_refl demo_commit_reach] demo_commit_state by simp

text \<open>The main goroutine is number 0; until it has locked the table it is \<open>startRAFT\<close>.\<close>

definition main_started :: "raft_node \<Rightarrow> bool" where
  "main_started n \<longleftrightarrow> snd n \<noteq> [] \<and> (snd n ! 0 = startRAFT \<or> rt_active (raft_peers (fst n)))"

lemma startRAFT_Atom:
  "startRAFT = Atom (\<lambda>r. r\<lparr>raft_quorum := snd (LockRoutingTableEntries (raft_peers r)),
     raft_peers := fst (LockRoutingTableEntries (raft_peers r))\<rparr>) (\<lambda>r. Goto L_startRAFT)"
  by (simp add: startRAFT_def r_write_def)

lemma main_started_step:
  assumes "raft_step n n'" and "main_started n" and "raft_guar (fst n) (fst n')"
  shows "main_started n'"
proof (cases "rt_active (raft_peers (fst n))")
  case True
  with assms(3) have "rt_active (raft_peers (fst n'))" by (simp add: raft_guar_def)
  moreover have "snd n' \<noteq> []" using assms(1,2) by (auto simp: main_started_def elim!: node_stepE)
  ultimately show ?thesis by (simp add: main_started_def)
next
  case False
  with assms(2) have main: "snd n \<noteq> []" "snd n ! 0 = startRAFT" by (simp_all add: main_started_def)
  show ?thesis
    using assms(1)
  proof cases
    case (atom ts j u k s)
    show ?thesis
    proof (cases "j = 0")
      case True
      with atom main have "u = (\<lambda>r. r\<lparr>raft_quorum := snd (LockRoutingTableEntries (raft_peers r)),
          raft_peers := fst (LockRoutingTableEntries (raft_peers r))\<rparr>)"
        by (simp add: startRAFT_Atom)
      with atom main show ?thesis by (simp add: main_started_def LockRoutingTableEntries_def)
    next
      case False
      with atom main show ?thesis by (simp add: main_started_def)
    qed
  next
    case (io ts j e k s i)
    with main have "j \<noteq> 0" by (cases j) (simp_all add: startRAFT_Atom)
    with io main show ?thesis by (simp add: main_started_def)
  next
    case (jump ts j l s)
    with main have "j \<noteq> 0" by (cases j) (simp_all add: startRAFT_Atom)
    with jump main show ?thesis by (simp add: main_started_def)
  next
    case (start ts p s)
    with main show ?thesis by (simp add: main_started_def nth_append)
  qed
qed

lemma reach_main_started:
  assumes "raft_steps (raft_init ip port peers) n"
  shows "main_started n"
  using assms
proof (induction rule: rtranclp_induct)
  case base
  then show ?case by (simp add: main_started_def raft_init_def)
next
  case (step n n')
  have "pool_keeps raft_env (raft_inv (set peers) UNIV) raft_guar (raft_event_ok UNIV UNIV) n"
    using reach_raft_keeps [OF step.hyps(1)] by simp
  from raft.step_keeps [where T = UNIV and CH = UNIV, simplified, OF step.hyps(2) this]
  have "raft_guar (fst n) (fst n')" by simp
  with step.hyps(2) step.IH show ?case by (rule main_started_step)
qed

lemma reach_peers:
  assumes "raft_steps (raft_init ip port peers) (s, ts)"
  shows "set (rt_peers (raft_peers s)) = set peers \<and> GetAddr (raft_peers s) = ip"
proof -
  have "raft_guar (fst (raft_init ip port peers)) s" using reach_raft_guar [OF assms] by simp
  then show ?thesis
    using start_routing_facts [of peers ip]
    by (simp add: raft_guar_def raft_init_def raft_boot_def InitRaft_def)
qed

lemma reach_quorum:
  assumes "raft_steps (raft_init ip port peers) (s, ts)"
  shows "raft_quorum s =
    (if rt_active (raft_peers s) then int ((card (set peers) + 1) div 2) else 0)"
proof -
  have inv: "raft_inv (set peers) UNIV s" using reach_raft_inv [OF assms] by simp
  moreover have "map_len (rt_table (raft_peers s)) = int (card (set peers))"
    using inv reach_peers [OF assms] by (simp add: raft_inv_def routing_ok_def map_len_card)
  ultimately show ?thesis by (auto simp: raft_inv_def quorum_ok_def zdiv_int)
qed

text \<open>C20:
  at every moment of a run the node has the peers and the address it was started with, and
  either its main goroutine has not made its first step and the quorum is 0, or the quorum is
  half the cluster and is the same at every later moment, whatever messages arrive and
  whatever the handlers do in between.
\<close>

theorem membership_and_quorum_fixed:
  assumes "raft_steps (raft_init ip port peers) (s, ts)" and "raft_steps (s, ts) (s', ts')"
  shows "set (rt_peers (raft_peers s')) = set peers \<and> GetAddr (raft_peers s') = ip \<and>
    (ts ! 0 = startRAFT \<and> raft_quorum s = 0 \<or>
     raft_quorum s = int ((card (set peers) + 1) div 2) \<and> raft_quorum s' = raft_quorum s)"
proof -
  have reach': "raft_steps (raft_init ip port peers) (s', ts')" using assms by (rule rtranclp_trans)
  have "pool_keeps raft_env (raft_inv (set peers) UNIV) raft_guar (raft_event_ok UNIV UNIV) (s, ts)"
    using reach_raft_keeps [OF assms(1)] by simp
  from raft.reach_rel [where T = UNIV and CH = UNIV, simplified, OF assms(2) this]
  have "rt_active (raft_peers s) \<longrightarrow> rt_active (raft_peers s')" by (simp add: raft_guar_def)
  then show ?thesis
    using reach_main_started [OF assms(1)] reach_peers [OF reach']
    by (auto simp: main_started_def reach_quorum [OF assms(1)] reach_quorum [OF reach'])
qed

theorem membership_and_quorum_fixed_witness:
  "set (rt_peers (raft_peers (fst (at_end sched_commit)))) = {''b'', ''c''} \<and>
   raft_quorum (fst (at_end sched_leader)) = 1 \<and> raft_quorum (fst (at_end sched_commit)) = 1"
proof -
  have reach: "raft_steps demo_init (at_end sched_leader) \<and> raft_steps (at_end sched_leader) (at_end sched_commit)"
    unfolding sched_commit_def
  proof (rule demo_reach_suffix)
    show "node_run raft_code raft_env sched_leader demo_init \<noteq> None" by code_simp
    show "node_run raft_code raft_env (sched_leader @ [Start (handleCli demo_cmd)] @ steps 1 1 @
      [Answer 1 demo_visit] @ steps 1 5 @ [Answer 1 (input0\<lparr>in_votes := [demo_confirm]\<rparr>)] @ steps 1 1)
      demo_init \<noteq> None" by code_simp
    show "\<forall>a \<in> set (sched_leader @ [Start (handleCli demo_cmd)] @ steps 1 1 @ [Answer 1 demo_visit] @
      steps 1 5 @ [Answer 1 (input0\<lparr>in_votes := [demo_confirm]\<rparr>)] @ steps 1 1). starts_ok raft_starts a"
      by (auto simp: sched_leader_def sched_candidate_def intro: raft_starts.cli demo_cmd_proper)
  qed
  have "raft_quorum (fst (at_end sched_leader)) = 1" unfolding at_end_def by code_simp
  with membership_and_quorum_fixed [of "''a''" 9996 "[''b'', ''c'']" "fst (at_end sched_leader)"
      "snd (at_end sched_leader)" "fst (at_end sched_commit)" "snd (at_end sched_commit)"] reach
  show ?thesis by (simp add: demo_init_def)
qed

text \<open>
  The channel \<open>newTerm\<close> is never made: in no reachable state is it open, no goroutine ever
  gets past a send on it, and no \<open>select\<close> of the main goroutine can take its case. So the
  hand-over of a newer term to a waiting candidate, a leader or a watching member that the
  code intends never happens; only the direct role changes of the handlers remain.
\<close>

theorem newTerm_channel_dead:
  assumes "raft_steps (raft_init ip port peers) (s, ts)"
  shows "raft_newTerm s = NilChan \<and> (\<forall>k. Io Ev_SendNewTerm k \<notin> set ts) \<and>
    (\<forall>i d to pl dt. in_select i = Sel_newTerm \<longrightarrow>
       \<not> raft_env s Ev_LeaderSelect i \<and> \<not> raft_env s (Ev_AwaitSelect d) i \<and>
       \<not> raft_env s (Ev_Election to pl dt) i)"
proof -
  have "raft_newTerm s = NilChan" using reach_raft_inv [OF assms] by (simp add: raft_inv_def)
  moreover have "Io Ev_SendNewTerm k \<notin> set ts" for k
    using reach_raft_event [OF assms, of Ev_SendNewTerm k] by auto
  ultimately show ?thesis by simp
qed

theorem newTerm_channel_dead_witness:
  "raft_newTerm (fst (at_end sched_commit)) = NilChan"
  using newTerm_channel_dead [OF demo_commit_reach] by simp

text \<open>
  In every reachable state: a leader that asks for votes on a new object asks only real
  peers and never proposes the zero command; a candidate asks only real peers; a reply that
  carries a vote always agrees, so counting replies is counting votes.
\<close>

theorem outgoing_messages_sane:
  assumes "raft_steps (raft_init ip port peers) (s, ts)" and "Io e k \<in> set ts"
  shows "case e of
      Ev_Gather to pl dt \<Rightarrow> [] \<notin> set to \<and> pl_NewObject pl \<noteq> KubeCmd0
    | Ev_Election to pl dt \<Rightarrow> [] \<notin> set to
    | Ev_Reply ch pkt \<Rightarrow> (\<forall>v. pk_Data pkt = PL_RequestVote v \<longrightarrow> rv_Agreed v)
    | Ev_Notify a pl dt \<Rightarrow> a \<noteq> []
    | _ \<Rightarrow> True"
  using reach_raft_event [OF assms(1), of e k] assms(2)
  by (auto split: raft_event.split payload.splits simp: proper_cmd_def)

text \<open>The same run stopped where the leader waits for confirmations.\<close>

definition sched_gather :: "(RAFT, raft_event, raft_input, raft_label) action list" where
  "sched_gather = sched_leader @ [Start (handleCli demo_cmd)] @ steps 1 1 @ [Answer 1 demo_visit] @ steps 1 5"

lemma demo_gather_reach:
  "raft_steps (raft_init ''a'' 9996 [''b'', ''c''])
     (fst (at_end sched_gather), snd (at_end sched_gather))"
proof -
  have "node_run raft_code raft_env sched_gather demo_init \<noteq> None" by code_simp
  moreover have "\<forall>a \<in> set sched_gather. starts_ok raft_starts a"
    by (auto simp: sched_gather_def sched_leader_def sched_candidate_def
        intro: raft_starts.cli demo_cmd_proper)
  ultimately show ?thesis using node_run_demo [of sched_gather] by (simp add: demo_init_def)
qed

fun next_event :: "rproc \<Rightarrow> raft_event option" where
  "next_event (Io e k) = Some e"
| "next_event _ = None"

lemma next_event_Some: "next_event p = Some e \<Longrightarrow> \<exists>k. p = Io e k"
  by (cases p) auto

definition demo_proposal :: payload where
  "demo_proposal = PL_AppendEntry \<lparr>ae_Term = 1, ae_LeaderAddr = ''a'', ae_LogIndex = 0,
     ae_NewObject = demo_cmd, ae_Confirmed = False\<rparr>"

theorem outgoing_messages_sane_witness:
  "\<exists>k. Io (Ev_Gather [''b'', ''c''] demo_proposal APPEND_ENTRY) k \<in> set (snd (at_end sched_gather)) \<and>
     pl_NewObject demo_proposal \<noteq> KubeCmd0"
proof -
  let ?ts = "snd (at_end sched_gather)"
  have "next_event (?ts ! 1) = Some (Ev_Gather [''b'', ''c''] demo_proposal APPEND_ENTRY) \<and> length ?ts = 2"
    unfolding at_end_def by code_simp
  then obtain k where k: "Io (Ev_Gather [''b'', ''c''] demo_proposal APPEND_ENTRY) k \<in> set ?ts"
    by (metis next_event_Some nth_mem one_less_numeral_iff semiring_norm(76))
  from outgoing_messages_sane [OF demo_gather_reach k] k show ?thesis by auto
qed

text \<open>
  A node that was started without a peer address (with no peers at all, or with the one empty
  address that an empty peer list of the command line becomes) never becomes leader, in any
  interleaving and whatever messages arrive: it stands for election again and again, but a
  quorum is looked at only when a reply arrives.
\<close>
theorem isolated_node_never_leads:
  assumes "raft_steps (raft_init ip port peers) (s, ts)" and "set peers \<subseteq> {[]}"
  shows "raft_role s \<noteq> LEADER"
  using reach_raft_inv [OF assms(1)] assms(2) by (simp add: raft_inv_def)

definition sched_isolated :: "(RAFT, raft_event, raft_input, raft_label) action list" where
  "sched_isolated = steps 0 3 @ [Answer 0 (input0\<lparr>in_order := [[]]\<rparr>)] @ steps 0 6 @
     [Answer 0 (input0\<lparr>in_order := [[]]\<rparr>)] @ steps 0 4 @ [Answer 0 input0]"

theorem isolated_node_never_leads_witness:
  "let n = the (node_run raft_code raft_env sched_isolated (raft_init ''a'' 9996 [[]]))
   in raft_term (fst n) = 1 \<and> raft_role (fst n) \<noteq> LEADER"
proof -
  let ?n = "the (node_run raft_code raft_env sched_isolated (raft_init ''a'' 9996 [[]]))"
  have "node_run raft_code raft_env sched_isolated (raft_init ''a'' 9996 [[]]) \<noteq> None" by code_simp
  then have n: "node_run raft_code raft_env sched_isolated (raft_init ''a'' 9996 [[]]) = Some ?n" by simp
  have "\<forall>a \<in> set sched_isolated. starts_ok raft_starts a" by (auto simp: sched_isolated_def)
  from node_run_steps [OF n this] have "raft_steps (raft_init ''a'' 9996 [[]]) (fst ?n, snd ?n)" by simp
  from isolated_node_never_leads [OF this] have "raft_role (fst ?n) \<noteq> LEADER" by simp
  moreover have "raft_term (fst ?n) = 1" by code_simp
  ultimately show ?thesis by (simp add: Let_def)
qed

section \<open>Interleavings\<close>

text \<open>
  While the candidate \<open>a\<close> waits for the result of its election in term 1, a request for a
  vote in term 5 arrives from \<open>c\<close> and is answered; then the result of the old election.
\<close>

definition sched_stale_1 :: "(RAFT, raft_event, raft_input, raft_label) action list" where
  "sched_stale_1 = sched_candidate @ [Start (handleRpc (demo_request_vote ''c'' 5 0))] @
     steps 1 1 @ [Answer 1 input0] @ steps 1 7 @ [Answer 1 demo_visit] @ steps 1 3"

definition sched_stale_2 :: "(RAFT, raft_event, raft_input, raft_label) action list" where
  "sched_stale_2 = [Answer 1 input0, Answer 0 (input0\<lparr>in_votes := [demo_vote]\<rparr>), Step 0]"

text \<open>Two requests for a vote, in terms 3 and 5; the first is overtaken between its test and its write.\<close>

definition sched_race_1 :: "(RAFT, raft_event, raft_input, raft_label) action list" where
  "sched_race_1 = [Start (handleRpc (demo_request_vote ''b'' 3 0)), Start (handleRpc (demo_request_vote ''c'' 5 0))] @
     steps 1 1 @ [Answer 1 input0] @ steps 1 2 @ steps 2 1 @ [Answer 2 input0] @ steps 2 7 @
     [Answer 2 demo_visit] @ steps 2 3"

definition sched_race_2 :: "(RAFT, raft_event, raft_input, raft_label) action list" where
  "sched_race_2 = [Answer 2 input0] @ steps 1 1"

text \<open>
  A member that follows \<open>c\<close> gets two heartbeats that say the log has one entry; both
  handlers ask for entry 1 before either stores it.
\<close>

definition demo_entry :: raft_input where
  "demo_entry = input0\<lparr>in_outcome := Answered (PL_FetchMissingEntries
     \<lparr>fm_Term = 0, fm_LeaderAddr = [], fm_LogIndex = 1, fm_NewObject = demo_cmd\<rparr>)\<rparr>"

definition sched_twice :: "(RAFT, raft_event, raft_input, raft_label) action list" where
  "sched_twice = [Start (handleRpc (demo_request_vote ''c'' 1 0))] @ steps 1 1 @ [Answer 1 input0] @
     steps 1 7 @ [Answer 1 demo_visit] @ steps 1 3 @ [Answer 1 input0] @
     [Start (handleRpc (demo_heartbeat ''c'' 1 1)), Start (handleRpc (demo_heartbeat ''c'' 1 1))] @
     concat (map (\<lambda>j. steps j 1 @ [Answer j input0] @ steps j 9 @ [Answer j demo_visit] @ steps j 3) [2, 3]) @
     [Answer 2 demo_entry, Answer 3 demo_entry] @ steps 2 1 @ steps 3 1"

text \<open>Two commands are committed one after the other; the second is received first.\<close>

definition sched_reorder :: "(RAFT, raft_event, raft_input, raft_label) action list" where
  "sched_reorder = sched_commit @ [Start (handleCli demo_cmd2)] @ steps 2 1 @ [Answer 2 demo_visit] @
     steps 2 5 @ [Answer 2 (input0\<lparr>in_votes := [demo_confirm]\<rparr>)] @ steps 2 1 @
     [Start (r_write (deliverCommit 1) Return), Step 3, Start (r_write (deliverCommit 0) Return), Step 4]"

lemmas demo_sched_defs = sched_stale_1_def sched_stale_2_def sched_race_1_def sched_race_2_def
  sched_twice_def sched_candidate_def sched_reorder_def sched_commit_def sched_leader_def

text \<open>
  A node can grant its vote in term 5 to \<open>c\<close> and then become leader in that same term 5
  itself, because the result of an election it started in term 1 is taken without looking at
  the term or the role again. Election safety (one leader per term) does not hold.
\<close>

theorem stale_election_makes_second_leader:
  "\<exists>n n' k addr. raft_steps demo_init n \<and> raft_steps n n' \<and>
     Io (Ev_Reply 7 \<lparr>pk_Caller = addr,
       pk_Data = PL_RequestVote \<lparr>rv_Term = 5, rv_CandidateAddr = ''c'', rv_LogIndex = 0, rv_Agreed = True\<rparr>,
       pk_Type = REQUEST_VOTE\<rparr>) k \<in> set (snd n) \<and>
     raft_term (fst n) = 5 \<and> raft_role (fst n) = MEMBER \<and>
     raft_term (fst n') = 5 \<and> raft_role (fst n') = LEADER"
proof -
  let ?n = "at_end sched_stale_1" and ?n' = "at_end (sched_stale_1 @ sched_stale_2)"
  have reach: "raft_steps demo_init ?n \<and> raft_steps ?n ?n'"
  proof (rule demo_reach_suffix)
    show "node_run raft_code raft_env sched_stale_1 demo_init \<noteq> None" by code_simp
    show "node_run raft_code raft_env (sched_stale_1 @ sched_stale_2) demo_init \<noteq> None" by code_simp
    show "\<forall>a \<in> set (sched_stale_1 @ sched_stale_2). starts_ok raft_starts a"
      by (auto simp: demo_sched_defs intro: raft_starts.rpc)
  qed
  have "length (snd ?n) = 2 \<and> next_event (snd ?n ! 1) = Some (Ev_Reply 7
      \<lparr>pk_Caller = Some \<lparr>tcp_IP = ''c'', tcp_Port = 9996\<rparr>,
       pk_Data = PL_RequestVote \<lparr>rv_Term = 5, rv_CandidateAddr = ''c'', rv_LogIndex = 0, rv_Agreed = True\<rparr>,
       pk_Type = REQUEST_VOTE\<rparr>)"
    unfolding at_end_def by code_simp
  then obtain k where "Io (Ev_Reply 7
      \<lparr>pk_Caller = Some \<lparr>tcp_IP = ''c'', tcp_Port = 9996\<rparr>,
       pk_Data = PL_RequestVote \<lparr>rv_Term = 5, rv_CandidateAddr = ''c'', rv_LogIndex = 0, rv_Agreed = True\<rparr>,
       pk_Type = REQUEST_VOTE\<rparr>) k \<in> set (snd ?n)"
    by (metis next_event_Some nth_mem one_less_numeral_iff semiring_norm(76))
  moreover have "raft_term (fst ?n) = 5" "raft_role (fst ?n) = MEMBER"
    "raft_term (fst ?n') = 5" "raft_role (fst ?n') = LEADER"
    unfolding at_end_def by code_simp+
  ultimately show ?thesis using reach by blast
qed

text \<open>C27:
  the term is tested and written under separate acquisitions of its lock: with two requests
  for a vote in flight, a node that is in term 5 (and has sent its vote) falls back to term 3.
\<close>

theorem term_can_go_back:
  "\<exists>n n'. raft_steps demo_init n \<and> raft_steps n n' \<and> raft_term (fst n) = 5 \<and> raft_term (fst n') = 3"
proof -
  let ?n = "at_end sched_race_1" and ?n' = "at_end (sched_race_1 @ sched_race_2)"
  have "raft_steps demo_init ?n \<and> raft_steps ?n ?n'"
  proof (rule demo_reach_suffix)
    show "node_run raft_code raft_env sched_race_1 demo_init \<noteq> None" by code_simp
    show "node_run raft_code raft_env (sched_race_1 @ sched_race_2) demo_init \<noteq> None" by code_simp
    show "\<forall>a \<in> set (sched_race_1 @ sched_race_2). starts_ok raft_starts a"
      by (auto simp: demo_sched_defs intro: raft_starts.rpc)
  qed
  moreover have "raft_term (fst ?n) = 5" "raft_term (fst ?n') = 3"
    unfolding at_end_def by code_simp+
  ultimately show ?thesis by blast
qed

text \<open>C28:
  two heartbeats handled at the same time make a node store (and send to its cluster) one entry twice:
  the log of a follower ends as \<open>[x, x]\<close> although both answers were entry 1 of the leader.
\<close>

theorem catch_up_can_duplicate:
  "\<exists>n. raft_steps demo_init n \<and> raft_commitLog (fst n) = [demo_cmd, demo_cmd] \<and>
     raft_toCluster (fst n) = [demo_cmd, demo_cmd] \<and>
     n = at_end sched_twice \<and>
     {in_outcome i | i j. Answer j i \<in> set sched_twice} \<subseteq>
       {Timed_out, Answered (PL_FetchMissingEntries \<lparr>fm_Term = 0, fm_LeaderAddr = [], fm_LogIndex = 1,
          fm_NewObject = demo_cmd\<rparr>)}"
proof -
  let ?n = "at_end sched_twice"
  have "node_run raft_code raft_env sched_twice demo_init \<noteq> None" by code_simp
  moreover have "\<forall>a \<in> set sched_twice. starts_ok raft_starts a"
    by (auto simp: demo_sched_defs intro: raft_starts.rpc)
  ultimately have "raft_steps demo_init ?n" by (rule node_run_demo)
  moreover have "raft_commitLog (fst ?n) = [demo_cmd, demo_cmd]"
    "raft_toCluster (fst ?n) = [demo_cmd, demo_cmd]"
    unfolding at_end_def by code_simp+
  moreover have "{in_outcome i | i j. Answer j i \<in> set sched_twice} \<subseteq>
       {Timed_out, Answered (PL_FetchMissingEntries \<lparr>fm_Term = 0, fm_LeaderAddr = [], fm_LogIndex = 1,
          fm_NewObject = demo_cmd\<rparr>)}"
    by (auto simp: sched_twice_def demo_entry_def demo_visit_def input0_def)
  ultimately show ?thesis by blast
qed

text \<open>C29:
  each commit is sent to the kube client by a goroutine of its own, and the channel does not
  order them: a leader can commit two commands in one order while its cluster carries them
  out in the other, so the clusters of two nodes with equal logs can end up different.
\<close>
theorem deliveries_reordered:
  "\<exists>n. raft_steps demo_init n \<and> raft_commitLog (fst n) = [demo_cmd, demo_cmd2] \<and>
     raft_delivered (fst n) = [demo_cmd2, demo_cmd] \<and> raft_toCluster (fst n) = []"
proof -
  let ?n = "at_end sched_reorder"
  have "node_run raft_code raft_env sched_reorder demo_init \<noteq> None" by code_simp
  moreover have "proper_cmd demo_cmd2" by code_simp
  then have "\<forall>a \<in> set sched_reorder. starts_ok raft_starts a"
    using demo_cmd_proper by (auto simp: demo_sched_defs intro: raft_starts.cli raft_starts.deliver)
  ultimately have "raft_steps demo_init ?n" by (rule node_run_demo)
  moreover have "raft_commitLog (fst ?n) = [demo_cmd, demo_cmd2]"
    "raft_delivered (fst ?n) = [demo_cmd2, demo_cmd]" "raft_toCluster (fst ?n) = []"
    unfolding at_end_def by code_simp+
  ultimately show ?thesis by blast
qed

end
