(* ===== verification/Raft_Protocol.thy ===== *)
theory Raft_Protocol
  imports Raft_Node
begin

text \<open>
  What the request handler and \<open>commitObject\<close> do when they run without interference: one
  equation per function of the source, with the decision the code takes written as a
  function of the values it reads (\<open>decide_vote\<close>, \<open>decide_append\<close>). The theories
  \<open>Raft_Voting\<close> and \<open>Raft_Replication\<close> state the properties over these equations.
\<close>

section \<open>Running a handler alone\<close>

lemma exec_read [exec_simps]: "exec ok (r_read f k) ins s = exec ok (k (f s)) ins s"
  by (simp add: r_read_def)

lemma exec_write [exec_simps]: "exec ok (r_write u k) ins s = exec ok k ins (u s)"
  by (simp add: r_write_def)

lemma exec_IsPeer [exec_simps]:
  "exec ok (r_IsPeer a k) ins s = exec ok (k (IsPeer a (raft_peers s))) ins s"
  by (simp add: r_IsPeer_def exec_simps)

lemma exec_GetAddr [exec_simps]:
  "exec ok (r_GetAddr k) ins s = exec ok (k (GetAddr (raft_peers s))) ins s"
  by (simp add: r_GetAddr_def exec_simps)

abbreviation set_peers :: "PeerRouting \<Rightarrow> RAFT \<Rightarrow> RAFT" where
  "set_peers p s \<equiv> s\<lparr>raft_peers := p\<rparr>"

lemma exec_MakeLeader [exec_simps]:
  "exec ok (r_MakeLeader a k) ins s = exec ok k ins (set_peers (fst (MakeLeader a (raft_peers s))) s)"
  by (simp add: r_MakeLeader_def exec_simps)

lemma exec_WipeLeader [exec_simps]:
  "exec ok (r_WipeLeader k) ins s = exec ok k ins (set_peers (WipeLeader (raft_peers s)) s)"
  by (simp add: r_WipeLeader_def exec_simps)

lemma exec_sendNewTerm_nil [exec_simps]:
  "raft_newTerm s = NilChan \<Longrightarrow> exec ok (r_sendNewTerm k) ins s = (s, [], Blocked)"
  by (simp add: r_sendNewTerm_def)

lemma exec_UpdateTTL [exec_simps]:
  "exec raft_env (r_UpdateTTL a k) (i # ins) s =
     emit Ev_Now (exec raft_env k ins (set_peers (fst (UpdateTTL a (in_now i) (raft_peers s))) s))"
  by (simp add: r_UpdateTTL_def exec_simps)

lemma exec_GetLeaderAddr [exec_simps]:
  "range_order (rt_table (raft_peers s)) (in_order i) \<Longrightarrow>
   exec raft_env (r_GetLeaderAddr k) (i # ins) s =
     emit Ev_Visit (exec raft_env (k (GetLeaderAddr (in_order i) (raft_peers s))) ins s)"
  by (simp add: r_GetLeaderAddr_def exec_simps)

lemma exec_GetPeersAddress [exec_simps]:
  "range_order (rt_table (raft_peers s)) (in_order i) \<Longrightarrow>
   exec raft_env (r_GetPeersAddress k) (i # ins) s =
     emit Ev_Visit (exec raft_env (k (GetPeersAddress (in_order i) (raft_peers s))) ins s)"
  by (simp add: r_GetPeersAddress_def exec_simps)

lemma exec_GetLeaderTimeout [exec_simps]:
  "range_order (rt_table (raft_peers s)) (in_order i) \<Longrightarrow>
   exec raft_env (r_GetLeaderTimeout k) (i # ins) s =
     emit Ev_Visit (exec raft_env (k (snd (GetLeaderTimeout (in_now i) (in_order i) (raft_peers s)))) ins
       (set_peers (fst (GetLeaderTimeout (in_now i) (in_order i) (raft_peers s))) s))"
  by (simp add: r_GetLeaderTimeout_def)

lemma exec_CheckLeaderTimeout [exec_simps]:
  "range_order (rt_table (raft_peers s)) (in_order i) \<Longrightarrow>
   exec raft_env (r_CheckLeaderTimeout k) (i # ins) s =
     emit Ev_Visit (exec raft_env (k (snd (CheckLeaderTimeout (in_now i) (in_order i) (raft_peers s)))) ins
       (set_peers (fst (CheckLeaderTimeout (in_now i) (in_order i) (raft_peers s))) s))"
  by (simp add: r_CheckLeaderTimeout_def)

lemma exec_getLogItem [exec_simps]:
  "exec ok (r_getLogItem n k) ins s =
     (case getLogItem n s of Panic \<Rightarrow> (s, [], Crashed) | Value item \<Rightarrow> exec ok (k item) ins s)"
  by (simp add: r_getLogItem_def exec_simps split: checked.split)

lemma exec_sendNewLeader [exec_simps]:
  "exec raft_env (r_sendNewLeader a k) (i # ins) s = emit (Ev_SendNewLeader a) (exec raft_env k ins s)"
  by (simp add: r_sendNewLeader_def)

lemma exec_sendEncodedReply [exec_simps]:
  "exec raft_env (r_sendEncodedReply a pl dt ch k) (i # ins) s =
     emit (Ev_Reply ch (NewPacket (Some \<lparr>tcp_IP = a, tcp_Port = raft_raftPort s\<rparr>) pl dt))
       (exec raft_env k ins s)"
  by (simp add: r_sendEncodedReply_def exec_simps)

lemma exec_sendReplyObjectCommited [exec_simps]:
  "range_order (rt_table (raft_peers s)) (in_order i) \<Longrightarrow>
   exec raft_env (r_sendReplyObjectCommited ch st k) (i # j # ins) s =
     (let addr = fst (GetLeaderAddr (in_order i) (raft_peers s))
      in emit Ev_Visit (emit (Ev_Reply ch (NewPacket (Some \<lparr>tcp_IP = addr, tcp_Port = raft_raftPort s\<rparr>)
           (PL_AppendEntryResponse \<lparr>ar_Term = raft_term s, ar_LeaderAddr = addr,
              ar_LogIndex = getLengthLog s, ar_Confirmed = st\<rparr>) REQUEST_VOTE))
           (exec raft_env k ins s)))"
  by (simp add: r_sendReplyObjectCommited_def exec_simps Let_def getTerm_def case_prod_beta)

lemma exec_sendReplyLeaderVote [exec_simps]:
  "range_order (rt_table (raft_peers s)) (in_order i) \<Longrightarrow>
   exec raft_env (r_sendReplyLeaderVote ch st k) (i # j # ins) s =
     (let addr = fst (GetLeaderAddr (in_order i) (raft_peers s))
      in emit Ev_Visit (emit (Ev_Reply ch (NewPacket (Some \<lparr>tcp_IP = addr, tcp_Port = raft_raftPort s\<rparr>)
           (PL_RequestVote \<lparr>rv_Term = raft_term s, rv_CandidateAddr = addr, rv_LogIndex = 0,
              rv_Agreed = True\<rparr>) REQUEST_VOTE))
           (exec raft_env k ins s)))"
  by (simp add: r_sendReplyLeaderVote_def exec_simps Let_def getTerm_def case_prod_beta)

lemma exec_respondFetch [exec_simps]:
  "exec raft_env (r_respondFetchMissingEntries ch obj index a k) (i # ins) s =
     emit (Ev_Reply ch (NewPacket (Some \<lparr>tcp_IP = a, tcp_Port = raft_raftPort s\<rparr>)
       (PL_FetchMissingEntries \<lparr>fm_Term = 0, fm_LeaderAddr = [], fm_LogIndex = index,
          fm_NewObject = obj\<rparr>) FETCH_MISSING_ENTRIES)) (exec raft_env k ins s)"
  by (simp add: r_respondFetchMissingEntries_def exec_simps)

lemma getLengthLog_update [raft_simps]:
  "getLengthLog (s\<lparr>raft_term := t\<rparr>) = getLengthLog s" "getLengthLog (s\<lparr>raft_role := r\<rparr>) = getLengthLog s"
  by (simp_all add: getLengthLog_filter)

section \<open>A request arrives\<close>

definition known_caller :: "RPC \<Rightarrow> RAFT \<Rightarrow> bool" where
  "known_caller rpc s \<longleftrightarrow>
     (case pk_Caller (rpc_P rpc) of None \<Rightarrow> False | Some c \<Rightarrow> IsPeer (tcp_IP c) (raft_peers s))"

text \<open>The receiver once it has noted when it heard from the caller.\<close>

definition contacted :: "RPC \<Rightarrow> instant \<Rightarrow> RAFT \<Rightarrow> RAFT" where
  "contacted rpc now s =
     (case pk_Caller (rpc_P rpc) of
        None \<Rightarrow> s
      | Some c \<Rightarrow> set_peers (fst (UpdateTTL (tcp_IP c) now (raft_peers s))) s)"

text \<open>The replies of a run, with the channel each goes to.\<close>

fun replies :: "raft_event list \<Rightarrow> (nat \<times> payload) list" where
  "replies [] = []"
| "replies (Ev_Reply ch pkt # es) = (ch, pk_Data pkt) # replies es"
| "replies (_ # es) = replies es"

lemma contacted_fields [raft_simps]:
  "raft_role (contacted rpc now s) = raft_role s" "raft_term (contacted rpc now s) = raft_term s"
  "raft_newTerm (contacted rpc now s) = raft_newTerm s"
  "raft_commitLog (contacted rpc now s) = raft_commitLog s"
  "raft_toCluster (contacted rpc now s) = raft_toCluster s"
  "raft_quorum (contacted rpc now s) = raft_quorum s"
  "raft_raftPort (contacted rpc now s) = raft_raftPort s"
  "getLengthLog (contacted rpc now s) = getLengthLog s"
  "log_ok (contacted rpc now s) = log_ok s"
  "rt_peers (raft_peers (contacted rpc now s)) = rt_peers (raft_peers s)"
  "rt_self (raft_peers (contacted rpc now s)) = rt_self (raft_peers s)"
  by (simp_all add: contacted_def raft_simps routing_simps split: option.splits)

lemma range_order_contacted [exec_simps]:
  "range_order (rt_table (raft_peers (contacted rpc now s))) ks =
   range_order (rt_table (raft_peers s)) ks"
  by (rule range_order_cong) (simp add: raft_simps)

lemma range_order_MakeLeader [exec_simps]:
  "range_order (rt_table (fst (MakeLeader a p))) ks = range_order (rt_table p) ks"
  by (rule range_order_cong) (simp add: routing_simps)

lemma range_order_UpdateTTL [exec_simps]:
  "range_order (rt_table (fst (UpdateTTL a t p))) ks = range_order (rt_table p) ks"
  by (rule range_order_cong) (simp add: routing_simps)

lemma range_order_GetLeaderTimeout [exec_simps]:
  "range_order (rt_table (fst (GetLeaderTimeout now ks' p))) ks = range_order (rt_table p) ks"
  by (rule range_order_cong) (simp add: routing_simps)

lemmas state_reads = getTerm_def getRole_def isRole_def

lemma exec_REQUEST_VOTE:
  assumes "known_caller rpc s" and "pk_Type (rpc_P rpc) = REQUEST_VOTE"
  shows "exec raft_env (handleRpc rpc) (i # ins) s =
    emit Ev_Now (exec raft_env
      (handle_REQUEST_VOTE (rpc_Done rpc) (fst (decodePayload_RequestVote (pk_Data (rpc_P rpc))))) ins
      (contacted rpc (in_now i) s))"
  using assms
  by (auto simp: known_caller_def contacted_def handleRpc_def GetPacket_def exec_simps Let_def
      split: option.splits)

lemma exec_APPEND_ENTRY:
  assumes "known_caller rpc s" and "pk_Type (rpc_P rpc) = APPEND_ENTRY"
  shows "exec raft_env (handleRpc rpc) (i # ins) s =
    emit Ev_Now (exec raft_env
      (handle_APPEND_ENTRY (rpc_Done rpc) (fst (decodePayload_AppendEntry (pk_Data (rpc_P rpc))))) ins
      (contacted rpc (in_now i) s))"
  using assms
  by (auto simp: known_caller_def contacted_def handleRpc_def GetPacket_def exec_simps Let_def
      split: option.splits)

lemma exec_FETCH:
  assumes "known_caller rpc s" and "pk_Type (rpc_P rpc) = FETCH_MISSING_ENTRIES"
  shows "exec raft_env (handleRpc rpc) (i # ins) s =
    emit Ev_Now (exec raft_env
      (handle_FETCH_MISSING_ENTRIES (rpc_Done rpc)
        (fst (decodePayload_FetchMissingEntries (pk_Data (rpc_P rpc))))) ins
      (contacted rpc (in_now i) s))"
  using assms
  by (auto simp: known_caller_def contacted_def handleRpc_def GetPacket_def exec_simps Let_def
      split: option.splits)

section \<open>Votes\<close>

text \<open>What a node decides on a request for a vote, from its term and log length and the request's.\<close>

datatype vote_decision = Vote_Grant | Vote_Refuse | Vote_Ignore

definition decide_vote :: "goint \<Rightarrow> goint \<Rightarrow> goint \<Rightarrow> goint \<Rightarrow> vote_decision" where
  "decide_vote t n T L =
     (if T > t then if L < n then Vote_Refuse else Vote_Grant
      else if T = t \<and> L > n then Vote_Grant
      else Vote_Ignore)"

text \<open>The receiver after its decision.\<close>

definition after_vote :: "string \<Rightarrow> goint \<Rightarrow> vote_decision \<Rightarrow> RAFT \<Rightarrow> RAFT" where
  "after_vote cand T d s =
     (let s1 = (if T > raft_term s then s\<lparr>raft_term := T, raft_role := MEMBER\<rparr> else s)
      in case d of
           Vote_Grant \<Rightarrow> set_peers (fst (MakeLeader cand (raft_peers s))) s1
         | Vote_Refuse \<Rightarrow> set_peers (WipeLeader (raft_peers s)) s1
         | Vote_Ignore \<Rightarrow> s1)"

lemma REQUEST_VOTE_run:
  assumes "range_order (rt_table (raft_peers s)) (in_order v)" and "raft_newTerm s = NilChan"
  shows "let d = decide_vote (raft_term s) (getLengthLog s) (rv_Term data) (rv_LogIndex data);
      s' = after_vote (rv_CandidateAddr data) (rv_Term data) d s;
      r = exec raft_env (handle_REQUEST_VOTE ch data) [v, v, v] s
    in fst r = s' \<and>
       replies (fst (snd r)) =
         (if d = Vote_Grant
          then [(ch, PL_RequestVote \<lparr>rv_Term = rv_Term data,
                  rv_CandidateAddr = fst (GetLeaderAddr (in_order v) (raft_peers s')), rv_LogIndex = 0,
                  rv_Agreed = True\<rparr>)] else []) \<and>
       (Ev_CloseDone ch \<in> set (fst (snd r)) \<longleftrightarrow> d = Vote_Refuse) \<and>
       snd (snd r) = (if rv_Term data > raft_term s then Blocked else Returned)"
proof -
  consider "rv_Term data > raft_term s" "rv_LogIndex data < getLengthLog s"
    | "rv_Term data > raft_term s" "\<not> rv_LogIndex data < getLengthLog s"
    | "rv_Term data = raft_term s" "rv_LogIndex data > getLengthLog s" "raft_role s = CANDIDATE"
    | "rv_Term data = raft_term s" "rv_LogIndex data > getLengthLog s" "raft_role s \<noteq> CANDIDATE"
    | "rv_Term data = raft_term s" "\<not> rv_LogIndex data > getLengthLog s"
    | "rv_Term data < raft_term s" by linarith
  then show ?thesis
    by cases
      (use assms in \<open>simp_all add: handle_REQUEST_VOTE_def exec_simps raft_simps state_reads
        decide_vote_def after_vote_def Let_def NewPacket_def updateTerm_def changeRole_def\<close>)
qed

section \<open>New entries and heartbeats\<close>

text \<open>
  What a node does with an append request, from its role, term and log length, the term and
  log length of the request, and whether the request carries an object.
\<close>

datatype append_decision =
    Follow_sender | Take_term | Leader_commit | Leader_deny | In_sync | Accept | Catch_up

definition decide_append ::
  "RaftStatus \<Rightarrow> goint \<Rightarrow> goint \<Rightarrow> goint \<Rightarrow> goint \<Rightarrow> bool \<Rightarrow> append_decision" where
  "decide_append role t n T L objectNil =
     (if T \<ge> t \<and> L > n \<and> role = CANDIDATE then Follow_sender
      else if T > t then Take_term
      else if role = LEADER \<and> \<not> objectNil then if L = n then Leader_commit else Leader_deny
      else if L = n then if objectNil then In_sync else Accept
      else Catch_up)"

lemma exec_APPEND:
  "exec raft_env (handle_APPEND_ENTRY ch data) ins s =
     (case decide_append (raft_role s) (raft_term s) (getLengthLog s) (ae_Term data) (ae_LogIndex data)
             (ae_NewObject data = KubeCmd0) of
        Follow_sender \<Rightarrow>
          exec raft_env (r_sendNewLeader (ae_LeaderAddr data) Return) ins
            (set_peers (fst (MakeLeader (ae_LeaderAddr data) (raft_peers s))) (updateTerm (ae_Term data) s))
      | Take_term \<Rightarrow> exec raft_env (r_sendNewTerm Return) ins (updateTerm (ae_Term data) s)
      | Leader_commit \<Rightarrow>
          exec raft_env (r_commitObject (ae_NewObject data) (\<lambda>added.
            if added then r_sendReplyObjectCommited ch added Return else Return)) ins s
      | Leader_deny \<Rightarrow> exec raft_env (r_sendReplyObjectCommited ch False Return) ins s
      | In_sync \<Rightarrow> (s, [], Returned)
      | Accept \<Rightarrow> exec raft_env (r_sendReplyObjectCommited ch True Return) ins s
      | Catch_up \<Rightarrow> exec raft_env (r_catchUp ch data) ins s)"
  by (auto simp: handle_APPEND_ENTRY_def handle_APPEND_ENTRY_rest_def handle_APPEND_ENTRY_current_def
      exec_simps raft_simps state_reads decide_append_def Let_def)

text \<open>A log that is at least as long as the request says: nothing is fetched.\<close>

lemma exec_catchUp_none:
  assumes "range_order (rt_table (raft_peers s)) (in_order v)"
    and "is_goint (ae_LogIndex data - getLengthLog s)" and "ae_LogIndex data \<le> getLengthLog s"
  shows "exec raft_env (r_catchUp ch data) (v # ins) s =
    emit Ev_Visit (exec raft_env (r_sendReplyObjectCommited ch True Return) ins s)"
  using assms by (simp add: r_catchUp_def exec_simps sub64_exact Let_def case_prod_beta)

lemma exec_FETCH_MISSING:
  "exec raft_env (handle_FETCH_MISSING_ENTRIES ch data) ins s =
     (if fm_Term data \<le> raft_term s \<and> raft_role s = LEADER \<and> fm_LogIndex data \<le> getLengthLog s
      then case getLogItem (fm_LogIndex data) s of
          Panic \<Rightarrow> (s, [], Crashed)
        | Value item \<Rightarrow>
            exec raft_env
              (r_respondFetchMissingEntries ch item (fm_LogIndex data) (fm_LeaderAddr data) Return) ins s
      else (s, [], Returned))"
  by (auto simp: handle_FETCH_MISSING_ENTRIES_def exec_simps state_reads)

lemma getLogItem_ok:
  "log_ok s \<Longrightarrow> i < length (raft_commitLog s) \<Longrightarrow> is_goint (int i + 1) \<Longrightarrow>
   getLogItem (int i + 1) s = Value (raft_commitLog s ! i)"
  by (simp add: getLogItem_def index_at_def sub64_exact is_goint_def)

section \<open>Committing\<close>

lemma collect_confirms_iff:
  "collect_confirms q m ps \<longleftrightarrow> ps \<noteq> [] \<and> q \<le> m + int (length (filter pl_Confirmed ps))"
proof (induction ps arbitrary: m)
  case Nil
  then show ?case by simp
next
  case (Cons p ps)
  show ?case
  proof (cases "ps = []")
    case True
    then show ?thesis by (auto simp: Let_def decodePayload_defs)
  next
    case False
    then show ?thesis by (auto simp: Let_def decodePayload_defs Cons)
  qed
qed

lemma collect_votes_iff:
  "collect_votes q m ps \<longleftrightarrow> ps \<noteq> [] \<and> q \<le> m + int (length ps)"
  by (induction ps arbitrary: m) (auto simp: Let_def)

lemma nonempty_addrs_GetPeersAddress:
  "nonempty_addrs (GetPeersAddress ks p) = nonempty_addrs ks"
  by (simp add: GetPeersAddress_def)

definition proposal :: "KubeCmd \<Rightarrow> RAFT \<Rightarrow> payload" where
  "proposal obj s = PL_AppendEntry \<lparr>ae_Term = raft_term s, ae_LeaderAddr = GetAddr (raft_peers s),
     ae_LogIndex = getLengthLog s, ae_NewObject = obj, ae_Confirmed = False\<rparr>"

lemma exec_requestAddObject [exec_simps]:
  assumes "range_order (rt_table (raft_peers s)) (in_order v)"
    and "length (in_votes w) \<le> length (nonempty_addrs (in_order v))"
  shows "exec raft_env (r_requestAddObject obj k) (v # w # ins) s =
    emit Ev_Visit (emit (Ev_Gather (nonempty_addrs (in_order v)) (proposal obj s) APPEND_ENTRY)
      (exec raft_env (k (collect_confirms (raft_quorum s) 0 (in_votes w))) ins s))"
  using assms
  by (simp add: r_requestAddObject_def exec_simps nonempty_addrs_GetPeersAddress state_reads proposal_def)

lemma exec_commit_leader:
  assumes "raft_role s = LEADER"
    and "range_order (rt_table (raft_peers s)) (in_order v)"
    and "length (in_votes w) \<le> length (nonempty_addrs (in_order v))"
  shows "exec raft_env (r_commitObject obj k) (v # w # ins) s =
    emit Ev_Visit (emit (Ev_Gather (nonempty_addrs (in_order v)) (proposal obj s) APPEND_ENTRY)
      (if collect_confirms (raft_quorum s) 0 (in_votes w)
       then exec raft_env (k True) ins (addCommit obj s) else exec raft_env (k False) ins s))"
  using assms by (simp add: r_commitObject_def exec_simps state_reads)

definition forwarded_write :: "KubeCmd \<Rightarrow> string \<Rightarrow> RAFT \<Rightarrow> payload" where
  "forwarded_write obj ladr s = PL_AppendEntry \<lparr>ae_Term = raft_term s, ae_LeaderAddr = ladr,
     ae_LogIndex = getLengthLog s, ae_NewObject = obj, ae_Confirmed = False\<rparr>"

definition confirms :: "raft_outcome \<Rightarrow> bool" where
  "confirms out = (case out of Send_failed \<Rightarrow> False | Timed_out \<Rightarrow> False | Answered pl \<Rightarrow> pl_Confirmed pl)"

lemma exec_commit_member:
  assumes "raft_role s = MEMBER"
    and "GetLeaderTimeout (in_now v) (in_order v) (raft_peers s) = (p, ttl, err)"
    and "range_order (rt_table (raft_peers s)) (in_order v)"
    and "range_order (rt_table (raft_peers s)) (in_order w)"
  shows "exec raft_env (r_commitObject obj k) (v # w # x # ins) s =
    emit Ev_Visit
     (if err \<noteq> nil_error then exec raft_env (k False) (w # x # ins) (set_peers p s)
      else let ladr = fst (GetLeaderAddr (in_order w) p)
        in emit Ev_Visit (emit (Ev_Request ladr (forwarded_write obj ladr s) APPEND_ENTRY)
          (if confirms (in_outcome x)
           then exec raft_env (k True) ins (addCommit obj (set_peers p s))
           else exec raft_env (k False) ins (set_peers p s))))"
proof -
  have "p = fst (GetLeaderTimeout (in_now v) (in_order v) (raft_peers s))" using assms(2) by simp
  then have "range_order (rt_table p) (in_order w)" using assms(4) by (simp add: exec_simps)
  with assms show ?thesis
    by (auto simp: r_commitObject_def exec_simps state_reads r_sendLeaderWrite_def forwarded_write_def
        confirms_def raft_simps decodePayload_defs Let_def case_prod_beta split: raft_outcome.split)
qed

end
