(* ===== verification/Raft_Voting.thy ===== *)
theory Raft_Voting
  imports Raft_Protocol
begin

text \<open>
  Properties of votes and elections: what a node answers to a request for a vote, when a
  candidate becomes leader, how a member watches its leader and what a leader sends. Each
  handler is run on its own; \<open>Raft_Node\<close> has the properties of interleavings.
\<close>

section \<open>Concrete nodes\<close>

text \<open>Node \<open>a\<close> of a cluster of three, with a role, a term, a log and the leader it follows.\<close>

definition demo_node :: "RaftStatus \<Rightarrow> goint \<Rightarrow> KubeCmd list \<Rightarrow> string \<Rightarrow> RAFT" where
  "demo_node role t log lead =
     (raft_boot ''a'' 9996 [''b'', ''c''])\<lparr>raft_role := role, raft_term := t, raft_commitLog := log,
        raft_toCluster := log, raft_quorum := 1,
        raft_peers := fst (MakeLeader lead (raft_peers (raft_boot ''a'' 9996 [''b'', ''c''])))\<rparr>"

section \<open>Requests for a vote\<close>

text \<open>
  The inputs of a run: the clock and the order of the map visit are each used once, so one
  input \<open>v\<close> can stand for both.
\<close>

lemma vote_request_run:
  assumes "known_caller rpc s" and "pk_Type (rpc_P rpc) = REQUEST_VOTE"
    and "data = fst (decodePayload_RequestVote (pk_Data (rpc_P rpc)))"
    and "range_order (rt_table (raft_peers s)) (in_order v)" and "raft_newTerm s = NilChan"
    and "exec raft_env (handleRpc rpc) [v, v, v, v] s = (s', es, st)"
    and "d = decide_vote (raft_term s) (getLengthLog s) (rv_Term data) (rv_LogIndex data)"
  shows "s' = after_vote (rv_CandidateAddr data) (rv_Term data) d (contacted rpc (in_now v) s)"
    and "replies es = (if d = Vote_Grant
          then [(rpc_Done rpc, PL_RequestVote \<lparr>rv_Term = rv_Term data,
                  rv_CandidateAddr = fst (GetLeaderAddr (in_order v) (raft_peers s')), rv_LogIndex = 0,
                  rv_Agreed = True\<rparr>)] else [])"
    and "Ev_CloseDone (rpc_Done rpc) \<in> set es \<longleftrightarrow> d = Vote_Refuse"
    and "st = (if rv_Term data > raft_term s then Blocked else Returned)"
proof -
  let ?c = "contacted rpc (in_now v) s"
  obtain s'' fs where run: "exec raft_env (handle_REQUEST_VOTE (rpc_Done rpc) data) [v, v, v] ?c = (s'', fs, st)"
    and "s' = s''" "es = Ev_Now # fs"
    using assms(6) unfolding exec_REQUEST_VOTE [OF assms(1,2)] assms(3) [symmetric]
    by (auto simp: emit_eq_iff)
  with REQUEST_VOTE_run [of ?c v data "rpc_Done rpc"] assms(4,5,7)
  show "s' = after_vote (rv_CandidateAddr data) (rv_Term data) d ?c"
    and "replies es = (if d = Vote_Grant
          then [(rpc_Done rpc, PL_RequestVote \<lparr>rv_Term = rv_Term data,
                  rv_CandidateAddr = fst (GetLeaderAddr (in_order v) (raft_peers s')), rv_LogIndex = 0,
                  rv_Agreed = True\<rparr>)] else [])"
    and "Ev_CloseDone (rpc_Done rpc) \<in> set es \<longleftrightarrow> d = Vote_Refuse"
    and "st = (if rv_Term data > raft_term s then Blocked else Returned)"
    by (simp_all add: Let_def raft_simps exec_simps)
qed

lemma after_vote_fields [raft_simps]:
  "raft_term (after_vote cand T d s) = (if T > raft_term s then T else raft_term s)"
  "raft_role (after_vote cand T d s) = (if T > raft_term s then MEMBER else raft_role s)"
  "raft_commitLog (after_vote cand T d s) = raft_commitLog s"
  "getLengthLog (after_vote cand T d s) = getLengthLog s"
  "raft_newTerm (after_vote cand T d s) = raft_newTerm s"
  "rt_peers (raft_peers (after_vote cand T d s)) = rt_peers (raft_peers s)"
  by (auto simp: after_vote_def Let_def routing_simps getLengthLog_filter split: vote_decision.split)

section \<open>Elections\<close>

definition vote_call :: "goint \<Rightarrow> RAFT \<Rightarrow> payload" where
  "vote_call t s = PL_RequestVote \<lparr>rv_Term = t, rv_CandidateAddr = GetAddr (raft_peers s),
     rv_LogIndex = getLengthLog s, rv_Agreed = False\<rparr>"

lemma exec_requestLeaderVotes [exec_simps]:
  assumes "range_order (rt_table (raft_peers s)) (in_order v)"
    and "length (in_votes w) \<le> length (nonempty_addrs (in_order v))" and "in_select w \<noteq> Sel_newTerm"
  shows "exec raft_env (r_requestLeaderVotes t k) (v # w # ins) s =
    emit Ev_Visit (emit (Ev_Election (nonempty_addrs (in_order v)) (vote_call t s) REQUEST_VOTE)
      (exec raft_env (k (raft_quorum s) w) ins s))"
  using assms
  by (simp add: r_requestLeaderVotes_def exec_simps nonempty_addrs_GetPeersAddress vote_call_def)

lemma exec_notifyAll [exec_simps]:
  "length (nonempty_addrs ps) \<le> length ins \<Longrightarrow>
   exec raft_env (r_notifyAll ps pl k) ins s =
     foldr emit (map (\<lambda>a. Ev_Notify a pl APPEND_ENTRY) (nonempty_addrs ps))
       (exec raft_env k (drop (length (nonempty_addrs ps)) ins) s)"
proof (induction ps arbitrary: ins)
  case Nil
  then show ?case by simp
next
  case (Cons p ps)
  then show ?case by (cases ins) auto
qed

lemma exec_VOTE:
  "exec raft_env (handle_REQUEST_VOTE ch data) ins s =
     (let d = decide_vote (raft_term s) (getLengthLog s) (rv_Term data) (rv_LogIndex data);
          s1 = after_vote (rv_CandidateAddr data) (rv_Term data) d s
      in case d of
           Vote_Grant \<Rightarrow>
             if rv_Term data > raft_term s
             then exec raft_env (r_sendReplyLeaderVote ch True (r_sendNewTerm Return)) ins s1
             else if raft_role s = CANDIDATE
             then exec raft_env (r_sendNewLeader (rv_CandidateAddr data) (r_sendReplyLeaderVote ch True Return)) ins s1
             else exec raft_env (r_sendReplyLeaderVote ch True Return) ins s1
         | Vote_Refuse \<Rightarrow> exec raft_env (Io (Ev_CloseDone ch) (\<lambda>_. r_sendNewTerm Return)) ins s1
         | Vote_Ignore \<Rightarrow> (s, [], Returned))"
  by (auto simp: handle_REQUEST_VOTE_def exec_simps raft_simps state_reads decide_vote_def
      after_vote_def updateTerm_def changeRole_def Let_def simp del: exec.simps(6))

lemma no_reply_no_grant:
  assumes "exec raft_env (handle_REQUEST_VOTE ch data) ins s = (s', es, st)" and "replies es \<noteq> []"
  shows "decide_vote (raft_term s) (getLengthLog s) (rv_Term data) (rv_LogIndex data) = Vote_Grant"
  using assms
  by (auto simp: exec_VOTE Let_def r_sendNewTerm_def emit_eq_iff
      split: vote_decision.splits list.splits if_splits)

lemma no_reply_unknown:
  assumes "exec raft_env (handleRpc rpc) ins s = (s', es, st)" and "replies es \<noteq> []"
  shows "known_caller rpc s \<and> ins \<noteq> []"
proof (cases "pk_Caller (rpc_P rpc)")
  case None
  with assms show ?thesis by (auto simp: handleRpc_def GetPacket_def Let_def)
next
  case (Some c)
  with assms show ?thesis
    by (cases ins) (auto simp: known_caller_def handleRpc_def GetPacket_def Let_def exec_simps
        r_UpdateTTL_def split: if_splits)
qed

section \<open>Properties\<close>

text \<open>C10:
  a request for a vote from a known peer, on every branch: the node grants exactly when the
  request's term is newer and its log at least as long, or the term is its own and the log
  longer; it takes a newer term and steps down to member; it forgets its leader when the
  newer candidate is behind, and then closes the reply channel; the vote names the request's
  term. A newer term ends with the handler blocked for ever on \<open>newTerm\<close>.
\<close>
theorem vote_request_spec:
  assumes "known_caller rpc s" and "pk_Type (rpc_P rpc) = REQUEST_VOTE"
    and "data = fst (decodePayload_RequestVote (pk_Data (rpc_P rpc)))"
    and "range_order (rt_table (raft_peers s)) (in_order v)" and "raft_newTerm s = NilChan"
    and "exec raft_env (handleRpc rpc) [v, v, v, v] s = (s', es, st)"
  shows "let d = decide_vote (raft_term s) (getLengthLog s) (rv_Term data) (rv_LogIndex data) in
    s' = after_vote (rv_CandidateAddr data) (rv_Term data) d (contacted rpc (in_now v) s) \<and>
    replies es = (if d = Vote_Grant
      then [(rpc_Done rpc, PL_RequestVote \<lparr>rv_Term = rv_Term data,
              rv_CandidateAddr = fst (GetLeaderAddr (in_order v) (raft_peers s')), rv_LogIndex = 0,
              rv_Agreed = True\<rparr>)] else []) \<and>
    (Ev_CloseDone (rpc_Done rpc) \<in> set es \<longleftrightarrow> d = Vote_Refuse) \<and>
    st = (if rv_Term data > raft_term s then Blocked else Returned)"
  using vote_request_run [OF assms refl] by (simp add: Let_def)

theorem vote_request_spec_witness:
  "replies (fst (snd (exec raft_env (handleRpc (demo_request_vote ''c'' 5 0))
     [demo_visit, demo_visit, demo_visit, demo_visit] (demo_node LEADER 2 [] [])))) =
     [(7, PL_RequestVote \<lparr>rv_Term = 5, rv_CandidateAddr = ''c'', rv_LogIndex = 0, rv_Agreed = True\<rparr>)]"
proof -
  let ?rpc = "demo_request_vote ''c'' 5 0" and ?s = "demo_node LEADER 2 [] []"
  let ?data = "\<lparr>rv_Term = 5, rv_CandidateAddr = ''c'', rv_LogIndex = 0, rv_Agreed = False\<rparr>"
  have h: "known_caller ?rpc ?s" "pk_Type (rpc_P ?rpc) = REQUEST_VOTE"
    "?data = fst (decodePayload_RequestVote (pk_Data (rpc_P ?rpc)))"
    "range_order (rt_table (raft_peers ?s)) (in_order demo_visit)" "raft_newTerm ?s = NilChan"
    by code_simp+
  obtain s' es st where run: "exec raft_env (handleRpc ?rpc) [demo_visit, demo_visit, demo_visit, demo_visit] ?s = (s', es, st)"
    by (metis prod_cases3)
  have d: "decide_vote (raft_term ?s) (getLengthLog ?s) 5 0 = Vote_Grant" "rpc_Done ?rpc = 7"
    and a: "fst (GetLeaderAddr (in_order demo_visit)
      (raft_peers (after_vote ''c'' 5 Vote_Grant (contacted ?rpc (in_now demo_visit) ?s)))) = ''c''"
    by code_simp+
  from vote_request_spec [OF h run] a show ?thesis
    by (simp add: run d Let_def)
qed

text \<open>C23:
  whatever inputs the handler gets, a vote it replies with goes to a known peer whose term is
  not behind and whose log is at least as long as the voter's, and longer if the term is the
  voter's own.
\<close>
theorem vote_needs_uptodate_log:
  assumes "exec raft_env (handleRpc rpc) ins s = (s', es, st)"
    and "pk_Type (rpc_P rpc) = REQUEST_VOTE" and "replies es \<noteq> []"
    and "data = fst (decodePayload_RequestVote (pk_Data (rpc_P rpc)))"
  shows "known_caller rpc s \<and> raft_term s \<le> rv_Term data \<and> getLengthLog s \<le> rv_LogIndex data \<and>
    (rv_Term data = raft_term s \<longrightarrow> getLengthLog s < rv_LogIndex data)"
proof -
  obtain i rest where ins: "ins = i # rest" and known: "known_caller rpc s"
    using no_reply_unknown [OF assms(1,3)] by (auto simp: neq_Nil_conv)
  from assms(1,2) known obtain fs where
    run: "exec raft_env (handle_REQUEST_VOTE (rpc_Done rpc) data) rest (contacted rpc (in_now i) s) = (s', fs, st)"
    and es: "es = Ev_Now # fs"
    by (auto simp: ins exec_REQUEST_VOTE assms(4) emit_eq_iff)
  from no_reply_no_grant [OF run] assms(3) es known show ?thesis
    by (auto simp: decide_vote_def raft_simps split: if_splits)
qed

theorem vote_needs_uptodate_log_witness:
  "replies (fst (snd (exec raft_env (handleRpc (demo_request_vote ''c'' 2 1)) (replicate 4 demo_visit)
     (demo_node MEMBER 2 [] [])))) \<noteq> [] \<and> getLengthLog (demo_node MEMBER 2 [] []) < 1"
proof -
  let ?rpc = "demo_request_vote ''c'' 2 1" and ?s = "demo_node MEMBER 2 [] []"
  obtain s' es st where run: "exec raft_env (handleRpc ?rpc) (replicate 4 demo_visit) ?s = (s', es, st)"
    by (metis prod_cases3)
  have "replies (fst (snd (exec raft_env (handleRpc ?rpc) (replicate 4 demo_visit) ?s))) \<noteq> []"
    "pk_Type (rpc_P ?rpc) = REQUEST_VOTE" "raft_term ?s = 2"
    "fst (decodePayload_RequestVote (pk_Data (rpc_P ?rpc))) =
       \<lparr>rv_Term = 2, rv_CandidateAddr = ''c'', rv_LogIndex = 1, rv_Agreed = False\<rparr>"
    by code_simp+
  with vote_needs_uptodate_log [OF run] show ?thesis by (simp add: run)
qed

text \<open>
  Nothing records for whom a node voted: after a vote in a newer term it votes again in that
  same term for another candidate, as soon as that one's log is longer. Both replies agree.
\<close>
theorem two_votes_in_one_term:
  assumes "known_caller rpc1 s" and "known_caller rpc2 s"
    and "pk_Type (rpc_P rpc1) = REQUEST_VOTE" and "pk_Type (rpc_P rpc2) = REQUEST_VOTE"
    and "d1 = fst (decodePayload_RequestVote (pk_Data (rpc_P rpc1)))"
    and "d2 = fst (decodePayload_RequestVote (pk_Data (rpc_P rpc2)))"
    and "raft_term s < rv_Term d1" and "rv_Term d2 = rv_Term d1"
    and "getLengthLog s \<le> rv_LogIndex d1" and "getLengthLog s < rv_LogIndex d2"
    and "range_order (rt_table (raft_peers s)) (in_order v)" and "raft_newTerm s = NilChan"
    and "exec raft_env (handleRpc rpc1) [v, v, v, v] s = (s1, es1, st1)"
    and "exec raft_env (handleRpc rpc2) [v, v, v, v] s1 = (s2, es2, st2)"
  shows "\<exists>a1 a2. replies es1 = [(rpc_Done rpc1, PL_RequestVote
        \<lparr>rv_Term = rv_Term d1, rv_CandidateAddr = a1, rv_LogIndex = 0, rv_Agreed = True\<rparr>)] \<and>
      replies es2 = [(rpc_Done rpc2, PL_RequestVote
        \<lparr>rv_Term = rv_Term d1, rv_CandidateAddr = a2, rv_LogIndex = 0, rv_Agreed = True\<rparr>)]"
proof -
  have dec1: "Vote_Grant = decide_vote (raft_term s) (getLengthLog s) (rv_Term d1) (rv_LogIndex d1)"
    using assms(7,9) by (simp add: decide_vote_def)
  note r1 = vote_request_run [OF assms(1,3,5,11,12,13) dec1]
  have s1: "raft_term s1 = rv_Term d1" "getLengthLog s1 = getLengthLog s" "raft_newTerm s1 = NilChan"
    "rt_peers (raft_peers s1) = rt_peers (raft_peers s)"
    using assms(7,12) by (simp_all add: r1(1) raft_simps)
  have known: "known_caller rpc2 s1"
    using assms(2) s1(4) by (auto simp: known_caller_def IsPeer_def map_get_None_iff simp flip: not_None_eq
        split: option.splits)
  have ord: "range_order (rt_table (raft_peers s1)) (in_order v)"
    using assms(11) range_order_cong [OF s1(4)] by simp
  have dec2: "Vote_Grant = decide_vote (raft_term s1) (getLengthLog s1) (rv_Term d2) (rv_LogIndex d2)"
    using assms(8,10) s1 by (simp add: decide_vote_def)
  note r2 = vote_request_run [OF known assms(4,6) ord s1(3) assms(14) dec2]
  from r1(2) r2(2) assms(8) show ?thesis by simp
qed

theorem two_votes_in_one_term_witness:
  "let s1 = fst (exec raft_env (handleRpc (demo_request_vote ''b'' 2 0))
       [demo_visit, demo_visit, demo_visit, demo_visit] (demo_node MEMBER 1 [] []))
   in replies (fst (snd (exec raft_env (handleRpc (demo_request_vote ''c'' 2 1))
       [demo_visit, demo_visit, demo_visit, demo_visit] s1))) \<noteq> []"
proof -
  let ?s = "demo_node MEMBER 1 [] []" and ?v = "[demo_visit, demo_visit, demo_visit, demo_visit]"
  let ?r1 = "demo_request_vote ''b'' 2 0" and ?r2 = "demo_request_vote ''c'' 2 1"
  let ?d1 = "\<lparr>rv_Term = 2, rv_CandidateAddr = ''b'', rv_LogIndex = 0, rv_Agreed = False\<rparr>"
  let ?d2 = "\<lparr>rv_Term = 2, rv_CandidateAddr = ''c'', rv_LogIndex = 1, rv_Agreed = False\<rparr>"
  have h: "known_caller ?r1 ?s" "known_caller ?r2 ?s"
    "pk_Type (rpc_P ?r1) = REQUEST_VOTE" "pk_Type (rpc_P ?r2) = REQUEST_VOTE"
    "?d1 = fst (decodePayload_RequestVote (pk_Data (rpc_P ?r1)))"
    "?d2 = fst (decodePayload_RequestVote (pk_Data (rpc_P ?r2)))"
    "raft_term ?s < rv_Term ?d1" "rv_Term ?d2 = rv_Term ?d1"
    "getLengthLog ?s \<le> rv_LogIndex ?d1" "getLengthLog ?s < rv_LogIndex ?d2"
    "range_order (rt_table (raft_peers ?s)) (in_order demo_visit)" "raft_newTerm ?s = NilChan"
    by code_simp+
  obtain s1 es1 st1 where r1: "exec raft_env (handleRpc ?r1) ?v ?s = (s1, es1, st1)" by (metis prod_cases3)
  obtain s2 es2 st2 where r2: "exec raft_env (handleRpc ?r2) ?v s1 = (s2, es2, st2)" by (metis prod_cases3)
  from two_votes_in_one_term [OF h r1 r2] show ?thesis by (auto simp: r1 r2 Let_def)
qed

text \<open>C22:
  a candidate's turn raises the term by one, asks every peer with an address once, with its
  own log length, and becomes leader exactly when at least one reply arrived and the number
  of replies reaches the quorum; otherwise it stays candidate and the next turn follows.
\<close>
theorem candidate_turn_spec:
  assumes "raft_role s = CANDIDATE" and "is_goint (raft_term s + 1)"
    and "range_order (rt_table (raft_peers s)) (in_order v)"
    and "in_select w = Sel_main" and "length (in_votes w) \<le> length (nonempty_addrs (in_order v))"
  shows "exec raft_env (raft_code L_startRAFT) [v, w] s =
    (s\<lparr>raft_term := raft_term s + 1,
       raft_role := (if in_votes w \<noteq> [] \<and> raft_quorum s \<le> int (length (in_votes w))
                     then LEADER else CANDIDATE)\<rparr>,
     [Ev_Visit, Ev_Election (nonempty_addrs (in_order v))
        (PL_RequestVote \<lparr>rv_Term = raft_term s + 1, rv_CandidateAddr = GetAddr (raft_peers s),
           rv_LogIndex = getLengthLog s, rv_Agreed = False\<rparr>) REQUEST_VOTE],
     Jumped L_startRAFT)"
  using assms
  by (simp add: r_mainTurn_def r_candidateTurn_def exec_simps raft_simps state_reads Let_def add64_exact
      vote_call_def collect_votes_iff updateTerm_def changeRole_def)

theorem candidate_turn_spec_witness:
  "raft_role (fst (exec raft_env (raft_code L_startRAFT) [demo_visit, input0\<lparr>in_votes := [demo_vote]\<rparr>]
     (demo_node CANDIDATE 3 [] []))) = LEADER"
proof -
  let ?s = "demo_node CANDIDATE 3 [] []" and ?w = "input0\<lparr>in_votes := [demo_vote]\<rparr>"
  have h: "raft_role ?s = CANDIDATE" "is_goint (raft_term ?s + 1)"
    "range_order (rt_table (raft_peers ?s)) (in_order demo_visit)"
    "in_select ?w = Sel_main" "length (in_votes ?w) \<le> length (nonempty_addrs (in_order demo_visit))"
    by code_simp+
  have "raft_quorum ?s = 1" "in_votes ?w = [demo_vote]" by code_simp+
  with candidate_turn_spec [OF h] show ?thesis by simp
qed

text \<open>
  Every period a leader sends one heartbeat, with its term and log length and no object, to
  each peer with an address, whatever the order of the visit, and changes nothing; a node
  that lost the role since sends none and leaves the leader loop.
\<close>
theorem leader_turn_spec:
  assumes "range_order (rt_table (raft_peers s)) (in_order v)" and "in_select w = Sel_main"
    and "length (nonempty_addrs (in_order v)) \<le> length ins"
  shows "exec raft_env (raft_code L_startLeader) (w # v # ins) s =
    (if raft_role s = LEADER
     then (s, Ev_LeaderSelect # Ev_Visit # map (\<lambda>a. Ev_Notify a
             (PL_AppendEntry \<lparr>ae_Term = raft_term s, ae_LeaderAddr = GetAddr (raft_peers s),
                ae_LogIndex = getLengthLog s, ae_NewObject = KubeCmd0, ae_Confirmed = False\<rparr>) APPEND_ENTRY)
             (nonempty_addrs (in_order v)),
           Jumped L_startLeader)
     else (s, [Ev_LeaderSelect], Jumped L_startRAFT))"
  using assms
  by (simp add: r_startLeader_def r_sendLogUpdates_def exec_simps nonempty_addrs_GetPeersAddress
      state_reads foldr_emit)

theorem leader_turn_spec_witness:
  "length (fst (snd (exec raft_env (raft_code L_startLeader) [input0, demo_visit, input0, input0]
     (demo_node LEADER 2 [] [])))) = 4"
proof -
  let ?s = "demo_node LEADER 2 [] []"
  have h: "range_order (rt_table (raft_peers ?s)) (in_order demo_visit)" "in_select input0 = Sel_main"
    "length (nonempty_addrs (in_order demo_visit)) \<le> length [input0, input0]"
    by code_simp+
  have "raft_role ?s = LEADER" "length (nonempty_addrs (in_order demo_visit)) = 2" by code_simp+
  with leader_turn_spec [OF h] show ?thesis by simp
qed

text \<open>
  A member whose table has one leader waits for exactly the time that leader has left; when
  that time is over it becomes candidate at once, and the table has no leader any more.
\<close>
theorem watch_leader_spec:
  assumes "raft_role s = MEMBER" and "only_leader k p (raft_peers s)"
    and "range_order (rt_table (raft_peers s)) (in_order v)"
  shows "exec raft_env (raft_code L_startRAFT) [v] s =
    (if in_now v \<le> peer_ttl p
     then (s, [Ev_Visit], Jumped (L_awaitLeaderTTL (time_Sub (peer_ttl p) (in_now v))))
     else (set_peers ((raft_peers s)\<lparr>rt_table := map_set k (peer_deactivatePeer p) (rt_table (raft_peers s))\<rparr>)
             (s\<lparr>raft_role := CANDIDATE\<rparr>),
           [Ev_Visit], Jumped L_startRAFT))"
  using assms GetLeaderTimeout_only [OF assms(2,3), of "in_now v"]
  by (simp add: r_mainTurn_def r_watchLeader_def r_afterWatch_def exec_simps state_reads changeRole_def)

theorem watch_leader_spec_witness:
  "let s = set_peers (fst (UpdateTTL ''b'' 0 (raft_peers (demo_node MEMBER 2 [] ''b''))))
             (demo_node MEMBER 2 [] ''b'')
   in snd (snd (exec raft_env (raft_code L_startRAFT) [demo_visit\<lparr>in_now := 19000000000\<rparr>] s)) =
        Jumped (L_awaitLeaderTTL 1000000000)"
proof -
  let ?s = "set_peers (fst (UpdateTTL ''b'' 0 (raft_peers (demo_node MEMBER 2 [] ''b''))))
    (demo_node MEMBER 2 [] ''b'')"
  let ?p = "\<lparr>peer_ttl = 20000000000, peer_host = [], peer_active = True, peer_addr = ''b'',
    peer_role = LEADER, peer_term = 0\<rparr>"
  have h: "raft_role ?s = MEMBER" "only_leader ''b'' ?p (raft_peers ?s)"
    "range_order (rt_table (raft_peers ?s)) (in_order (demo_visit\<lparr>in_now := 19000000000\<rparr>))"
    by code_simp+
  from watch_leader_spec [OF h] show ?thesis by (simp add: Let_def time_Sub_def)
qed

text \<open>C25:
  a member that waits for its leader, wakes up when the leader's lease is over and has
  heard nothing since becomes candidate; if the leader was heard
  from in between, it waits again, for the time that is left.
\<close>
theorem silent_leader_replaced:
  assumes "only_leader k p (raft_peers s)" and "in_select w = Sel_main"
    and "range_order (rt_table (raft_peers s)) (in_order v)"
    and "exec raft_env (raft_code (L_awaitLeaderTTL d)) [w, v] s = (s', es, st)"
  shows "if in_now v < peer_ttl p
    then s' = s \<and> st = Jumped (L_awaitLeaderTTL (time_Sub (peer_ttl p) (in_now v)))
    else raft_role s' = CANDIDATE \<and> st = Jumped L_startRAFT"
proof -
  have gl: "GetLeaderTimeout (in_now v) (in_order v) (raft_peers s) =
    (if peer_ttl p < in_now v
     then ((raft_peers s)\<lparr>rt_table := map_set k (peer_deactivatePeer p) (rt_table (raft_peers s))\<rparr>, 0,
           Some ''LEADER TIMEOUT'')
     else (raft_peers s, time_Sub (peer_ttl p) (in_now v), nil_error))"
    using GetLeaderTimeout_only [OF assms(1,3)] .
  show ?thesis
    using assms(2-4)
    by (auto simp: r_awaitLeaderTTL_def r_afterWatch_def exec_simps raft_simps CheckLeaderTimeout_def gl
        TIME_RANGE_HEARTBEAT_def time_Sub_def emit_eq_iff split: if_splits)
qed

theorem silent_leader_replaced_witness:
  "let s = set_peers (fst (UpdateTTL ''b'' 0 (raft_peers (demo_node MEMBER 2 [] ''b''))))
             (demo_node MEMBER 2 [] ''b'')
   in raft_role (fst (exec raft_env (raft_code (L_awaitLeaderTTL 1000000000))
        [input0, demo_visit\<lparr>in_now := 20000000000\<rparr>] s)) = CANDIDATE"
proof -
  let ?s = "set_peers (fst (UpdateTTL ''b'' 0 (raft_peers (demo_node MEMBER 2 [] ''b''))))
    (demo_node MEMBER 2 [] ''b'')"
  let ?v = "demo_visit\<lparr>in_now := 20000000000\<rparr>"
  let ?p = "\<lparr>peer_ttl = 20000000000, peer_host = [], peer_active = True, peer_addr = ''b'',
    peer_role = LEADER, peer_term = 0\<rparr>"
  have h: "only_leader ''b'' ?p (raft_peers ?s)" "in_select input0 = Sel_main"
    "range_order (rt_table (raft_peers ?s)) (in_order ?v)"
    by code_simp+
  obtain s' es st where
    run: "exec raft_env (raft_code (L_awaitLeaderTTL 1000000000)) [input0, ?v] ?s = (s', es, st)"
    by (metis prod_cases3)
  from silent_leader_replaced [OF h run] show ?thesis by (simp add: run Let_def del: raft_code.simps)
qed

end
