(* ===== verification/Raft_Replication.thy ===== *)
theory Raft_Replication
  imports Raft_Voting
begin

text \<open>
  Properties of replication: what a member, a candidate and a leader answer to an append
  request, when a command is committed, what a leader serves to a member that lags behind,
  and that the two sides together bring the member's log up to the leader's.
\<close>

section \<open>Catching up, both sides\<close>

text \<open>A request for the entry with number \<open>index\<close> as the leader receives it.\<close>

definition fetch_rpc :: "TCPAddr \<Rightarrow> goint \<Rightarrow> string \<Rightarrow> goint \<Rightarrow> RPC" where
  "fetch_rpc caller t ladr index =
     \<lparr>rpc_P = NewPacket (Some caller) (PL_FetchMissingEntries \<lparr>fm_Term = t, fm_LeaderAddr = ladr,
        fm_LogIndex = index, fm_NewObject = KubeCmd0\<rparr>) FETCH_MISSING_ENTRIES,
      rpc_Done = 0\<rparr>"

text \<open>What the member gets: the leader's reply, or nothing before the time-out.\<close>

definition leader_answer :: "RAFT \<Rightarrow> RPC \<Rightarrow> raft_input" where
  "leader_answer leader rpc =
     (case replies (fst (snd (exec raft_env (handleRpc rpc) [input0, input0] leader))) of
        [] \<Rightarrow> input0\<lparr>in_outcome := Timed_out\<rparr>
      | (ch, pl) # _ \<Rightarrow> input0\<lparr>in_outcome := Answered pl\<rparr>)"

definition entry_reply :: "goint \<Rightarrow> KubeCmd \<Rightarrow> payload" where
  "entry_reply index obj = PL_FetchMissingEntries \<lparr>fm_Term = 0, fm_LeaderAddr = [],
     fm_LogIndex = index, fm_NewObject = obj\<rparr>"

lemma fetch_request_run:
  assumes "known_caller rpc s" and "pk_Type (rpc_P rpc) = FETCH_MISSING_ENTRIES"
    and "data = fst (decodePayload_FetchMissingEntries (pk_Data (rpc_P rpc)))"
  shows "exec raft_env (handleRpc rpc) (v # w # ins) s =
    (if fm_Term data \<le> raft_term s \<and> raft_role s = LEADER \<and> fm_LogIndex data \<le> getLengthLog s
     then case getLogItem (fm_LogIndex data) s of
         Panic \<Rightarrow> (contacted rpc (in_now v) s, [Ev_Now], Crashed)
       | Value item \<Rightarrow> (contacted rpc (in_now v) s, [Ev_Now, Ev_Reply (rpc_Done rpc)
           (NewPacket (Some \<lparr>tcp_IP = fm_LeaderAddr data, tcp_Port = raft_raftPort s\<rparr>)
             (entry_reply (fm_LogIndex data) item) FETCH_MISSING_ENTRIES)], Returned)
     else (contacted rpc (in_now v) s, [Ev_Now], Returned))"
proof -
  have "getLogItem i (contacted rpc t s) = getLogItem i s" for i t
    by (simp add: getLogItem_def raft_simps)
  then show ?thesis
    unfolding exec_FETCH [OF assms(1,2)] assms(3) [symmetric]
    by (auto simp: exec_FETCH_MISSING exec_simps raft_simps entry_reply_def split: checked.split)
qed

lemma fetch_rpc_fields:
  "pk_Type (rpc_P (fetch_rpc c t a i)) = FETCH_MISSING_ENTRIES"
  "fst (decodePayload_FetchMissingEntries (pk_Data (rpc_P (fetch_rpc c t a i)))) =
     \<lparr>fm_Term = t, fm_LeaderAddr = a, fm_LogIndex = i, fm_NewObject = KubeCmd0\<rparr>"
  "known_caller (fetch_rpc c t a i) s \<longleftrightarrow> IsPeer (tcp_IP c) (raft_peers s)"
  by (simp_all add: fetch_rpc_def NewPacket_def decodePayload_FetchMissingEntries_def known_caller_def)

lemma leader_answer_entry:
  assumes "raft_role l = LEADER" and "log_ok l" and "IsPeer (tcp_IP c) (raft_peers l)"
    and "t \<le> raft_term l" and "i < length (raft_commitLog l)" and "is_goint (int (length (raft_commitLog l)))"
  shows "leader_answer l (fetch_rpc c t ladr (int i + 1)) =
    input0\<lparr>in_outcome := Answered (entry_reply (int i + 1) (raft_commitLog l ! i))\<rparr>"
proof -
  have "int i + 1 \<le> int (length (raft_commitLog l))" using assms(5) by simp
  moreover have "is_goint (int i + 1)" using assms(5,6) by (simp add: is_goint_def)
  ultimately have "getLogItem (int i + 1) l = Value (raft_commitLog l ! i)" "int i + 1 \<le> getLengthLog l"
    using assms(2,5) by (simp_all add: getLogItem_ok getLengthLog_ok)
  then show ?thesis
    using assms(1,3,4)
      fetch_request_run [of "fetch_rpc c t ladr (int i + 1)" l _ input0 input0 "[]", OF _ _ refl]
    by (simp add: leader_answer_def fetch_rpc_fields NewPacket_def)
qed

lemma fold_addCommit:
  "fold addCommit cs s = s\<lparr>raft_commitLog := raft_commitLog s @ cs, raft_toCluster := raft_toCluster s @ cs\<rparr>"
  by (induction cs arbitrary: s) (auto simp: addCommit_def)

lemma exec_fetchLoop:
  assumes "list_all proper_cmd log" and "is_goint (int (length log))"
    and "raft_commitLog s = take n log" and "n + k \<le> length log"
  shows "\<exists>es. replies es = [] \<and>
    exec raft_env (r_fetchLoop k t ladr p)
      (map (\<lambda>i. input0\<lparr>in_outcome := Answered (entry_reply (int i + 1) (log ! i))\<rparr>) [n ..< n + k] @ ins) s =
    foldr emit es (exec raft_env p ins (fold addCommit (take k (drop n log)) s))"
  using assms(3,4)
proof (induction k arbitrary: n s)
  case 0
  then show ?case by (intro exI [of _ "[]"]) simp
next
  case (Suc k)
  let ?c = "log ! n"
  have c: "proper_cmd ?c" using assms(1) Suc.prems(2) by (simp add: list_all_length)
  have "log_ok s"
    using assms(1) by (auto simp: log_ok_def Suc.prems(1) list_all_iff dest: in_set_takeD)
  then have len: "getLengthLog s = int n" using Suc.prems by (simp add: getLengthLog_ok)
  have idx: "add64 (int n) 1 = int n + 1"
    using assms(2) Suc.prems(2) by (intro add64_exact) (simp add: is_goint_def)
  have "raft_commitLog (addCommit ?c s) = take (Suc n) log"
    using Suc.prems by (simp add: raft_simps take_Suc_conv_app_nth)
  from Suc.IH [OF this] Suc.prems(2) obtain es where es: "replies es = []"
    "exec raft_env (r_fetchLoop k t ladr p)
      (map (\<lambda>i. input0\<lparr>in_outcome := Answered (entry_reply (int i + 1) (log ! i))\<rparr>) [Suc n ..< Suc n + k] @ ins)
      (addCommit ?c s) =
    foldr emit es (exec raft_env p ins (fold addCommit (take k (drop (Suc n) log)) (addCommit ?c s)))"
    by auto
  have upt: "[n ..< Suc (n + k)] = n # [Suc n ..< Suc (n + k)]" by (simp add: upt_conv_Cons)
  have drop: "take (Suc k) (drop n log) = ?c # take k (drop (Suc n) log)"
    using Suc.prems(2) by (simp flip: Cons_nth_drop_Suc)
  let ?e = "Ev_Request ladr (PL_FetchMissingEntries \<lparr>fm_Term = t, fm_LeaderAddr = ladr,
      fm_LogIndex = int n + 1, fm_NewObject = KubeCmd0\<rparr>) FETCH_MISSING_ENTRIES"
  have "replies (?e # es) = []" using es(1) by simp
  moreover have "exec raft_env (r_fetchLoop (Suc k) t ladr p)
      (map (\<lambda>i. input0\<lparr>in_outcome := Answered (entry_reply (int i + 1) (log ! i))\<rparr>) [n ..< n + Suc k] @ ins) s =
    foldr emit (?e # es) (exec raft_env p ins (fold addCommit (take (Suc k) (drop n log)) s))"
    using c es(2)
    by (simp add: upt drop exec_simps len idx Let_def r_sendFetchObjectAtIndex_def entry_reply_def
        decodePayload_FetchMissingEntries_def proper_cmd_def del: upt_Suc)
  ultimately show ?case by blast
qed

lemma exec_catchUp:
  assumes "range_order (rt_table (raft_peers s)) (in_order v)"
    and "is_goint (ae_LogIndex data - getLengthLog s)"
  shows "exec raft_env (r_catchUp ch data) (v # ins) s =
    emit Ev_Visit (exec raft_env
      (r_fetchLoop (nat (ae_LogIndex data - getLengthLog s)) (raft_term s)
        (fst (GetLeaderAddr (in_order v) (raft_peers s))) (r_sendReplyObjectCommited ch True Return)) ins s)"
  using assms by (simp add: r_catchUp_def exec_simps sub64_exact state_reads Let_def case_prod_beta)

lemma replies_append [simp]: "replies (es @ fs) = replies es @ replies fs"
  by (induction es rule: replies.induct) auto

section \<open>Properties\<close>

text \<open>C24:
  a member that gets an append request of its own or an older term, and is not behind it:
  a heartbeat that matches its log is not answered; a new object at its log's end is
  confirmed; and any request that is behind the member's log is confirmed too, even though
  the leader's log is the shorter one. The member's log does not change in any of them.
\<close>
theorem append_request_answers:
  assumes "known_caller rpc s" and "pk_Type (rpc_P rpc) = APPEND_ENTRY"
    and "data = fst (decodePayload_AppendEntry (pk_Data (rpc_P rpc)))"
    and "raft_role s = MEMBER" and "ae_Term data \<le> raft_term s"
    and "ae_LogIndex data \<le> getLengthLog s" and "is_goint (ae_LogIndex data - getLengthLog s)"
    and "range_order (rt_table (raft_peers s)) (in_order v)"
    and "exec raft_env (handleRpc rpc) [v, v, v, v] s = (s', es, st)"
  shows "s' = contacted rpc (in_now v) s \<and> st = Returned \<and>
    replies es =
      (if ae_LogIndex data = getLengthLog s \<and> ae_NewObject data = KubeCmd0 then []
       else [(rpc_Done rpc, PL_AppendEntryResponse \<lparr>ar_Term = raft_term s,
               ar_LeaderAddr = fst (GetLeaderAddr (in_order v) (raft_peers s')),
               ar_LogIndex = getLengthLog s, ar_Confirmed = True\<rparr>)])"
proof -
  let ?c = "contacted rpc (in_now v) s"
  have up: "exec raft_env (r_catchUp (rpc_Done rpc) data) [v, v, v] ?c =
    emit Ev_Visit (exec raft_env (r_sendReplyObjectCommited (rpc_Done rpc) True Return) [v, v] ?c)"
    using assms(6-8) by (intro exec_catchUp_none) (simp_all add: exec_simps raft_simps)
  have "exec raft_env (handleRpc rpc) [v, v, v, v] s =
    emit Ev_Now (exec raft_env (handle_APPEND_ENTRY (rpc_Done rpc) data) [v, v, v] ?c)"
    using exec_APPEND_ENTRY [OF assms(1,2), of v "[v, v, v]"] by (simp add: assms(3))
  with assms(9) have run: "exec raft_env (handle_APPEND_ENTRY (rpc_Done rpc) data) [v, v, v] ?c = (s', tl es, st)"
    and es: "es = Ev_Now # tl es"
    by (auto simp: emit_eq_iff)
  consider "ae_LogIndex data = getLengthLog s" "ae_NewObject data = KubeCmd0"
    | "ae_LogIndex data = getLengthLog s" "ae_NewObject data \<noteq> KubeCmd0"
    | "ae_LogIndex data < getLengthLog s" using assms(6) by linarith
  then show ?thesis
  proof cases
    case 1
    with run assms(4,5) es show ?thesis
      by (cases es) (auto simp: exec_APPEND decide_append_def raft_simps)
  next
    case 2
    with run assms(4,5,8) es show ?thesis
      by (cases es) (auto simp: exec_APPEND decide_append_def raft_simps exec_simps Let_def NewPacket_def)
  next
    case 3
    with run assms(4,5,8) es show ?thesis
      by (cases es) (auto simp: exec_APPEND decide_append_def up raft_simps exec_simps Let_def NewPacket_def)
  qed
qed

definition demo_append :: "string \<Rightarrow> goint \<Rightarrow> goint \<Rightarrow> KubeCmd \<Rightarrow> RPC" where
  "demo_append from t n obj =
     \<lparr>rpc_P = NewPacket (Some \<lparr>tcp_IP = from, tcp_Port = 9996\<rparr>)
        (PL_AppendEntry \<lparr>ae_Term = t, ae_LeaderAddr = from, ae_LogIndex = n, ae_NewObject = obj,
           ae_Confirmed = False\<rparr>) APPEND_ENTRY,
      rpc_Done = 9\<rparr>"

text \<open>Term 2 has a longer log than the caller in term 1, and still confirms.\<close>

theorem append_request_answers_witness:
  "replies (fst (snd (exec raft_env (handleRpc (demo_append ''b'' 1 0 KubeCmd0))
     [demo_visit, demo_visit, demo_visit, demo_visit] (demo_node MEMBER 2 [demo_cmd] ''b'')))) =
   [(9, PL_AppendEntryResponse \<lparr>ar_Term = 2, ar_LeaderAddr = ''b'', ar_LogIndex = 1, ar_Confirmed = True\<rparr>)]"
proof -
  let ?rpc = "demo_append ''b'' 1 0 KubeCmd0" and ?s = "demo_node MEMBER 2 [demo_cmd] ''b''"
  let ?data = "\<lparr>ae_Term = 1, ae_LeaderAddr = ''b'', ae_LogIndex = 0, ae_NewObject = KubeCmd0,
    ae_Confirmed = False\<rparr>"
  have h: "known_caller ?rpc ?s" "pk_Type (rpc_P ?rpc) = APPEND_ENTRY"
    "?data = fst (decodePayload_AppendEntry (pk_Data (rpc_P ?rpc)))"
    "raft_role ?s = MEMBER" "ae_Term ?data \<le> raft_term ?s"
    "ae_LogIndex ?data \<le> getLengthLog ?s" "is_goint (ae_LogIndex ?data - getLengthLog ?s)"
    "range_order (rt_table (raft_peers ?s)) (in_order demo_visit)"
    by code_simp+
  obtain s' es st where
    run: "exec raft_env (handleRpc ?rpc) [demo_visit, demo_visit, demo_visit, demo_visit] ?s = (s', es, st)"
    by (metis prod_cases3)
  have v: "getLengthLog ?s = 1" "rpc_Done ?rpc = 9" "raft_term ?s = 2"
    "fst (GetLeaderAddr (in_order demo_visit) (raft_peers (contacted ?rpc (in_now demo_visit) ?s))) = ''b''"
    by code_simp+
  from append_request_answers [OF h run] v show ?thesis by (simp add: run)
qed

text \<open>
  An append request of a newer term raises the term and nothing else: a leader of the older
  term stays leader (now of the newer term), the sender is not taken as leader, the object of
  the request is not looked at, no reply is sent, and the handler blocks for ever. Only a
  candidate with a shorter log is treated differently.
\<close>
theorem append_newer_term_keeps_role:
  assumes "known_caller rpc s" and "pk_Type (rpc_P rpc) = APPEND_ENTRY"
    and "data = fst (decodePayload_AppendEntry (pk_Data (rpc_P rpc)))"
    and "raft_term s < ae_Term data"
    and "raft_role s \<noteq> CANDIDATE \<or> ae_LogIndex data \<le> getLengthLog s" and "raft_newTerm s = NilChan"
  shows "exec raft_env (handleRpc rpc) (v # ins) s =
    ((contacted rpc (in_now v) s)\<lparr>raft_term := ae_Term data\<rparr>, [Ev_Now], Blocked)"
proof -
  have "decide_append (raft_role s) (raft_term s) (getLengthLog s) (ae_Term data)
      (ae_LogIndex data) (ae_NewObject data = KubeCmd0) = Take_term"
    using assms(4,5) by (auto simp: decide_append_def)
  then show ?thesis
    unfolding exec_APPEND_ENTRY [OF assms(1,2)] assms(3) [symmetric]
    using assms(6) by (simp add: exec_APPEND raft_simps exec_simps updateTerm_def)
qed

theorem append_newer_term_keeps_role_witness:
  "raft_role (fst (exec raft_env (handleRpc (demo_append ''c'' 7 0 demo_cmd)) [demo_visit]
     (demo_node LEADER 2 [] []))) = LEADER"
proof -
  let ?rpc = "demo_append ''c'' 7 0 demo_cmd" and ?s = "demo_node LEADER 2 [] []"
  let ?data = "\<lparr>ae_Term = 7, ae_LeaderAddr = ''c'', ae_LogIndex = 0, ae_NewObject = demo_cmd,
    ae_Confirmed = False\<rparr>"
  have h: "known_caller ?rpc ?s" "pk_Type (rpc_P ?rpc) = APPEND_ENTRY"
    "?data = fst (decodePayload_AppendEntry (pk_Data (rpc_P ?rpc)))" "raft_term ?s < ae_Term ?data"
    "raft_role ?s \<noteq> CANDIDATE \<or> ae_LogIndex ?data \<le> getLengthLog ?s" "raft_newTerm ?s = NilChan"
    "raft_role ?s = LEADER"
    by code_simp+
  from append_newer_term_keeps_role [OF h(1-6)] h(7) show ?thesis by (simp add: raft_simps)
qed

text \<open>C11:
  a command of the command line on a leader is proposed once to every peer with an address;
  it enters the log (and goes to the cluster) exactly when at least one reply arrived and the
  replies that confirm reach the quorum, counted over all replies; nothing else changes.
\<close>
theorem leader_commits_iff_quorum:
  assumes "raft_role s = LEADER" and "range_order (rt_table (raft_peers s)) (in_order v)"
    and "length (in_votes w) \<le> length (nonempty_addrs (in_order v))"
  shows "exec raft_env (handleCli cmd) [v, w] s =
    (if in_votes w \<noteq> [] \<and> raft_quorum s \<le> int (length (filter pl_Confirmed (in_votes w)))
     then addCommit cmd s else s,
     [Ev_Visit, Ev_Gather (nonempty_addrs (in_order v)) (proposal cmd s) APPEND_ENTRY], Returned)"
  unfolding handleCli_def exec_commit_leader [OF assms] by (simp add: collect_confirms_iff)

theorem leader_commits_iff_quorum_witness:
  "raft_commitLog (fst (exec raft_env (handleCli demo_cmd) [demo_visit, input0\<lparr>in_votes := [demo_confirm]\<rparr>]
     (demo_node LEADER 2 [] []))) = [demo_cmd]"
proof -
  let ?s = "demo_node LEADER 2 [] []" and ?w = "input0\<lparr>in_votes := [demo_confirm]\<rparr>"
  have h: "raft_role ?s = LEADER" "range_order (rt_table (raft_peers ?s)) (in_order demo_visit)"
    "length (in_votes ?w) \<le> length (nonempty_addrs (in_order demo_visit))"
    by code_simp+
  have "raft_quorum ?s = 1" "pl_Confirmed demo_confirm" "raft_commitLog ?s = []" by code_simp+
  then show ?thesis
    unfolding leader_commits_iff_quorum [OF h] by (simp add: raft_simps)
qed

text \<open>C17:
  a leader that gets a write from a member whose log is as long as its own commits it exactly
  when the quorum confirms, and replies with a confirmation exactly then (a failed vote is
  not answered at all); a write from a member whose log differs in length is denied at once.
\<close>
theorem leader_write_spec:
  assumes "known_caller rpc s" and "pk_Type (rpc_P rpc) = APPEND_ENTRY"
    and "data = fst (decodePayload_AppendEntry (pk_Data (rpc_P rpc)))"
    and "raft_role s = LEADER" and "ae_Term data \<le> raft_term s" and "ae_NewObject data \<noteq> KubeCmd0"
    and "range_order (rt_table (raft_peers s)) (in_order v)"
    and "length (in_votes w) \<le> length (nonempty_addrs (in_order v))"
    and "exec raft_env (handleRpc rpc) [v, v, w, v, v] s = (s', es, st)"
  shows "if ae_LogIndex data = getLengthLog s
    then if in_votes w \<noteq> [] \<and> raft_quorum s \<le> int (length (filter pl_Confirmed (in_votes w)))
      then s' = addCommit (ae_NewObject data) (contacted rpc (in_now v) s) \<and>
        (\<exists>a. replies es = [(rpc_Done rpc, PL_AppendEntryResponse \<lparr>ar_Term = raft_term s, ar_LeaderAddr = a,
               ar_LogIndex = getLengthLog s + 1, ar_Confirmed = True\<rparr>)])
      else s' = contacted rpc (in_now v) s \<and> replies es = []
    else s' = contacted rpc (in_now v) s \<and>
      (\<exists>a. replies es = [(rpc_Done rpc, PL_AppendEntryResponse \<lparr>ar_Term = raft_term s, ar_LeaderAddr = a,
             ar_LogIndex = getLengthLog s, ar_Confirmed = False\<rparr>)])"
proof -
  let ?c = "contacted rpc (in_now v) s"
  from assms(9) have run: "exec raft_env (handle_APPEND_ENTRY (rpc_Done rpc) data) [v, w, v, v] ?c = (s', tl es, st)"
    and es: "es = Ev_Now # tl es"
    using exec_APPEND_ENTRY [OF assms(1,2), of v "[v, w, v, v]"]
    by (auto simp: emit_eq_iff assms(3) [symmetric])
  have c: "raft_role ?c = LEADER" "range_order (rt_table (raft_peers ?c)) (in_order v)"
    using assms(4,7) by (simp_all add: raft_simps exec_simps)
  show ?thesis
    using run es assms(4-7)
    by (cases es)
      (auto simp: exec_APPEND decide_append_def exec_commit_leader [OF c assms(8)] collect_confirms_iff
        raft_simps exec_simps Let_def NewPacket_def)
qed

theorem leader_write_spec_witness:
  "raft_commitLog (fst (exec raft_env (handleRpc (demo_append ''c'' 2 0 demo_cmd))
     [demo_visit, demo_visit, input0\<lparr>in_votes := [demo_confirm]\<rparr>, demo_visit, demo_visit]
     (demo_node LEADER 2 [] []))) = [demo_cmd]"
proof -
  let ?rpc = "demo_append ''c'' 2 0 demo_cmd" and ?s = "demo_node LEADER 2 [] []"
  let ?w = "input0\<lparr>in_votes := [demo_confirm]\<rparr>"
  let ?data = "\<lparr>ae_Term = 2, ae_LeaderAddr = ''c'', ae_LogIndex = 0, ae_NewObject = demo_cmd,
    ae_Confirmed = False\<rparr>"
  have h: "known_caller ?rpc ?s" "pk_Type (rpc_P ?rpc) = APPEND_ENTRY"
    "?data = fst (decodePayload_AppendEntry (pk_Data (rpc_P ?rpc)))"
    "raft_role ?s = LEADER" "ae_Term ?data \<le> raft_term ?s" "ae_NewObject ?data \<noteq> KubeCmd0"
    "range_order (rt_table (raft_peers ?s)) (in_order demo_visit)"
    "length (in_votes ?w) \<le> length (nonempty_addrs (in_order demo_visit))"
    by code_simp+
  obtain s' es st where
    run: "exec raft_env (handleRpc ?rpc) [demo_visit, demo_visit, ?w, demo_visit, demo_visit] ?s = (s', es, st)"
    by (metis prod_cases3)
  have v: "raft_quorum ?s = 1" "pl_Confirmed demo_confirm" "raft_commitLog ?s = []" "getLengthLog ?s = 0"
    by code_simp+
  from leader_write_spec [OF h run] v show ?thesis by (simp add: run raft_simps)
qed

text \<open>C18:
  a command of the command line on a member with a live leader is sent to that leader once,
  with the member's own log length; the member adds it to its log exactly when the leader's
  answer confirms. A failed or timed-out request and a denial leave the log as it was.
\<close>
theorem member_commits_iff_confirmed:
  assumes "raft_role s = MEMBER" and "only_leader k p (raft_peers s)" and "in_now v \<le> peer_ttl p"
    and "\<not> peer_IsLeader (rt_self (raft_peers s))"
    and "range_order (rt_table (raft_peers s)) (in_order v)"
    and "range_order (rt_table (raft_peers s)) (in_order w)"
  shows "exec raft_env (handleCli cmd) [v, w, x] s =
    (if confirms (in_outcome x) then addCommit cmd s else s,
     [Ev_Visit, Ev_Visit, Ev_Request k (forwarded_write cmd k s) APPEND_ENTRY], Returned)"
proof -
  have gl: "GetLeaderTimeout (in_now v) (in_order v) (raft_peers s) =
    (raft_peers s, time_Sub (peer_ttl p) (in_now v), nil_error)"
    using GetLeaderTimeout_only [OF assms(2,5), of "in_now v"] assms(3) by simp
  have "GetLeaderAddr (in_order w) (raft_peers s) = (k, nil_error)"
    using assms(4) only_leader_find [OF assms(2,6)] by (simp add: GetLeaderAddr_def)
  then show ?thesis
    unfolding handleCli_def exec_commit_member [OF assms(1) gl assms(5,6)] by simp
qed

theorem member_commits_iff_confirmed_witness:
  "raft_commitLog (fst (exec raft_env (handleCli demo_cmd)
     [demo_visit, demo_visit, input0\<lparr>in_outcome := Answered demo_confirm\<rparr>]
     (demo_node MEMBER 2 [] ''b''))) = [demo_cmd]"
proof -
  let ?s = "demo_node MEMBER 2 [] ''b''" and ?p = "(InitPeer ''b'' [])\<lparr>peer_role := LEADER\<rparr>"
  have h: "raft_role ?s = MEMBER" "only_leader ''b'' ?p (raft_peers ?s)" "in_now demo_visit \<le> peer_ttl ?p"
    "\<not> peer_IsLeader (rt_self (raft_peers ?s))"
    "range_order (rt_table (raft_peers ?s)) (in_order demo_visit)"
    by code_simp+
  have "confirms (in_outcome (input0\<lparr>in_outcome := Answered demo_confirm\<rparr>))" "raft_commitLog ?s = []"
    by code_simp+
  then show ?thesis
    unfolding member_commits_iff_confirmed [OF h(1-5) h(5)] by (simp add: raft_simps)
qed

text \<open>
  A request for entry number \<open>i\<close>: a leader whose term is not behind serves entries 1 up to
  its log length, each as it stands in the log, and answers number 0 with the zero command;
  every other node, and a leader asked for more than it has or in a newer term, sends nothing.
\<close>
theorem fetch_request_spec:
  assumes "known_caller rpc s" and "pk_Type (rpc_P rpc) = FETCH_MISSING_ENTRIES"
    and "data = fst (decodePayload_FetchMissingEntries (pk_Data (rpc_P rpc)))"
    and "log_ok s" and "0 \<le> fm_LogIndex data" and "is_goint (int (length (raft_commitLog s)))"
    and "exec raft_env (handleRpc rpc) [v, w] s = (s', es, st)"
  shows "s' = contacted rpc (in_now v) s \<and> st = Returned \<and>
    replies es =
      (if fm_Term data \<le> raft_term s \<and> raft_role s = LEADER \<and>
          fm_LogIndex data \<le> int (length (raft_commitLog s))
       then [(rpc_Done rpc, entry_reply (fm_LogIndex data)
               (if fm_LogIndex data = 0 then KubeCmd0
                else raft_commitLog s ! nat (fm_LogIndex data - 1)))]
       else [])"
proof -
  have item: "getLogItem (fm_LogIndex data) s = Value (raft_commitLog s ! nat (fm_LogIndex data - 1))"
    if "fm_LogIndex data \<noteq> 0" "fm_LogIndex data \<le> int (length (raft_commitLog s))"
  proof -
    have "getLogItem (int (nat (fm_LogIndex data - 1)) + 1) s =
        Value (raft_commitLog s ! nat (fm_LogIndex data - 1))"
      using assms(4-6) that by (intro getLogItem_ok) (auto simp: is_goint_def)
    then show ?thesis using assms(5) that by simp
  qed
  have "getLogItem 0 s = Value KubeCmd0" by (simp add: getLogItem_def)
  with item show ?thesis
    using fetch_request_run [OF assms(1-3), of v w "[]"] assms(4,7)
    by (auto simp: getLengthLog_ok NewPacket_def split: if_splits)
qed

theorem fetch_request_spec_witness:
  "replies (fst (snd (exec raft_env (handleRpc (fetch_rpc \<lparr>tcp_IP = ''b'', tcp_Port = 1\<rparr> 2 ''a'' 1))
     [input0, input0] (demo_node LEADER 2 [demo_cmd] [])))) = [(0, entry_reply 1 demo_cmd)]"
proof -
  let ?rpc = "fetch_rpc \<lparr>tcp_IP = ''b'', tcp_Port = 1\<rparr> 2 ''a'' 1" and ?s = "demo_node LEADER 2 [demo_cmd] []"
  let ?data = "\<lparr>fm_Term = 2, fm_LeaderAddr = ''a'', fm_LogIndex = 1, fm_NewObject = KubeCmd0\<rparr>"
  have h: "known_caller ?rpc ?s" "pk_Type (rpc_P ?rpc) = FETCH_MISSING_ENTRIES"
    "?data = fst (decodePayload_FetchMissingEntries (pk_Data (rpc_P ?rpc)))" "log_ok ?s"
    "0 \<le> fm_LogIndex ?data" "is_goint (int (length (raft_commitLog ?s)))"
    by code_simp+
  obtain s' es st where run: "exec raft_env (handleRpc ?rpc) [input0, input0] ?s = (s', es, st)"
    by (metis prod_cases3)
  have v: "raft_term ?s = 2" "raft_role ?s = LEADER" "raft_commitLog ?s = [demo_cmd]" "rpc_Done ?rpc = 0"
    by code_simp+
  from fetch_request_spec [OF h run] v show ?thesis by (simp add: run)
qed

text \<open>
  A request for a negative entry number from any peer, in a term the leader has reached, stops
  the leader's program: the index is checked against the log length from above only.
\<close>
theorem negative_fetch_index_crashes:
  assumes "known_caller rpc s" and "pk_Type (rpc_P rpc) = FETCH_MISSING_ENTRIES"
    and "data = fst (decodePayload_FetchMissingEntries (pk_Data (rpc_P rpc)))"
    and "raft_role s = LEADER" and "fm_Term data \<le> raft_term s"
    and "fm_LogIndex data < 0" and "is_goint (fm_LogIndex data - 1)"
  shows "snd (snd (exec raft_env (handleRpc rpc) (v # w # ins) s)) = Crashed"
proof -
  have "getLogItem (fm_LogIndex data) s = Panic"
    using assms(6,7) by (simp add: getLogItem_def index_at_def sub64_exact)
  moreover have "fm_LogIndex data \<le> getLengthLog s"
    using assms(6) getLengthLog_nonneg [of s] by linarith
  ultimately show ?thesis using assms(4,5) by (simp add: fetch_request_run [OF assms(1-3)])
qed

theorem negative_fetch_index_crashes_witness:
  "snd (snd (exec raft_env (handleRpc (fetch_rpc \<lparr>tcp_IP = ''b'', tcp_Port = 1\<rparr> 0 ''a'' (-1)))
     [input0, input0] (demo_node LEADER 2 [] []))) = Crashed"
proof -
  let ?rpc = "fetch_rpc \<lparr>tcp_IP = ''b'', tcp_Port = 1\<rparr> 0 ''a'' (-1)" and ?s = "demo_node LEADER 2 [] []"
  let ?data = "\<lparr>fm_Term = 0, fm_LeaderAddr = ''a'', fm_LogIndex = -1, fm_NewObject = KubeCmd0\<rparr>"
  have h: "known_caller ?rpc ?s" "pk_Type (rpc_P ?rpc) = FETCH_MISSING_ENTRIES"
    "?data = fst (decodePayload_FetchMissingEntries (pk_Data (rpc_P ?rpc)))" "raft_role ?s = LEADER"
    "fm_Term ?data \<le> raft_term ?s" "fm_LogIndex ?data < 0" "is_goint (fm_LogIndex ?data - 1)"
    by code_simp+
  show ?thesis by (rule negative_fetch_index_crashes [OF h])
qed

text \<open>C8:
  a member whose log is a part of the leader's, and that gets a heartbeat with a longer log
  length, fetches the missing entries one by one; with the answers the leader's own handler
  gives, its log becomes that part of the leader's log the heartbeat announced, for each
  fetched entry one goroutine is started that sends it to the kube client, and the heartbeat
  is then confirmed with the new length.
\<close>
theorem catch_up_completes:
  assumes "raft_role l = LEADER" and "log_ok l" and "IsPeer (tcp_IP me) (raft_peers l)"
    and "raft_term f \<le> raft_term l" and "is_goint (int (length (raft_commitLog l)))"
    and "raft_role f = MEMBER" and "raft_commitLog f = take n (raft_commitLog l)"
    and "n < m" and "m \<le> length (raft_commitLog l)"
    and "known_caller rpc f" and "pk_Type (rpc_P rpc) = APPEND_ENTRY"
    and "data = fst (decodePayload_AppendEntry (pk_Data (rpc_P rpc)))"
    and "ae_Term data \<le> raft_term f" and "ae_LogIndex data = int m"
    and "range_order (rt_table (raft_peers f)) (in_order v)"
    and "ladr = fst (GetLeaderAddr (in_order v) (raft_peers (contacted rpc (in_now v) f)))"
    and "answers = map (\<lambda>i. leader_answer l (fetch_rpc me (raft_term f) ladr (int i + 1))) [n ..< m]"
    and "exec raft_env (handleRpc rpc) (v # v # answers @ [v, v]) f = (f', es, st)"
  shows "raft_commitLog f' = take m (raft_commitLog l) \<and>
    raft_toCluster f' = raft_toCluster f @ drop n (take m (raft_commitLog l)) \<and>
    replies es = [(rpc_Done rpc, PL_AppendEntryResponse \<lparr>ar_Term = raft_term f, ar_LeaderAddr = ladr,
      ar_LogIndex = int m, ar_Confirmed = True\<rparr>)] \<and> st = Returned"
proof -
  let ?c = "contacted rpc (in_now v) f" and ?L = "raft_commitLog l"
  let ?reply = "r_sendReplyObjectCommited (rpc_Done rpc) True Return"
  have L: "list_all proper_cmd ?L" using assms(2) by (simp add: log_ok_def)
  have okc: "log_ok ?c"
    using L by (auto simp: log_ok_def raft_simps assms(7) list_all_iff dest: in_set_takeD)
  have len: "getLengthLog f = int n"
    using okc assms(8,9) by (simp add: raft_simps getLengthLog_ok assms(7))
  have k: "is_goint (ae_LogIndex data - getLengthLog ?c)" "nat (ae_LogIndex data - getLengthLog ?c) = m - n"
    using assms(5,8,9) by (simp_all add: raft_simps len assms(14) is_goint_def)
  have ans: "answers = map (\<lambda>i. input0\<lparr>in_outcome := Answered (entry_reply (int i + 1) (?L ! i))\<rparr>) [n ..< n + (m - n)]"
    using assms(8,9) by (simp add: assms(17) leader_answer_entry [OF assms(1-4) _ assms(5)])
  define f2 where "f2 = fold addCommit (take (m - n) (drop n ?L)) ?c"
  have f2: "raft_commitLog f2 = take m ?L" "raft_toCluster f2 = raft_toCluster f @ drop n (take m ?L)"
    "raft_term f2 = raft_term f" "raft_peers f2 = raft_peers ?c"
    using assms(8) by (simp_all add: f2_def fold_addCommit raft_simps assms(7) drop_take flip: take_add)
  have "log_ok f2" using L by (auto simp: log_ok_def f2(1) list_all_iff dest: in_set_takeD)
  then have len2: "getLengthLog f2 = int m" using assms(9) by (simp add: getLengthLog_ok f2(1))
  obtain gs where gs: "replies gs = []"
    and loop: "exec raft_env (r_fetchLoop (m - n) (raft_term f) ladr ?reply) (answers @ [v, v]) ?c =
      foldr emit gs (exec raft_env ?reply [v, v] f2)"
    using exec_fetchLoop [OF L assms(5), of ?c n "m - n" "raft_term f" ladr ?reply "[v, v]"] assms(7-9)
    by (auto simp: raft_simps ans f2_def)
  have "decide_append (raft_role ?c) (raft_term ?c) (getLengthLog ?c) (ae_Term data) (ae_LogIndex data)
      (ae_NewObject data = KubeCmd0) = Catch_up"
    using assms(6,8,13) by (simp add: decide_append_def raft_simps len assms(14))
  then have "exec raft_env (handleRpc rpc) (v # v # answers @ [v, v]) f =
    emit Ev_Now (emit Ev_Visit (foldr emit gs (exec raft_env ?reply [v, v] f2)))"
    using assms(15) k loop
    unfolding exec_APPEND_ENTRY [OF assms(10,11)] assms(12) [symmetric] exec_APPEND
    by (simp add: exec_catchUp exec_simps raft_simps assms(16) [symmetric])
  with assms(15,18) gs have "f2 = f'" "st = Returned"
    and "replies es = [(rpc_Done rpc, PL_AppendEntryResponse \<lparr>ar_Term = raft_term f, ar_LeaderAddr = ladr,
      ar_LogIndex = int m, ar_Confirmed = True\<rparr>)]"
    by (auto simp: foldr_emit exec_simps f2(3,4) len2 Let_def NewPacket_def assms(16) [symmetric])
  with f2(1,2) show ?thesis by simp
qed

theorem catch_up_completes_witness:
  "let l = demo_node LEADER 2 [demo_cmd, demo_cmd2, demo_cmd] []; f = demo_node MEMBER 2 [demo_cmd] ''b'';
       a = map (\<lambda>i. leader_answer l (fetch_rpc \<lparr>tcp_IP = ''c'', tcp_Port = 9996\<rparr> 2 ''b'' (int i + 1))) [1 ..< 3]
   in raft_commitLog (fst (exec raft_env (handleRpc (demo_append ''b'' 2 3 KubeCmd0))
        (demo_visit # demo_visit # a @ [demo_visit, demo_visit]) f)) = [demo_cmd, demo_cmd2, demo_cmd]"
proof -
  let ?l = "demo_node LEADER 2 [demo_cmd, demo_cmd2, demo_cmd] []" and ?f = "demo_node MEMBER 2 [demo_cmd] ''b''"
  let ?me = "\<lparr>tcp_IP = ''c'', tcp_Port = 9996\<rparr>" and ?rpc = "demo_append ''b'' 2 3 KubeCmd0"
  let ?data = "\<lparr>ae_Term = 2, ae_LeaderAddr = ''b'', ae_LogIndex = 3, ae_NewObject = KubeCmd0,
    ae_Confirmed = False\<rparr>"
  let ?a = "map (\<lambda>i. leader_answer ?l (fetch_rpc ?me 2 ''b'' (int i + 1))) [1 ..< 3]"
  have h: "raft_role ?l = LEADER" "log_ok ?l" "IsPeer (tcp_IP ?me) (raft_peers ?l)"
    "raft_term ?f \<le> raft_term ?l" "is_goint (int (length (raft_commitLog ?l)))"
    "raft_role ?f = MEMBER" "raft_commitLog ?f = take 1 (raft_commitLog ?l)"
    "(1::nat) < 3" "3 \<le> length (raft_commitLog ?l)"
    "known_caller ?rpc ?f" "pk_Type (rpc_P ?rpc) = APPEND_ENTRY"
    "?data = fst (decodePayload_AppendEntry (pk_Data (rpc_P ?rpc)))"
    "ae_Term ?data \<le> raft_term ?f" "ae_LogIndex ?data = int 3"
    "range_order (rt_table (raft_peers ?f)) (in_order demo_visit)"
    "''b'' = fst (GetLeaderAddr (in_order demo_visit) (raft_peers (contacted ?rpc (in_now demo_visit) ?f)))"
    by code_simp+
  have t: "raft_term ?f = 2" "raft_commitLog ?l = [demo_cmd, demo_cmd2, demo_cmd]" by code_simp+
  obtain f' es st where run: "exec raft_env (handleRpc ?rpc) (demo_visit # demo_visit # ?a @ [demo_visit, demo_visit]) ?f = (f', es, st)"
    by (metis prod_cases3)
  from catch_up_completes [OF h _ run] t show ?thesis by (simp add: run Let_def del: One_nat_def)
qed

end
