(* ===== verification/Goroutine_Alone.thy ===== *)
theory Goroutine_Alone
  imports Goroutine
begin

text \<open>
  What \<open>exec\<close> has to do with interleavings: a goroutine that the scheduler runs alone, from
  its start to its end, does exactly what \<open>exec\<close> computes.
\<close>

text \<open>A goroutine that never jumps to the head of a loop.\<close>

primrec no_goto :: "('s, 'e, 'i, 'l) goproc \<Rightarrow> bool" where
  "no_goto Return = True"
| "no_goto Block = True"
| "no_goto Crash = True"
| "no_goto (Goto l) = False"
| "no_goto (Atom u k) = (\<forall>s. no_goto (k s))"
| "no_goto (Io e k) = (\<forall>i. no_goto (k i))"

text \<open>A schedule that moves goroutine \<open>j\<close> only, and the answers it gives.\<close>

fun moves_only :: "nat \<Rightarrow> ('s, 'e, 'i, 'l) action \<Rightarrow> bool" where
  "moves_only j (Step k) = (k = j)"
| "moves_only j (Answer k i) = (k = j)"
| "moves_only j (Start p) = False"

fun answers :: "('s, 'e, 'i, 'l) action list \<Rightarrow> 'i list" where
  "answers [] = []"
| "answers (Answer k i # as) = i # answers as"
| "answers (_ # as) = answers as"

text \<open>Where a goroutine stands when a run ends with a status.\<close>

fun stands_at :: "'l status \<Rightarrow> ('s, 'e, 'i, 'l) goproc \<Rightarrow> bool" where
  "stands_at Returned p = (p = Return)"
| "stands_at Blocked p = (p = Block)"
| "stands_at Crashed p = (p = Crash)"
| "stands_at (Jumped l) p = (p = Goto l)"
| "stands_at Waits p = (\<exists>e k. p = Io e k)"

lemma exec_alone:
  assumes "exec ok p ins s = (s', es, st)" and "Crash \<notin> set ts"
  shows "\<exists>as rest q. ins = answers as @ rest \<and> list_all (moves_only (length ts)) as \<and> stands_at st q \<and>
    node_run code ok as (s, ts @ [p]) = Some (s', ts @ [q])"
  using assms(1)
proof (induction p arbitrary: ins s es)
  case (Atom u k)
  then have "exec ok (k s) ins (u s) = (s', es, st)" by simp
  from Atom.IH [OF _ this] obtain as rest q where
    "ins = answers as @ rest" "list_all (moves_only (length ts)) as" "stands_at st q"
    "node_run code ok as (u s, ts @ [k s]) = Some (s', ts @ [q])" by blast
  with assms(2) show ?case
    by (intro exI [of _ "Step (length ts) # as"] exI [of _ rest] exI [of _ q])
      (simp add: nth_append no_crash_iff)
next
  case (Io e k)
  show ?case
  proof (cases "\<exists>i rest. ins = i # rest \<and> ok s e i")
    case True
    then obtain i ins' where i: "ins = i # ins'" "ok s e i" by blast
    with Io.prems obtain fs where "exec ok (k i) ins' s = (s', fs, st)" by (auto simp: emit_eq_iff)
    from Io.IH [OF _ this] obtain as rest q where
      "ins' = answers as @ rest" "list_all (moves_only (length ts)) as" "stands_at st q"
      "node_run code ok as (s, ts @ [k i]) = Some (s', ts @ [q])" by blast
    with i assms(2) show ?thesis
      by (intro exI [of _ "Answer (length ts) i # as"] exI [of _ rest] exI [of _ q])
        (simp add: nth_append no_crash_iff)
  next
    case False
    with Io.prems have "s' = s" "st = Waits" by (auto split: list.splits if_splits)
    then show ?thesis by (intro exI [of _ "[]"] exI [of _ ins] exI [of _ "Io e k"]) simp
  qed
qed (auto intro: exI [of _ "[]"])

lemma alone_exec:
  assumes "node_run code ok as (s, ts @ [p]) = Some (s', ts @ [q])"
    and "list_all (moves_only (length ts)) as" and "no_goto p" and "stands_at st q" and "st \<noteq> Waits"
  shows "\<exists>es. exec ok p (answers as @ rest) s = (s', es, st)"
  using assms(1-3)
proof (induction as arbitrary: p s)
  case Nil
  with assms(4,5) show ?case by (cases st) auto
next
  case (Cons x as)
  then obtain n where x: "node_act code ok x (s, ts @ [p]) = Some n"
    and run: "node_run code ok as n = Some (s', ts @ [q])" by (auto split: option.splits)
  show ?case
  proof (cases x)
    case (Step j)
    with Cons.prems x have "j = length ts" by simp
    with x Step Cons.prems(3) obtain u k where p: "p = Atom u k" "n = (u s, ts @ [k s])"
      by (auto simp: nth_append split: if_splits goproc.splits)
    with Cons Step run show ?thesis by simp
  next
    case (Answer j i)
    with Cons.prems x have "j = length ts" by simp
    with x Answer obtain e k where p: "p = Io e k" "ok s e i" "n = (s, ts @ [k i])"
      by (auto simp: nth_append split: if_splits goproc.splits)
    with Cons.IH [of s "k i"] Cons.prems Answer run show ?thesis by auto
  next
    case (Start r)
    with Cons.prems show ?thesis by simp
  qed
qed

text \<open>Running alone is \<open>exec\<close>.\<close>

lemma exec_iff_alone:
  assumes "no_goto p" and "Crash \<notin> set ts" and "st \<noteq> Waits"
  shows "(\<exists>es. exec ok p ins s = (s', es, st)) \<longleftrightarrow>
    (\<exists>as rest q. ins = answers as @ rest \<and> list_all (moves_only (length ts)) as \<and> stands_at st q \<and>
       node_run code ok as (s, ts @ [p]) = Some (s', ts @ [q]))"
  using exec_alone [OF _ assms(2)] alone_exec [OF _ _ assms(1) _ assms(3)] by blast

end
