(* ===== verification/Raft_Alone.thy ===== *)
theory Raft_Alone
  imports Goroutine_Alone Raft_Protocol
begin

text \<open>
  Handlers that run without interference: \<open>exec\<close>, over which the properties of \<open>Raft_Voting\<close>
  and \<open>Raft_Replication\<close> are stated, is what the scheduler does with a handler that it runs
  alone, and every handler comes to an end.
\<close>

section \<open>A handler alone\<close>

lemma no_goto_steps [simp]:
  "no_goto (r_read f k) \<longleftrightarrow> (\<forall>s. no_goto (k (f s)))" "no_goto (r_write u p) \<longleftrightarrow> no_goto p"
  by (simp_all add: r_read_def r_write_def)

lemma no_goto_r [simp]:
  "(\<And>x. no_goto (k x)) \<Longrightarrow> no_goto (r_IsPeer a k)"
  "no_goto p \<Longrightarrow> no_goto (r_UpdateTTL a p)"
  "no_goto p \<Longrightarrow> no_goto (r_MakeLeader a p)"
  "no_goto p \<Longrightarrow> no_goto (r_WipeLeader p)"
  "(\<And>x. no_goto (g x)) \<Longrightarrow> no_goto (r_GetAddr g)"
  "(\<And>x. no_goto (h x)) \<Longrightarrow> no_goto (r_GetPeersAddress h)"
  "(\<And>x. no_goto (l x)) \<Longrightarrow> no_goto (r_GetLeaderAddr l)"
  "(\<And>x. no_goto (m x)) \<Longrightarrow> no_goto (r_GetLeaderTimeout m)"
  "(\<And>x. no_goto (i x)) \<Longrightarrow> no_goto (r_getLogItem n i)"
  "no_goto p \<Longrightarrow> no_goto (r_sendNewTerm p)"
  "no_goto p \<Longrightarrow> no_goto (r_sendNewLeader a p)"
  "no_goto p \<Longrightarrow> no_goto (r_sendEncodedReply a pl dt ch p)"
  by (simp_all add: r_IsPeer_def r_UpdateTTL_def r_MakeLeader_def r_WipeLeader_def r_GetAddr_def
      r_GetPeersAddress_def r_GetLeaderAddr_def r_GetLeaderTimeout_def r_getLogItem_def r_sendNewTerm_def
      r_sendNewLeader_def r_sendEncodedReply_def split: checked.split)

lemma no_goto_replies [simp]:
  "no_goto p \<Longrightarrow> no_goto (r_sendReplyObjectCommited ch st p)"
  "no_goto p \<Longrightarrow> no_goto (r_sendReplyLeaderVote ch st p)"
  "no_goto p \<Longrightarrow> no_goto (r_respondFetchMissingEntries ch obj n a p)"
  by (auto simp: r_sendReplyObjectCommited_def r_sendReplyLeaderVote_def r_respondFetchMissingEntries_def
      case_prod_beta)

lemma no_goto_commitObject [simp]: "(\<And>b. no_goto (k b)) \<Longrightarrow> no_goto (r_commitObject obj k)"
  unfolding r_commitObject_def r_requestAddObject_def r_sendLeaderWrite_def
  by (auto simp: case_prod_beta split: raft_outcome.split)

lemma no_goto_fetchLoop [simp]: "no_goto k \<Longrightarrow> no_goto (r_fetchLoop n t a k)"
  by (induction n) (auto simp: r_sendFetchObjectAtIndex_def Let_def split: raft_outcome.split)

lemma no_goto_handlers [simp]:
  "no_goto (handle_REQUEST_VOTE ch rv)" "no_goto (handle_APPEND_ENTRY ch ae)"
  "no_goto (handle_FETCH_MISSING_ENTRIES ch fm)"
  by (auto simp: handle_REQUEST_VOTE_def handle_APPEND_ENTRY_def handle_APPEND_ENTRY_rest_def
      handle_APPEND_ENTRY_current_def handle_FETCH_MISSING_ENTRIES_def r_catchUp_def Let_def case_prod_beta)

lemma no_goto_handleRpc: "no_goto (handleRpc rpc)"
  by (auto simp: handleRpc_def Let_def split: option.split)

lemma no_goto_handleCli: "no_goto (handleCli cmd)"
  by (simp add: handleCli_def)

text \<open>
  A request handler or a command that the scheduler runs alone, among any other goroutines
  that stand still, does exactly what \<open>exec\<close> computes for it: the same final state, the same
  way to end, from the same answers; so what is proved of \<open>exec\<close> holds of those runs of a
  node, and every result of \<open>exec\<close> is a run of it.
\<close>
theorem handlers_alone:
  assumes "p = handleRpc rpc \<or> p = handleCli cmd" and "Crash \<notin> set ts" and "st \<noteq> Waits"
  shows "(\<exists>es. exec raft_env p ins s = (s', es, st)) \<longleftrightarrow>
    (\<exists>as rest q. ins = answers as @ rest \<and> list_all (moves_only (length ts)) as \<and> stands_at st q \<and>
       node_run raft_code raft_env as (s, ts @ [p]) = Some (s', ts @ [q]))"
proof -
  have "no_goto p" using assms(1) no_goto_handleRpc no_goto_handleCli by auto
  from exec_iff_alone [OF this assms(2,3)] show ?thesis .
qed

theorem handlers_alone_witness:
  "\<exists>as s'. list_all (moves_only 1) as \<and> raft_term s' = 1 \<and>
     node_run raft_code raft_env as (fst demo_init, [Return, handleRpc (demo_request_vote ''b'' 1 0)]) =
       Some (s', [Return, Block])"
proof -
  let ?p = "handleRpc (demo_request_vote ''b'' 1 0)"
  have "case exec raft_env ?p (replicate 3 demo_visit) (fst demo_init) of
    (s', es, st) \<Rightarrow> st = Blocked \<and> raft_term s' = 1" by code_simp
  then obtain s' where s': "\<exists>es. exec raft_env ?p (replicate 3 demo_visit) (fst demo_init) = (s', es, Blocked)"
    "raft_term s' = 1" by (auto split: prod.splits)
  have "Crash \<notin> set [Return :: rproc]" "Blocked \<noteq> (Waits :: raft_label status)" by simp_all
  from handlers_alone [THEN iffD1, OF disjI1 [OF refl] this s'(1)] s'(2) show ?thesis by auto
qed

section \<open>Every handler ends\<close>

definition ended :: "(RAFT, raft_event, raft_label) outcome \<Rightarrow> bool" where
  "ended r \<longleftrightarrow> snd (snd r) \<in> {Returned, Blocked, Crashed}"

text \<open>
  Answers that can come in a state with this routing table: some order of its keys, and no
  more replies than peers that were asked.
\<close>

definition answer_ok :: "RAFT \<Rightarrow> raft_input \<Rightarrow> bool" where
  "answer_ok s i \<longleftrightarrow> range_order (rt_table (raft_peers s)) (in_order i) \<and>
     length (in_votes i) \<le> card (set (map_keys (rt_table (raft_peers s))) - {[]})"

lemma ended_simps [simp]:
  "ended (s, es, Returned)" "ended (s, es, Blocked)" "ended (s, es, Crashed)"
  "ended (emit e r) = ended r"
  by (simp_all add: ended_def)

lemma answer_ok_votes:
  assumes "answer_ok s i" and "range_order (rt_table (raft_peers s)) ks"
  shows "length (in_votes i) \<le> length (nonempty_addrs ks)"
proof -
  have "set (nonempty_addrs ks) = set (map_keys (rt_table (raft_peers s))) - {[]}"
    using assms(2) by (auto simp: range_order_def)
  moreover have "distinct (nonempty_addrs ks)" using assms(2) by (simp add: range_order_def)
  ultimately show ?thesis using assms(1) by (metis answer_ok_def distinct_card)
qed

lemma answer_ok_cong:
  "map_keys (rt_table (raft_peers s')) = map_keys (rt_table (raft_peers s)) \<Longrightarrow> answer_ok s' i = answer_ok s i"
  using range_order_cong [of "rt_table (raft_peers s')" "rt_table (raft_peers s)"] by (simp add: answer_ok_def)

abbreviation same_keys :: "RAFT \<Rightarrow> RAFT \<Rightarrow> bool" where
  "same_keys s s' \<equiv> map_keys (rt_table (raft_peers s')) = map_keys (rt_table (raft_peers s))"

text \<open>A goroutine that ends with \<open>n\<close> answers, in every state with the routing keys of \<open>s\<close>.\<close>

definition ends_with :: "RAFT \<Rightarrow> nat \<Rightarrow> rproc \<Rightarrow> bool" where
  "ends_with s n p \<longleftrightarrow> (\<forall>s' ins. same_keys s s' \<longrightarrow> n \<le> length ins \<longrightarrow> (\<forall>i \<in> set ins. answer_ok s i) \<longrightarrow>
     ended (exec raft_env p ins s'))"

lemma ends_withD:
  "ends_with s n p \<Longrightarrow> same_keys s s' \<Longrightarrow> n \<le> length ins \<Longrightarrow> \<forall>i \<in> set ins. answer_ok s i \<Longrightarrow>
   ended (exec raft_env p ins s')"
  by (simp add: ends_with_def)

named_theorems ends_intros

lemma ends_basic [ends_intros]: "ends_with s n Return" "ends_with s n Block" "ends_with s n Crash"
  by (simp_all add: ends_with_def)

lemma ends_read [ends_intros]: "(\<And>x. ends_with s n (k x)) \<Longrightarrow> ends_with s n (r_read f k)"
  by (simp add: ends_with_def exec_read)

lemma ends_write [ends_intros]:
  "(\<And>r. same_keys r (u r)) \<Longrightarrow> ends_with s n p \<Longrightarrow> ends_with s n (r_write u p)"
  by (simp add: ends_with_def exec_write)

lemma ends_Io [ends_intros]:
  assumes "\<And>i. ends_with s n (k i)" and "\<And>s' i. same_keys s s' \<Longrightarrow> answer_ok s i \<Longrightarrow> raft_env s' e i"
  shows "ends_with s (Suc n) (Io e k)"
  unfolding ends_with_def
proof (intro allI impI)
  fix s' ins assume a: "same_keys s s'" "Suc n \<le> length ins" "\<forall>i \<in> set ins. answer_ok s i"
  then obtain i rest where ins: "ins = i # rest" by (cases ins) auto
  with a assms(2) have "raft_env s' e i" by simp
  with a ins ends_withD [OF assms(1), of s' rest i] show "ended (exec raft_env (Io e k) ins s')" by simp
qed

lemma ends_if [ends_intros]:
  "(b \<Longrightarrow> ends_with s n p) \<Longrightarrow> (\<not> b \<Longrightarrow> ends_with s n q) \<Longrightarrow> ends_with s n (if b then p else q)"
  by simp

lemma ends_mono: "ends_with s n p \<Longrightarrow> n \<le> m \<Longrightarrow> ends_with s m p"
  by (auto simp: ends_with_def)

lemma ends_Atom:
  "(\<And>r. same_keys r (u r)) \<Longrightarrow> (\<And>r. ends_with s n (k r)) \<Longrightarrow> ends_with s n (Atom u k)"
  by (simp add: ends_with_def)

lemma env_visit: "same_keys s s' \<Longrightarrow> answer_ok s i \<Longrightarrow> raft_env s' Ev_Visit i"
  using answer_ok_cong [of s' s i] by (simp add: answer_ok_def)

lemma ends_reads [ends_intros]:
  "(\<And>x. ends_with s n (f x)) \<Longrightarrow> ends_with s n (r_IsPeer a f)"
  "(\<And>x. ends_with s n (g x)) \<Longrightarrow> ends_with s n (r_GetAddr g)"
  unfolding r_IsPeer_def r_GetAddr_def by (intro ends_read; simp)+

lemma ends_getLogItem [ends_intros]:
  "(\<And>x. ends_with s n (h x)) \<Longrightarrow> ends_with s n (r_getLogItem j h)"
  unfolding r_getLogItem_def by (intro ends_read) (simp add: ends_basic split: checked.split)

lemma ends_visits [ends_intros]:
  "(\<And>x. ends_with s n (f x)) \<Longrightarrow> ends_with s (Suc n) (r_GetLeaderAddr f)"
  "(\<And>x. ends_with s n (g x)) \<Longrightarrow> ends_with s (Suc n) (r_GetLeaderTimeout g)"
  unfolding r_GetLeaderAddr_def r_GetLeaderTimeout_def
  by (intro ends_Io ends_read env_visit ends_Atom; simp add: routing_simps)+

lemma ends_updates [ends_intros]:
  "ends_with s n p \<Longrightarrow> ends_with s (Suc n) (r_UpdateTTL a p)"
  "ends_with s n p \<Longrightarrow> ends_with s n (r_MakeLeader a p)"
  "ends_with s n p \<Longrightarrow> ends_with s n (r_WipeLeader p)"
  unfolding r_UpdateTTL_def r_MakeLeader_def r_WipeLeader_def
  by (intro ends_Io ends_write; simp add: routing_simps)+

lemma ends_sends [ends_intros]:
  "ends_with s n p \<Longrightarrow> ends_with s (Suc n) (r_sendNewTerm p)"
  "ends_with s n p \<Longrightarrow> ends_with s (Suc n) (r_sendNewLeader a p)"
  "ends_with s n p \<Longrightarrow> ends_with s (Suc n) (r_sendEncodedReply a pl dt ch p)"
  unfolding r_sendNewTerm_def r_sendNewLeader_def r_sendEncodedReply_def
  by (intro ends_Io ends_read ends_Atom ends_if ends_basic; simp)+

lemma ends_prod [ends_intros]:
  "(\<And>a b. ends_with s n (f a b)) \<Longrightarrow> ends_with s n (case p of (a, b) \<Rightarrow> f a b)"
  by (cases p) simp

lemma ends_outcome [ends_intros]:
  "ends_with s n p \<Longrightarrow> ends_with s n q \<Longrightarrow> (\<And>pl. ends_with s n (f pl)) \<Longrightarrow>
   ends_with s n (case x of Send_failed \<Rightarrow> p | Timed_out \<Rightarrow> q | Answered pl \<Rightarrow> f pl)"
  by (cases x) simp_all

lemma same_keys_state [simp]:
  "same_keys r (changeRole x r)" "same_keys r (updateTerm t r)" "same_keys r (addCommit c r)"
  by (simp_all add: raft_simps)

section \<open>The bounds\<close>

lemma ends_replies [ends_intros]:
  "ends_with s n p \<Longrightarrow> ends_with s (Suc (Suc n)) (r_sendReplyObjectCommited ch st p)"
  "ends_with s n p \<Longrightarrow> ends_with s (Suc (Suc n)) (r_sendReplyLeaderVote ch st p)"
  "ends_with s n p \<Longrightarrow> ends_with s (Suc n) (r_respondFetchMissingEntries ch obj j a p)"
  unfolding r_sendReplyObjectCommited_def r_sendReplyLeaderVote_def r_respondFetchMissingEntries_def
  by (intro ends_intros; simp)+

lemma ends_GetPeersAddress:
  assumes "\<And>ms. (\<And>i. answer_ok s i \<Longrightarrow> length (in_votes i) \<le> length (nonempty_addrs ms)) \<Longrightarrow> ends_with s n (k ms)"
  shows "ends_with s (Suc n) (r_GetPeersAddress k)"
  unfolding ends_with_def
proof (intro allI impI)
  fix s' ins assume a: "same_keys s s'" "Suc n \<le> length ins" "\<forall>i \<in> set ins. answer_ok s i"
  then obtain i rest where ins: "ins = i # rest" by (cases ins) auto
  with a(3) have ok: "answer_ok s i" by simp
  then have "range_order (rt_table (raft_peers s)) (in_order i)" by (simp add: answer_ok_def)
  from answer_ok_votes [OF _ this] have "ends_with s n (k (GetPeersAddress (in_order i) (raft_peers s')))"
    by (intro assms) (simp add: nonempty_addrs_GetPeersAddress)
  from ends_withD [OF this a(1), of rest] a ins env_visit [OF a(1) ok]
  show "ended (exec raft_env (r_GetPeersAddress k) ins s')"
    by (simp add: r_GetPeersAddress_def exec_read)
qed

lemma ends_commitObject [ends_intros]:
  assumes "\<And>b. ends_with s n (k b)"
  shows "ends_with s (n + 3) (r_commitObject obj k)"
proof -
  have add: "ends_with s (Suc (Suc n)) (r_requestAddObject obj k')" if "\<And>b. ends_with s n (k' b)" for k'
    unfolding r_requestAddObject_def
    by (intro ends_GetPeersAddress ends_intros that) simp
  have "ends_with s n (if b then r_addCommit obj (k True) else k False)" for b
    by (intro ends_intros assms) simp
  from ends_mono [OF add [OF this]] have "ends_with s (n + 3)
    (r_requestAddObject obj (\<lambda>b. if b then r_addCommit obj (k True) else k False))" by simp
  moreover have "ends_with s (n + 3) (k b)" for b by (rule ends_mono [OF assms]) simp
  moreover have "ends_with s (Suc (Suc (Suc n))) (r_GetLeaderTimeout (\<lambda>(ttl, leaderError).
      if leaderError \<noteq> nil_error then k False
      else r_GetLeaderAddr (\<lambda>(ladr, err). r_getTerm (\<lambda>t. r_getLengthLog (\<lambda>m.
        r_sendLeaderWrite t m ladr obj (\<lambda>resp. case resp of
            Send_failed \<Rightarrow> k False
          | Timed_out \<Rightarrow> k False
          | Answered packet \<Rightarrow>
              if \<not> ar_Confirmed (fst (decodePayload_AppendEntryResponse packet)) then k False
              else r_addCommit obj (k True)))))))"
    unfolding r_sendLeaderWrite_def
    by (intro ends_intros assms ends_mono [OF assms]) simp_all
  ultimately show ?thesis
    unfolding r_commitObject_def by (intro ends_read ends_if) (simp_all add: numeral_3_eq_3)
qed

lemma ends_fetchLoop:
  "ends_with s n k \<Longrightarrow> ends_with s (m + n) (r_fetchLoop m t a k)"
proof (induction m)
  case 0
  then show ?case by simp
next
  case (Suc m)
  have "ends_with s (Suc (m + n)) (r_fetchLoop (Suc m) t a k)"
    unfolding r_fetchLoop.simps r_sendFetchObjectAtIndex_def Let_def
    by (intro ends_intros Suc) simp_all
  then show ?case by simp
qed

lemma small_numbers: "(2::nat) = Suc (Suc 0)" "(4::nat) = Suc (Suc (Suc (Suc 0)))"
  "(5::nat) = Suc (Suc (Suc (Suc (Suc 0))))"
  by simp_all

lemma ends_REQUEST_VOTE: "ends_with s 4 (handle_REQUEST_VOTE ch data)"
proof -
  have "ends_with s 4 (r_sendReplyLeaderVote ch st (r_sendNewTerm Return))"
    "ends_with s 4 (Io (Ev_CloseDone ch) (\<lambda>_. r_sendNewTerm Return))"
    "ends_with s 4 (r_sendNewTerm Return)"
    "ends_with s 4 (r_sendNewLeader a (r_sendReplyLeaderVote ch st Return))"
    "ends_with s 4 (r_sendReplyLeaderVote ch st Return)" "ends_with s 4 Return" for st a
    unfolding small_numbers by (intro ends_intros; simp)+
  then show ?thesis
    unfolding handle_REQUEST_VOTE_def by (intro ends_read ends_write ends_if ends_updates) simp_all
qed

lemma ends_catchUp:
  assumes "same_keys s s'" and "nat (sub64 (ae_LogIndex data) (getLengthLog s')) + 3 \<le> length ins"
    and "\<forall>i \<in> set ins. answer_ok s i"
  shows "ended (exec raft_env (r_catchUp ch data) ins s')"
proof -
  have "ends_with s (Suc (nat d + 2)) (r_GetLeaderAddr (\<lambda>(ladr, err). r_getTerm (\<lambda>t.
      r_fetchLoop (nat d) t ladr (r_sendReplyObjectCommited ch True Return))))" for d
    by (intro ends_intros ends_fetchLoop) (simp add: numeral_2_eq_2 ends_intros)
  from ends_withD [OF this assms(1) _ assms(3)] assms(2) show ?thesis
    by (simp add: r_catchUp_def exec_read Let_def)
qed

lemma ended_APPEND:
  assumes "same_keys s s'" and "nat (sub64 (ae_LogIndex data) (getLengthLog s')) + 5 \<le> length ins"
    and "\<forall>i \<in> set ins. answer_ok s i"
  shows "ended (exec raft_env (handle_APPEND_ENTRY ch data) ins s')"
proof -
  have e: "ends_with s 5 (r_sendNewLeader a Return)" "ends_with s 5 (r_sendNewTerm Return)"
    "ends_with s 5 (r_sendReplyObjectCommited ch st Return)" for a st
    unfolding small_numbers by (intro ends_intros; simp)+
  have "ends_with s 2 (if added then r_sendReplyObjectCommited ch added Return else Return)" for added
    unfolding small_numbers by (intro ends_intros; simp)+
  from ends_commitObject [OF this] have c: "ends_with s 5 (r_commitObject (ae_NewObject data) (\<lambda>added.
      if added then r_sendReplyObjectCommited ch added Return else Return))" by simp
  have keys: "same_keys s (updateTerm t s')"
    "same_keys s (set_peers (fst (MakeLeader a (raft_peers s'))) (updateTerm t s'))" for a t
    using assms(1) by (simp_all add: raft_simps routing_simps)
  have len: "5 \<le> length ins" using assms(2) by simp
  note run = ends_withD [OF _ _ len assms(3)]
  show ?thesis
    unfolding exec_APPEND using run [OF e(1) keys(2)] run [OF e(2) keys(1)] run [OF e(3) assms(1)]
      run [OF c assms(1)] ends_catchUp [OF assms(1) _ assms(3)] assms(2)
    by (auto split: append_decision.split)
qed

lemma ended_FETCH:
  assumes "1 \<le> length ins" and "\<forall>i \<in> set ins. answer_ok s i" and "same_keys s s'"
  shows "ended (exec raft_env (handle_FETCH_MISSING_ENTRIES ch data) ins s')"
proof -
  have "ends_with s (Suc 0) (r_respondFetchMissingEntries ch item j a Return)" for item j a
    by (intro ends_intros)
  from ends_withD [OF this assms(3) _ assms(2)] assms(1) show ?thesis
    unfolding exec_FETCH_MISSING by (auto split: checked.split)
qed

text \<open>C14:
  every request handler and every command ends, by a return, a blocked send or a panic: with
  at most six interactions with the outside (the clock, a visit of the routing table, a
  request, a vote, a reply), and one more for each entry that is missing from the log when an
  append request arrives, whatever the answers are; nothing is retried without end.
\<close>
theorem handlers_end:
  assumes "\<forall>i \<in> set ins. answer_ok s i"
    and "6 + nat (sub64 (pl_LogIndex (pk_Data (rpc_P rpc))) (getLengthLog s)) \<le> length ins"
  shows "ended (exec raft_env (handleRpc rpc) ins s) \<and> ended (exec raft_env (handleCli cmd) ins s)"
proof
  have "ends_with s (0 + 3) (handleCli cmd)"
    unfolding handleCli_def by (intro ends_commitObject ends_basic)
  from ends_withD [OF this] assms show "ended (exec raft_env (handleCli cmd) ins s)" by simp
next
  let ?m = "nat (sub64 (pl_LogIndex (pk_Data (rpc_P rpc))) (getLengthLog s))"
  from assms(2) obtain i rest where ins: "ins = i # rest" "5 + ?m \<le> length rest" by (cases ins) auto
  with assms(1) have rest: "\<forall>i \<in> set rest. answer_ok s i" by simp
  show "ended (exec raft_env (handleRpc rpc) ins s)"
  proof (cases "known_caller rpc s")
    case False
    then show ?thesis
      by (auto simp: known_caller_def handleRpc_def GetPacket_def exec_IsPeer Let_def split: option.split)
  next
    case True
    let ?c = "contacted rpc (in_now i) s"
    have keys: "same_keys s ?c" by (simp add: raft_simps)
    consider "pk_Type (rpc_P rpc) = REQUEST_VOTE" | "pk_Type (rpc_P rpc) = APPEND_ENTRY"
      | "pk_Type (rpc_P rpc) = FETCH_MISSING_ENTRIES" | "pk_Type (rpc_P rpc) \<notin> {0, 1, 2}" by auto
    then show ?thesis
    proof cases
      case 1
      from ends_withD [OF ends_REQUEST_VOTE keys _ rest] ins show ?thesis
        by (simp add: exec_REQUEST_VOTE [OF True 1])
    next
      case 2
      have "ae_LogIndex (fst (decodePayload_AppendEntry (pk_Data (rpc_P rpc)))) = pl_LogIndex (pk_Data (rpc_P rpc))"
        by (simp add: decodePayload_AppendEntry_def)
      with ended_APPEND [OF keys _ rest] ins show ?thesis
        by (simp add: exec_APPEND_ENTRY [OF True 2] raft_simps)
    next
      case 3
      from ended_FETCH [OF _ rest keys] ins show ?thesis by (simp add: exec_FETCH [OF True 3])
    next
      case 4
      with True ins show ?thesis
        by (auto simp: known_caller_def handleRpc_def GetPacket_def exec_IsPeer exec_UpdateTTL Let_def
            split: option.splits)
    qed
  qed
qed

theorem handlers_end_witness:
  "ended (exec raft_env (handleRpc (demo_heartbeat ''b'' 0 2)) (replicate 8 demo_visit) (fst demo_init)) \<and>
   length (fst (snd (exec raft_env (handleRpc (demo_heartbeat ''b'' 0 2)) (replicate 8 demo_visit) (fst demo_init)))) = 3"
proof -
  have "\<forall>i \<in> set (replicate 8 demo_visit). answer_ok (fst demo_init) i" by code_simp
  moreover have "6 + nat (sub64 (pl_LogIndex (pk_Data (rpc_P (demo_heartbeat ''b'' 0 2)))) (getLengthLog (fst demo_init)))
      \<le> length (replicate 8 demo_visit)" by code_simp
  moreover have "length (fst (snd (exec raft_env (handleRpc (demo_heartbeat ''b'' 0 2)) (replicate 8 demo_visit)
      (fst demo_init)))) = 3" by code_simp
  ultimately show ?thesis using handlers_end [where ins = "replicate 8 demo_visit"] by blast
qed

end
