(* ===== verification/Raft_Stable.thy ===== *)
theory Raft_Stable
  imports Raft_Replication Raft_Alone
begin

text \<open>
  A cluster in a quiet period: one leader, members of its term that follow it, no rival, and
  handlers that run one at a time (so each is a run of \<open>exec\<close>). Then replication does what it
  should: every member's log is at all times a prefix of the leader's, whichever requests and
  replies are lost. \<open>Raft_Cluster_Runs\<close> shows that one at a time cannot be dropped.
\<close>

section \<open>What a step of one handler does to a log\<close>

lemma log_commit_leader:
  assumes "raft_role s = LEADER" and "answer_ok s v" and "answer_ok s w"
    and "exec raft_env (handleCli cmd) [v, w] s = (s', es, st)"
  shows "raft_commitLog s' \<in> {raft_commitLog s, raft_commitLog s @ [cmd]} \<and>
    raft_role s' = raft_role s \<and> raft_term s' = raft_term s"
proof -
  have order: "range_order (rt_table (raft_peers s)) (in_order v)" using assms(2) by (simp add: answer_ok_def)
  from assms(4) exec_commit_leader [OF assms(1) order answer_ok_votes [OF assms(3) order], of cmd "\<lambda>_. Return" "[]"]
  show ?thesis
    by (auto simp: handleCli_def emit_eq_iff raft_simps split: if_splits)
qed

text \<open>What the leader answers to a forwarded command.\<close>

lemma log_forwarded:
  assumes "raft_role l = LEADER" and "log_ok l" and "cmd \<noteq> KubeCmd0" and "gob_cmd cmd = cmd"
    and "pk_Type (rpc_P rpc) = APPEND_ENTRY" and "pk_Data (rpc_P rpc) = forwarded_write cmd ladr f"
    and "raft_term f = raft_term l" and "\<forall>i \<in> set [t, v, w, u, r]. answer_ok l i"
    and "exec raft_env (handleRpc rpc) [t, v, w, u, r] l = (l', es, st)"
  shows "raft_commitLog l' \<in> {raft_commitLog l, raft_commitLog l @ [cmd]} \<and>
    raft_role l' = raft_role l \<and> raft_term l' = raft_term l \<and>
    (\<forall>pl. (rpc_Done rpc, pl) \<in> set (replies es) \<longrightarrow> pl_Confirmed pl \<longrightarrow>
       getLengthLog f = getLengthLog l \<and> raft_commitLog l' = raft_commitLog l @ [cmd])"
proof (cases "known_caller rpc l")
  case False
  then have "exec raft_env (handleRpc rpc) [t, v, w, u, r] l \<in>
      {(l, [], Crashed), (l, [], Returned)}"
    by (auto simp: known_caller_def handleRpc_def GetPacket_def exec_IsPeer Let_def split: option.split)
  with assms(9) show ?thesis by auto
next
  case True
  let ?c = "contacted rpc (in_now t) l"
  let ?data = "fst (decodePayload_AppendEntry (pk_Data (rpc_P rpc)))"
  have data: "ae_NewObject ?data = cmd" "ae_Term ?data = raft_term l" "ae_LogIndex ?data = getLengthLog f"
    using assms(4,6,7) by (simp_all add: decodePayload_AppendEntry_def forwarded_write_def)
  have order: "range_order (rt_table (raft_peers ?c)) (in_order v)" "range_order (rt_table (raft_peers ?c)) (in_order u)"
    using assms(8) by (simp_all add: answer_ok_def exec_simps)
  have votes: "length (in_votes w) \<le> length (nonempty_addrs (in_order v))"
    using assms(8) answer_ok_votes [of l w "in_order v"] by (simp add: answer_ok_def)
  have role: "raft_role ?c = LEADER" using assms(1) by (simp add: raft_simps)
  have run: "emit Ev_Now (exec raft_env (handle_APPEND_ENTRY (rpc_Done rpc) ?data) [v, w, u, r] ?c) = (l', es, st)"
    using assms(9) by (simp add: exec_APPEND_ENTRY [OF True assms(5)])
  have peers: "range_order (rt_table (raft_peers (addCommit c ?c))) (in_order u)" for c
    using order(2) by (simp add: raft_simps)
  show ?thesis
  proof (cases "getLengthLog f = getLengthLog l")
    case True
    then have "decide_append (raft_role ?c) (raft_term ?c) (getLengthLog ?c) (ae_Term ?data) (ae_LogIndex ?data)
        (ae_NewObject ?data = KubeCmd0) = Leader_commit"
      using assms(1,3) by (simp add: decide_append_def raft_simps data)
    with run True order votes peers show ?thesis
      by (auto simp: exec_APPEND data exec_commit_leader [OF role] emit_eq_iff exec_simps raft_simps Let_def
          NewPacket_def split: if_splits)
  next
    case False
    then have "decide_append (raft_role ?c) (raft_term ?c) (getLengthLog ?c) (ae_Term ?data) (ae_LogIndex ?data)
        (ae_NewObject ?data = KubeCmd0) = Leader_deny"
      using assms(1,3) by (simp add: decide_append_def raft_simps data)
    with run order show ?thesis
      by (auto simp: exec_APPEND emit_eq_iff exec_simps raft_simps Let_def NewPacket_def)
  qed
qed

lemma log_commit_member:
  assumes "raft_role s = MEMBER" and "answer_ok s v" and "answer_ok s w"
    and "exec raft_env (handleCli cmd) [v, w, x] s = (s', es, st)"
  shows "(raft_commitLog s' = raft_commitLog s \<or>
      confirms (in_outcome x) \<and> raft_commitLog s' = raft_commitLog s @ [cmd]) \<and>
    raft_role s' = raft_role s \<and> raft_term s' = raft_term s"
    and "Ev_Request a pl dt \<in> set es \<Longrightarrow> pl = forwarded_write cmd a s \<and> dt = APPEND_ENTRY"
proof -
  obtain p ttl err where t: "GetLeaderTimeout (in_now v) (in_order v) (raft_peers s) = (p, ttl, err)"
    by (metis prod_cases3)
  from assms(2,3) have "range_order (rt_table (raft_peers s)) (in_order v)"
    "range_order (rt_table (raft_peers s)) (in_order w)" by (simp_all add: answer_ok_def)
  note run = exec_commit_member [OF assms(1) t this, of cmd "\<lambda>_. Return" x "[]"]
  show "(raft_commitLog s' = raft_commitLog s \<or>
      confirms (in_outcome x) \<and> raft_commitLog s' = raft_commitLog s @ [cmd]) \<and>
    raft_role s' = raft_role s \<and> raft_term s' = raft_term s"
    using assms(4) run by (auto simp: handleCli_def emit_eq_iff raft_simps Let_def split: if_splits)
  show "pl = forwarded_write cmd a s \<and> dt = APPEND_ENTRY" if "Ev_Request a pl dt \<in> set es"
    using assms(4) run that by (auto simp: handleCli_def emit_eq_iff Let_def split: if_splits)
qed

text \<open>An answer to a request for an entry, as the leader's handler gives it.\<close>

definition fetch_answer :: "RAFT \<Rightarrow> raft_input \<Rightarrow> bool" where
  "fetch_answer l i \<longleftrightarrow> (\<forall>pl. in_outcome i = Answered pl \<longrightarrow>
     (\<exists>rpc ins l' es st. pk_Type (rpc_P rpc) = FETCH_MISSING_ENTRIES \<and>
        exec raft_env (handleRpc rpc) ins l = (l', es, st) \<and> (rpc_Done rpc, pl) \<in> set (replies es)))"

lemma replies_fetch:
  assumes "pk_Type (rpc_P rpc) = FETCH_MISSING_ENTRIES" and "log_ok l"
    and "exec raft_env (handleRpc rpc) ins l = (l', es, st)" and "(ch, pl) \<in> set (replies es)"
  shows "\<exists>i item. pl = entry_reply i item \<and> getLogItem i l = Value item"
proof -
  have known: "known_caller rpc l"
    using assms(3,4) by (rule_tac ccontr)
      (auto simp: known_caller_def handleRpc_def GetPacket_def exec_IsPeer Let_def split: option.splits)
  show ?thesis
  proof (cases ins)
    case Nil
    with assms(1,3,4) known show ?thesis
      by (auto simp: known_caller_def handleRpc_def GetPacket_def exec_IsPeer Let_def r_UpdateTTL_def
          split: option.splits)
  next
    case (Cons i rest)
    let ?c = "contacted rpc (in_now i) l" and ?d = "fst (decodePayload_FetchMissingEntries (pk_Data (rpc_P rpc)))"
    have item: "getLogItem n ?c = getLogItem n l" for n by (simp add: getLogItem_def raft_simps)
    from assms(3) have "emit Ev_Now (exec raft_env (handle_FETCH_MISSING_ENTRIES (rpc_Done rpc) ?d) rest ?c) = (l', es, st)"
      by (simp add: Cons exec_FETCH [OF known assms(1)])
    with assms(4) show ?thesis
      by (cases rest)
        (auto simp: exec_FETCH_MISSING emit_eq_iff item entry_reply_def NewPacket_def exec_simps
          r_respondFetchMissingEntries_def r_sendEncodedReply_def split: if_splits checked.splits)
  qed
qed

lemma fetch_answer_entry:
  assumes "fetch_answer l i" and "log_ok l" and "is_goint (int (length (raft_commitLog l)))"
    and "in_outcome i = Answered pl" and "pl_NewObject pl \<noteq> KubeCmd0"
    and "pl_LogIndex pl = add64 (int n) 1" and "n \<le> length (raft_commitLog l)"
  shows "n < length (raft_commitLog l) \<and> pl_NewObject pl = raft_commitLog l ! n"
proof -
  from assms(1,4) obtain k item where pl: "pl = entry_reply k item" "getLogItem k l = Value item"
    unfolding fetch_answer_def using replies_fetch [OF _ assms(2)] by blast
  with assms(5) have "k \<noteq> 0" by (auto simp: entry_reply_def getLogItem_def)
  with pl have k: "0 \<le> sub64 k 1" "sub64 k 1 < int (length (raft_commitLog l))"
    "item = raft_commitLog l ! nat (sub64 k 1)"
    by (auto simp: getLogItem_def index_at_def split: if_splits)
  have "sub64 k 1 = int n"
    using assms(6,7,3) by (simp add: pl(1) entry_reply_def add64_sub64_cancel is_goint_def)
  with k assms(2) pl(1) show ?thesis
    by (auto simp: entry_reply_def log_ok_def list_all_length proper_cmd_def)
qed

text \<open>A member behind the leader stays behind the leader while it fetches.\<close>

definition follows :: "RAFT \<Rightarrow> RAFT \<Rightarrow> bool" where
  "follows l f \<longleftrightarrow> raft_role f = MEMBER \<and> raft_term f = raft_term l \<and>
     prefix (raft_commitLog f) (raft_commitLog l)"

lemma follows_keeps:
  "follows l f \<Longrightarrow> raft_commitLog f' = raft_commitLog f \<Longrightarrow> raft_role f' = raft_role f \<Longrightarrow>
   raft_term f' = raft_term f \<Longrightarrow> follows l f'"
  by (simp add: follows_def)

lemma follows_length:
  "follows l f \<Longrightarrow> log_ok l \<Longrightarrow> getLengthLog f = int (length (raft_commitLog f))"
  by (intro getLengthLog_ok) (auto simp: follows_def log_ok_def prefix_def)

lemma reply_keeps_state: "fst (exec raft_env (r_sendReplyObjectCommited ch st Return) ins f) = f"
  unfolding r_sendReplyObjectCommited_def r_GetLeaderAddr_def r_sendEncodedReply_def
  by (auto simp: exec_simps case_prod_beta split: list.split)

lemma fetchLoop_follows:
  assumes "log_ok l" and "is_goint (int (length (raft_commitLog l)))" and "\<forall>i \<in> set ins. fetch_answer l i"
    and "follows l f"
  shows "follows l (fst (exec raft_env (r_fetchLoop k t ladr (r_sendReplyObjectCommited ch True Return)) ins f))"
  using assms(3,4)
proof (induction k arbitrary: ins f)
  case 0
  then show ?case by (simp add: reply_keeps_state)
next
  case (Suc k)
  let ?n = "length (raft_commitLog f)"
  have len: "getLengthLog f = int ?n" using follows_length [OF Suc.prems(2) assms(1)] .
  have n: "?n \<le> length (raft_commitLog l)" using Suc.prems(2) by (simp add: follows_def prefix_length_le)
  show ?case
  proof (cases ins)
    case Nil
    with Suc.prems show ?thesis by (simp add: exec_simps r_sendFetchObjectAtIndex_def Let_def)
  next
    case (Cons i rest)
    show ?thesis
    proof (cases "\<exists>pl. in_outcome i = Answered pl \<and> pl_NewObject pl \<noteq> KubeCmd0 \<and> pl_LogIndex pl = add64 (int ?n) 1")
      case False
      with Suc.prems Cons show ?thesis
        by (auto simp: exec_simps r_sendFetchObjectAtIndex_def Let_def len
            decodePayload_FetchMissingEntries_def split: raft_outcome.split)
    next
      case True
      then obtain pl where pl: "in_outcome i = Answered pl" "pl_NewObject pl \<noteq> KubeCmd0"
        "pl_LogIndex pl = add64 (int ?n) 1" by blast
      have "fetch_answer l i" using Suc.prems(1) Cons by simp
      from fetch_answer_entry [OF this assms(1,2) pl n] have
        e: "?n < length (raft_commitLog l)" "pl_NewObject pl = raft_commitLog l ! ?n" by simp_all
      have "prefix (raft_commitLog f @ [raft_commitLog l ! ?n]) (raft_commitLog l)"
        using Suc.prems(2) e(1) by (simp add: follows_def append_one_prefix)
      then have "follows l (addCommit (pl_NewObject pl) f)"
        using Suc.prems(2) e(2) by (simp add: follows_def raft_simps)
      from Suc.IH [OF _ this, of rest] Suc.prems(1) Cons pl show ?thesis
        by (simp add: exec_simps r_sendFetchObjectAtIndex_def Let_def len decodePayload_FetchMissingEntries_def)
    qed
  qed
qed

lemma append_follows:
  assumes "log_ok l" and "is_goint (int (length (raft_commitLog l)))" and "\<forall>i \<in> set ins. fetch_answer l i"
    and "follows l f" and "pk_Type (rpc_P rpc) = APPEND_ENTRY" and "pl_Term (pk_Data (rpc_P rpc)) = raft_term l"
  shows "follows l (fst (exec raft_env (handleRpc rpc) ins f))"
proof (cases "known_caller rpc f")
  case False
  then show ?thesis using assms(4)
    by (auto simp: known_caller_def handleRpc_def GetPacket_def exec_IsPeer Let_def split: option.split)
next
  case True
  show ?thesis
  proof (cases ins)
    case Nil
    with assms(4,5) True show ?thesis
      by (auto simp: known_caller_def handleRpc_def GetPacket_def exec_IsPeer Let_def r_UpdateTTL_def
          split: option.splits)
  next
    case (Cons i rest)
    let ?c = "contacted rpc (in_now i) f" and ?d = "fst (decodePayload_AppendEntry (pk_Data (rpc_P rpc)))"
    let ?dec = "decide_append (raft_role ?c) (raft_term ?c) (getLengthLog ?c) (ae_Term ?d) (ae_LogIndex ?d)
      (ae_NewObject ?d = KubeCmd0)"
    have c: "follows l ?c" using assms(4) by (rule follows_keeps) (simp_all add: raft_simps)
    have "ae_Term ?d = raft_term f"
      using assms(4,6) by (simp add: decodePayload_AppendEntry_def follows_def)
    with c have dec: "?dec \<in> {In_sync, Accept, Catch_up}"
      by (auto simp: decide_append_def follows_def raft_simps)
    have rest: "\<forall>i \<in> set rest. fetch_answer l i" using assms(3) Cons by simp
    have catch: "follows l (fst (exec raft_env (r_catchUp ch ?d) rest ?c))" for ch
    proof (cases rest)
      case Nil
      with c show ?thesis by (simp add: r_catchUp_def exec_simps r_GetLeaderAddr_def Let_def)
    next
      case (Cons v ans)
      then have "\<forall>i \<in> set ans. fetch_answer l i" using rest by simp
      from fetchLoop_follows [OF assms(1,2) this c] c Cons show ?thesis
        by (auto simp: r_catchUp_def exec_simps r_GetLeaderAddr_def Let_def case_prod_beta)
    qed
    have "fst (exec raft_env (handleRpc rpc) ins f) =
        fst (exec raft_env (handle_APPEND_ENTRY (rpc_Done rpc) ?d) rest ?c)"
      by (simp add: Cons exec_APPEND_ENTRY [OF True assms(5)])
    then show ?thesis
      using dec c catch by (auto simp: exec_APPEND reply_keeps_state)
  qed
qed

section \<open>A quiet period\<close>

text \<open>
  The steps of the leader \<open>l\<close> and the members \<open>F\<close>: a command typed at the leader; a command
  typed at a member, that the leader handles and whose answer the member gets or does not
  get; the same, with the request lost; and an append request of the leader's term (a
  heartbeat or a proposal) at a member, with the entries it fetches. The length of the
  leader's log is a Go integer.
\<close>

inductive stable_step :: "RAFT \<times> (string \<Rightarrow> RAFT) \<Rightarrow> RAFT \<times> (string \<Rightarrow> RAFT) \<Rightarrow> bool" where
  leader_command:
    "proper_cmd cmd \<Longrightarrow> answer_ok l v \<Longrightarrow> answer_ok l w \<Longrightarrow>
     exec raft_env (handleCli cmd) [v, w] l = (l', es, st) \<Longrightarrow> stable_step (l, F) (l', F)"
| member_command:
    "proper_cmd cmd \<Longrightarrow> answer_ok (F m) v \<Longrightarrow> answer_ok (F m) w \<Longrightarrow>
     exec raft_env (handleCli cmd) [v, w, x] (F m) = (f', es, st) \<Longrightarrow>
     Ev_Request a pl dt \<in> set es \<Longrightarrow> pk_Type (rpc_P rpc) = dt \<Longrightarrow> pk_Data (rpc_P rpc) = pl \<Longrightarrow>
     \<forall>i \<in> set [t', v', w', u', r']. answer_ok l i \<Longrightarrow>
     exec raft_env (handleRpc rpc) [t', v', w', u', r'] l = (l', es', st') \<Longrightarrow>
     (\<forall>q. in_outcome x = Answered q \<longrightarrow> (rpc_Done rpc, q) \<in> set (replies es')) \<Longrightarrow>
     stable_step (l, F) (l', F(m := f'))"
| member_unheard:
    "answer_ok (F m) v \<Longrightarrow> answer_ok (F m) w \<Longrightarrow> (\<forall>q. in_outcome x \<noteq> Answered q) \<Longrightarrow>
     exec raft_env (handleCli cmd) [v, w, x] (F m) = (f', es, st) \<Longrightarrow>
     stable_step (l, F) (l, F(m := f'))"
| append_request:
    "pk_Type (rpc_P rpc) = APPEND_ENTRY \<Longrightarrow> pl_Term (pk_Data (rpc_P rpc)) = raft_term l \<Longrightarrow>
     is_goint (int (length (raft_commitLog l))) \<Longrightarrow> (\<forall>i \<in> set ins. fetch_answer l i) \<Longrightarrow>
     exec raft_env (handleRpc rpc) ins (F m) = (f', es, st) \<Longrightarrow>
     stable_step (l, F) (l, F(m := f'))"

definition quiet :: "RAFT \<times> (string \<Rightarrow> RAFT) \<Rightarrow> bool" where
  "quiet C \<longleftrightarrow> raft_role (fst C) = LEADER \<and> log_ok (fst C) \<and> (\<forall>m. follows (fst C) (snd C m))"

lemma follows_leader:
  "follows l f \<Longrightarrow> raft_term l' = raft_term l \<Longrightarrow> raft_commitLog l' \<in> {raft_commitLog l, raft_commitLog l @ [cmd]} \<Longrightarrow>
   follows l' f"
  by (auto simp: follows_def)

lemma quiet_step: "stable_step C C' \<Longrightarrow> quiet C \<Longrightarrow> quiet C'"
proof (induction rule: stable_step.induct)
  case (leader_command cmd l v w l' es st F)
  from log_commit_leader [OF _ leader_command(2-4)] leader_command(1,5) show ?case
    by (auto simp: quiet_def log_ok_def intro: follows_leader)
next
  case (member_command cmd F m v w x f' es st a pl dt rpc t' v' w' u' r' l l' es' st')
  then have f: "follows l (F m)" and l: "raft_role l = LEADER" "log_ok l" and cmd: "cmd \<noteq> KubeCmd0" "gob_cmd cmd = cmd"
    by (simp_all add: quiet_def proper_cmd_def)
  have role: "raft_role (F m) = MEMBER" "raft_term (F m) = raft_term l" using f by (simp_all add: follows_def)
  note fm = log_commit_member [OF role(1) member_command(2-4)]
  have "pl = forwarded_write cmd a (F m)" "dt = APPEND_ENTRY" using fm(2) member_command(5) by auto
  then have rpc: "pk_Type (rpc_P rpc) = APPEND_ENTRY" "pk_Data (rpc_P rpc) = forwarded_write cmd a (F m)"
    using member_command(6,7) by simp_all
  note fw = log_forwarded [OF l cmd rpc role(2) member_command(8,9)]
  have same: "raft_commitLog (F m) = raft_commitLog l" if "getLengthLog (F m) = getLengthLog l"
    using that follows_length [OF f l(2)] getLengthLog_ok [OF l(2)] f by (auto simp: follows_def prefix_def)
  have "follows l' f'"
  proof (cases "confirms (in_outcome x) \<and> raft_commitLog f' = raft_commitLog (F m) @ [cmd]")
    case True
    then obtain q where q: "in_outcome x = Answered q" "pl_Confirmed q"
      by (auto simp: confirms_def split: raft_outcome.splits)
    with member_command(10) fw have "getLengthLog (F m) = getLengthLog l" "raft_commitLog l' = raft_commitLog l @ [cmd]"
      by blast+
    with same True fm(1) fw role show ?thesis by (simp add: follows_def)
  next
    case False
    with fm(1) have "follows l f'" by (intro follows_keeps [OF f]) auto
    with fw show ?thesis by (blast intro: follows_leader)
  qed
  moreover have "follows l' (F m')" for m'
    using member_command.prems fw by (auto simp: quiet_def intro: follows_leader)
  moreover have "log_ok l'" using fw l(2) member_command(1) by (auto simp: log_ok_def)
  ultimately show ?case using fw l by (simp add: quiet_def)
next
  case (member_unheard F m v w x cmd f' es st l)
  then have f: "follows l (F m)" by (simp add: quiet_def)
  then have "raft_role (F m) = MEMBER" by (simp add: follows_def)
  from log_commit_member(1) [OF this member_unheard(1,2,4)] member_unheard(3)
  have "follows l f'" by (intro follows_keeps [OF f]) (auto simp: confirms_def split: raft_outcome.splits)
  with member_unheard.prems show ?case by (simp add: quiet_def)
next
  case (append_request rpc l ins F m f' es st)
  then have "log_ok l" "follows l (F m)" by (simp_all add: quiet_def)
  from append_follows [OF this(1) append_request(3,4) this(2) append_request(1,2)] append_request(5)
  have "follows l f'" by simp
  with append_request.prems show ?case by (simp add: quiet_def)
qed

lemma quiet_steps: "stable_step\<^sup>*\<^sup>* C C' \<Longrightarrow> quiet C \<Longrightarrow> quiet C'"
  by (induction rule: rtranclp_induct) (auto intro: quiet_step)

text \<open>C4:
  in a quiet period the members replicate the leader: from logs that are prefixes of the
  leader's, through any number of commands typed at the leader and at members, heartbeats and
  catch-ups, with requests and replies lost at will, every member's log stays a prefix of the
  leader's; so any two members agree on every entry that both have, and nobody changes role
  or term.
\<close>
theorem members_follow_leader:
  assumes "stable_step\<^sup>*\<^sup>* (l, F) (l', F')" and "raft_role l = LEADER" and "log_ok l"
    and "\<And>m. raft_role (F m) = MEMBER \<and> raft_term (F m) = raft_term l \<and>
      prefix (raft_commitLog (F m)) (raft_commitLog l)"
  shows "raft_role l' = LEADER \<and>
    (\<forall>m. raft_role (F' m) = MEMBER \<and> raft_term (F' m) = raft_term l' \<and>
       prefix (raft_commitLog (F' m)) (raft_commitLog l')) \<and>
    (\<forall>m m' i. i < length (raft_commitLog (F' m)) \<longrightarrow> i < length (raft_commitLog (F' m')) \<longrightarrow>
       raft_commitLog (F' m) ! i = raft_commitLog (F' m') ! i)"
proof -
  have "quiet (l', F')"
    using quiet_steps [OF assms(1)] assms(2-4) by (simp add: quiet_def follows_def)
  then have l: "raft_role l' = LEADER"
    and f: "raft_role (F' m) = MEMBER \<and> raft_term (F' m) = raft_term l' \<and>
      prefix (raft_commitLog (F' m)) (raft_commitLog l')" for m
    by (simp_all add: quiet_def follows_def)
  have "raft_commitLog (F' m) ! i = raft_commitLog l' ! i" if "i < length (raft_commitLog (F' m))" for m i
    using f [of m] that by (auto simp: prefix_def nth_append)
  with l f show ?thesis by simp
qed

theorem members_follow_leader_witness:
  "\<exists>l F. stable_step\<^sup>*\<^sup>* (demo_node LEADER 2 [] [], \<lambda>_. demo_node MEMBER 2 [] ''b'') (l, F) \<and>
     raft_commitLog (F ''c'') = [demo_cmd] \<and> prefix (raft_commitLog (F ''c'')) (raft_commitLog l)"
proof -
  let ?l = "demo_node LEADER 2 [] []" and ?f = "demo_node MEMBER 2 [] ''b''"
  let ?w = "demo_visit\<lparr>in_votes := [demo_confirm]\<rparr>" and ?rpc = "demo_append ''b'' 2 1 KubeCmd0"
  define l1 where "l1 = fst (exec raft_env (handleCli demo_cmd) [demo_visit, ?w] ?l)"
  define a where "a = leader_answer l1 (fetch_rpc \<lparr>tcp_IP = ''c'', tcp_Port = 9996\<rparr> 2 ''b'' 1)"
  define f1 where "f1 = fst (exec raft_env (handleRpc ?rpc) [demo_visit, demo_visit, a, demo_visit, demo_visit] ?f)"
  define g where "g = (\<lambda>_. ?f)(''c'' := f1)"
  have ok: "answer_ok ?l demo_visit" "answer_ok ?l ?w" by code_simp+
  have s1: "stable_step (?l, \<lambda>_. ?f) (l1, \<lambda>_. ?f)"
    using stable_step.leader_command [OF demo_cmd_proper ok] unfolding l1_def by (metis prod.collapse)
  have n: "raft_commitLog l1 = [demo_cmd]" "raft_term l1 = 2" "raft_commitLog f1 = [demo_cmd]"
    unfolding f1_def a_def l1_def by code_simp+
  have "fetch_answer l1 a"
    unfolding fetch_answer_def
  proof (intro allI impI)
    fix pl assume pl: "in_outcome a = Answered pl"
    let ?r = "fetch_rpc \<lparr>tcp_IP = ''c'', tcp_Port = 9996\<rparr> 2 ''b'' 1"
    have "in_outcome a = Answered (entry_reply 1 demo_cmd)" unfolding a_def l1_def by code_simp
    moreover have "(rpc_Done ?r, entry_reply 1 demo_cmd) \<in>
        set (replies (fst (snd (exec raft_env (handleRpc ?r) [demo_visit, demo_visit] l1))))"
      "pk_Type (rpc_P ?r) = FETCH_MISSING_ENTRIES" unfolding l1_def by code_simp+
    ultimately show "\<exists>rpc ins l' es st. pk_Type (rpc_P rpc) = FETCH_MISSING_ENTRIES \<and>
        exec raft_env (handleRpc rpc) ins l1 = (l', es, st) \<and> (rpc_Done rpc, pl) \<in> set (replies es)"
      using pl by (metis prod.collapse raft_outcome.inject)
  qed
  then have ans: "\<forall>i \<in> set [demo_visit, demo_visit, a, demo_visit, demo_visit]. fetch_answer l1 i"
    by (simp add: fetch_answer_def demo_visit_def input0_def)
  have h: "pk_Type (rpc_P ?rpc) = APPEND_ENTRY" "pl_Term (pk_Data (rpc_P ?rpc)) = raft_term l1"
    "is_goint (int (length (raft_commitLog l1)))"
    by (simp_all add: n is_goint_def demo_append_def NewPacket_def)
  have s2: "stable_step (l1, \<lambda>_. ?f) (l1, g)"
    using stable_step.append_request [OF h ans, of "\<lambda>_. ?f" "''c''"] unfolding f1_def g_def by (metis prod.collapse)
  with s1 have steps: "stable_step\<^sup>*\<^sup>* (?l, \<lambda>_. ?f) (l1, g)" by simp
  have start: "raft_role ?l = LEADER" "log_ok ?l"
    "raft_role ?f = MEMBER \<and> raft_term ?f = raft_term ?l \<and> prefix (raft_commitLog ?f) (raft_commitLog ?l)"
    by (simp_all add: demo_node_def log_ok_def)
  have "raft_commitLog (g ''c'') = [demo_cmd]" by (simp add: g_def n)
  with steps members_follow_leader [OF steps start] show ?thesis by blast
qed

end
