(* ===== verification/Raft_Cluster.thy ===== *)
theory Raft_Cluster
  imports Raft_Protocol
begin

text \<open>
  A cluster of nodes and the connections between them. Each node is a node of
  \<open>Raft_Election\<close>, with its own goroutines. A request is a TCP connection of its own
  (\<open>SendRequest\<close>, \<open>SendRequestAwaitResponse\<close> in \<open>network/network.go\<close>): it may arrive, once,
  and then starts \<open>handleRpc\<close> at its target with the connection's reply channel; the first
  reply to that channel is what the sender can read, unless its wait is over by then. Requests
  and replies can be lost and delayed, but not invented, changed or delivered twice.

  The theorems: a node of a cluster is a node (so all of \<open>Raft_Node\<close> holds of it), the logs
  hold nothing but commands of the command lines, and a vote is counted at most once per
  peer and only from peers that handled this very request.
\<close>

section \<open>The state\<close>

record request =
  rq_caller :: TCPAddr
  rq_to :: string
  rq_pl :: payload
  rq_dt :: DataType
  rq_arrived :: bool
  rq_reply :: "payload option"

text \<open>
  A request is known by its position in \<open>cl_requests\<close>, and that is its reply channel.
  \<open>cl_open\<close>: the requests a waiting goroutine (a node, and the goroutine's number) has sent.
\<close>

record cluster =
  cl_nodes :: "(string, raft_node) gomap"
  cl_requests :: "request list"
  cl_open :: "(string \<times> nat, nat list) gomap"

definition cluster_init :: "goint \<Rightarrow> string list \<Rightarrow> cluster" where
  "cluster_init port addrs =
     \<lparr>cl_nodes = map (\<lambda>a. (a, raft_init a port (removeAll a addrs))) addrs,
      cl_requests = [], cl_open = []\<rparr>"

section \<open>Steps\<close>

fun waiting :: "rproc list \<Rightarrow> nat \<Rightarrow> raft_event option" where
  "waiting ts j = (if j < length ts then (case ts ! j of Io e k \<Rightarrow> Some e | _ \<Rightarrow> None) else None)"

text \<open>The requests behind an event: to whom, what, and of which kind.\<close>

fun ev_requests :: "raft_event \<Rightarrow> (string list \<times> payload \<times> DataType) option" where
  "ev_requests (Ev_Request a pl dt) = Some ([a], pl, dt)"
| "ev_requests (Ev_Notify a pl dt) = Some ([a], pl, dt)"
| "ev_requests (Ev_Gather to pl dt) = Some (to, pl, dt)"
| "ev_requests (Ev_Election to pl dt) = Some (to, pl, dt)"
| "ev_requests _ = None"

fun is_reply :: "raft_event \<Rightarrow> bool" where
  "is_reply (Ev_Reply ch pkt) = True"
| "is_reply _ = False"

text \<open>
  The actions: a goroutine of a node makes a step or gets an answer that does not come from
  the network; a command is typed; the kube client takes a commit; a goroutine sends its
  requests; a request arrives; a goroutine replies; a goroutine goes on with the replies
  that came in (by their requests, in the order of their arrival).
\<close>

datatype cluster_act =
    Cl_step string nat
  | Cl_answer string nat raft_input
  | Cl_command string KubeCmd
  | Cl_deliver string nat
  | Cl_send string nat
  | Cl_arrive nat
  | Cl_reply string nat
  | Cl_receive string nat raft_input "nat list"

definition request_rpc :: "nat \<Rightarrow> request \<Rightarrow> RPC" where
  "request_rpc ch q = \<lparr>rpc_P = NewPacket (Some (rq_caller q)) (rq_pl q) (rq_dt q), rpc_Done = ch\<rparr>"

definition replies_to :: "request list \<Rightarrow> nat list \<Rightarrow> payload list" where
  "replies_to rs got = map (\<lambda>ch. the (rq_reply (rs ! ch))) got"

text \<open>Without a reply a request has failed or timed out, as the environment says.\<close>

definition received :: "request list \<Rightarrow> nat list \<Rightarrow> raft_input \<Rightarrow> raft_input" where
  "received rs got i = i\<lparr>
     in_votes := replies_to rs got,
     in_outcome :=
       (case replies_to rs got of
          pl # _ \<Rightarrow> Answered pl
        | [] \<Rightarrow> (case in_outcome i of Send_failed \<Rightarrow> Send_failed | _ \<Rightarrow> Timed_out))\<rparr>"

text \<open>What goroutine \<open>j\<close> of node \<open>a\<close> waits for; nothing of a process that has panicked.\<close>

definition waiting_at :: "cluster \<Rightarrow> string \<Rightarrow> nat \<Rightarrow> raft_event option" where
  "waiting_at C a j =
     (case map_get (cl_nodes C) a of
        None \<Rightarrow> None
      | Some n \<Rightarrow> if list_ex is_crash (snd n) then None else waiting (snd n) j)"

definition sent_by :: "cluster \<Rightarrow> string \<Rightarrow> nat \<Rightarrow> request list" where
  "sent_by C a j =
     (case map_get (cl_nodes C) a of
        None \<Rightarrow> []
      | Some n \<Rightarrow>
          (case waiting (snd n) j of
             None \<Rightarrow> []
           | Some e \<Rightarrow>
               (case ev_requests e of
                  None \<Rightarrow> []
                | Some (to, pl, dt) \<Rightarrow>
                    map (\<lambda>b. \<lparr>rq_caller = \<lparr>tcp_IP = a, tcp_Port = raft_raftPort (fst n)\<rparr>, rq_to = b,
                      rq_pl = pl, rq_dt = dt, rq_arrived = False, rq_reply = None\<rparr>) to)))"

definition record_reply :: "nat \<Rightarrow> payload \<Rightarrow> request list \<Rightarrow> request list" where
  "record_reply ch pl rs =
     (if ch < length rs \<and> rq_reply (rs ! ch) = None
      then rs[ch := (rs ! ch)\<lparr>rq_reply := Some pl\<rparr>] else rs)"

text \<open>When an action is possible, which node it moves and how, and what it does to the connections.\<close>

fun act_guard :: "cluster_act \<Rightarrow> cluster \<Rightarrow> bool" where
  "act_guard (Cl_answer a j i) C =
     (case waiting_at C a j of None \<Rightarrow> False | Some e \<Rightarrow> ev_requests e = None \<and> \<not> is_reply e)"
| "act_guard (Cl_send a j) C =
     (case waiting_at C a j of
        None \<Rightarrow> False
      | Some e \<Rightarrow> ev_requests e \<noteq> None \<and> map_get (cl_open C) (a, j) = None)"
| "act_guard (Cl_arrive ch) C = (ch < length (cl_requests C) \<and> \<not> rq_arrived (cl_requests C ! ch))"
| "act_guard (Cl_reply a j) C = (case waiting_at C a j of None \<Rightarrow> False | Some e \<Rightarrow> is_reply e)"
| "act_guard (Cl_receive a j i got) C =
     (case map_get (cl_open C) (a, j) of
        None \<Rightarrow> False
      | Some ids \<Rightarrow> distinct got \<and> set got \<subseteq> set ids \<and>
          list_all (\<lambda>ch. rq_reply (cl_requests C ! ch) \<noteq> None) got)"
| "act_guard _ C = True"

fun node_part :: "cluster_act \<Rightarrow> cluster \<Rightarrow> (string \<times> (RAFT, raft_event, raft_input, raft_label) action) option" where
  "node_part (Cl_step a j) C = Some (a, Step j)"
| "node_part (Cl_answer a j i) C = Some (a, Answer j i)"
| "node_part (Cl_command a cmd) C = Some (a, Start (handleCli cmd))"
| "node_part (Cl_deliver a i) C = Some (a, Start (r_write (deliverCommit i) Return))"
| "node_part (Cl_send a j) C = None"
| "node_part (Cl_arrive ch) C =
     Some (rq_to (cl_requests C ! ch), Start (handleRpc (request_rpc ch (cl_requests C ! ch))))"
| "node_part (Cl_reply a j) C = Some (a, Answer j input0)"
| "node_part (Cl_receive a j i got) C = Some (a, Answer j (received (cl_requests C) got i))"

fun net_part :: "cluster_act \<Rightarrow> cluster \<Rightarrow> cluster" where
  "net_part (Cl_send a j) C =
     C\<lparr>cl_requests := cl_requests C @ sent_by C a j,
       cl_open := map_set (a, j) [length (cl_requests C) ..< length (cl_requests C) + length (sent_by C a j)]
         (cl_open C)\<rparr>"
| "net_part (Cl_arrive ch) C =
     C\<lparr>cl_requests := (cl_requests C)[ch := (cl_requests C ! ch)\<lparr>rq_arrived := True\<rparr>]\<rparr>"
| "net_part (Cl_reply a j) C =
     (case waiting_at C a j of
        Some (Ev_Reply ch pkt) \<Rightarrow> C\<lparr>cl_requests := record_reply ch (pk_Data pkt) (cl_requests C)\<rparr>
      | _ \<Rightarrow> C)"
| "net_part (Cl_receive a j i got) C = C\<lparr>cl_open := map_delete (a, j) (cl_open C)\<rparr>"
| "net_part _ C = C"

definition cluster_do :: "cluster_act \<Rightarrow> cluster \<Rightarrow> cluster option" where
  "cluster_do act C =
     (if \<not> act_guard act C then None
      else (case node_part act C of
          None \<Rightarrow> Some (net_part act C)
        | Some (a, x) \<Rightarrow>
            (case map_get (cl_nodes C) a of
               None \<Rightarrow> None
             | Some n \<Rightarrow>
                 (case node_act raft_code raft_env x n of
                    None \<Rightarrow> None
                  | Some n' \<Rightarrow> Some ((net_part act C)\<lparr>cl_nodes := map_set a n' (cl_nodes C)\<rparr>)))))"

text \<open>The command lines are used for commands of \<open>T\<close> only.\<close>

fun act_typed :: "KubeCmd set \<Rightarrow> cluster_act \<Rightarrow> bool" where
  "act_typed T (Cl_command a cmd) \<longleftrightarrow> cmd \<in> T \<and> proper_cmd cmd"
| "act_typed T _ \<longleftrightarrow> True"

inductive cluster_step :: "KubeCmd set \<Rightarrow> cluster \<Rightarrow> cluster \<Rightarrow> bool" for T where
  act: "act_typed T act \<Longrightarrow> cluster_do act C = Some C' \<Longrightarrow> cluster_step T C C'"

abbreviation cluster_steps :: "KubeCmd set \<Rightarrow> cluster \<Rightarrow> cluster \<Rightarrow> bool" where
  "cluster_steps T \<equiv> (cluster_step T)\<^sup>*\<^sup>*"

text \<open>A given run.\<close>

fun cluster_run :: "cluster_act list \<Rightarrow> cluster \<Rightarrow> cluster option" where
  "cluster_run [] C = Some C"
| "cluster_run (act # acts) C =
     (case cluster_do act C of None \<Rightarrow> None | Some C' \<Rightarrow> cluster_run acts C')"

lemma cluster_run_steps:
  "cluster_run acts C = Some C' \<Longrightarrow> \<forall>act \<in> set acts. act_typed T act \<Longrightarrow> cluster_steps T C C'"
proof (induction acts arbitrary: C)
  case Nil
  then show ?case by simp
next
  case (Cons act acts)
  then obtain D where "cluster_do act C = Some D" "cluster_run acts D = Some C'"
    by (auto split: option.splits)
  with Cons show ?case
    by (meson cluster_step.act converse_rtranclp_into_rtranclp list.set_intros)
qed

section \<open>A node of a cluster is a node\<close>

lemma net_part_nodes [simp]: "cl_nodes (net_part act C) = cl_nodes C"
  by (cases act) (auto split: option.split raft_event.split)

lemma cluster_doE:
  assumes "cluster_do act C = Some C'"
  obtains (net) "act_guard act C" "node_part act C = None" "C' = net_part act C"
    | (node) a x n n' where "act_guard act C" "node_part act C = Some (a, x)"
        "map_get (cl_nodes C) a = Some n" "node_act raft_code raft_env x n = Some n'"
        "C' = (net_part act C)\<lparr>cl_nodes := map_set a n' (cl_nodes C)\<rparr>"
  using assms unfolding cluster_do_def by (auto split: if_splits option.splits prod.splits)

lemma node_part_starts:
  "act_typed T act \<Longrightarrow> node_part act C = Some (a, x) \<Longrightarrow> starts_ok raft_starts x"
  by (cases act) (auto intro: raft_starts.intros)

lemma cluster_step_node:
  assumes "cluster_step T C C'" and "map_get (cl_nodes C') a = Some n'"
  shows "\<exists>n. map_get (cl_nodes C) a = Some n \<and> raft_steps n n'"
proof -
  from assms(1) obtain act where act: "act_typed T act" "cluster_do act C = Some C'"
    by (auto elim: cluster_step.cases)
  from act(2) show ?thesis
  proof (cases rule: cluster_doE)
    case net
    with assms(2) show ?thesis by auto
  next
    case (node b x m m')
    from node_act_step [OF node(4) node_part_starts [OF act(1) node(2)]]
    have "raft_step m m'" .
    with node assms(2) show ?thesis by (cases "b = a") auto
  qed
qed

lemma map_get_init: "map_get (map (\<lambda>a. (a, f a)) as) a = (if a \<in> set as then Some (f a) else None)"
  by (induction as) auto

lemma cluster_steps_node:
  assumes "cluster_steps T C C'" and "map_get (cl_nodes C') a = Some n'"
  shows "\<exists>n. map_get (cl_nodes C) a = Some n \<and> raft_steps n n'"
  using assms
proof (induction arbitrary: n' rule: rtranclp_induct)
  case base
  then show ?case by blast
next
  case (step D C')
  from cluster_step_node [OF step(2,4)] obtain m where "map_get (cl_nodes D) a = Some m" "raft_steps m n'"
    by blast
  with step(3) show ?case by (meson rtranclp_trans)
qed

lemma cluster_node_runs:
  assumes "cluster_steps T (cluster_init port addrs) C" and "map_get (cl_nodes C) a = Some n"
  shows "a \<in> set addrs \<and> raft_steps (raft_init a port (removeAll a addrs)) n"
  using cluster_steps_node [OF assms]
  by (auto simp: cluster_init_def map_get_init split: if_splits)

section \<open>What is in the nodes and on the wire\<close>

text \<open>The reply channels of the requests that have arrived at a node.\<close>

definition channels :: "cluster \<Rightarrow> string \<Rightarrow> nat set" where
  "channels C a =
     {ch. ch < length (cl_requests C) \<and> rq_to (cl_requests C ! ch) = a \<and> rq_arrived (cl_requests C ! ch)}"

definition node_ok :: "KubeCmd set \<Rightarrow> cluster \<Rightarrow> string \<Rightarrow> raft_node \<Rightarrow> bool" where
  "node_ok T C a n \<longleftrightarrow>
     (\<exists>P. pool_keeps (raft_env_from T) (raft_inv P T) raft_guar (raft_event_ok T (channels C a)) n)"

definition request_ok :: "KubeCmd set \<Rightarrow> request \<Rightarrow> bool" where
  "request_ok T q \<longleftrightarrow> carries T (rq_pl q) \<and> (\<forall>pl. rq_reply q = Some pl \<longrightarrow> carries T pl \<and> rq_arrived q)"

text \<open>The open requests of a goroutine are those of the event it waits at, one per target.\<close>

definition open_entry :: "cluster \<Rightarrow> string \<Rightarrow> nat \<Rightarrow> nat list \<Rightarrow> bool" where
  "open_entry C a j chs \<longleftrightarrow>
     (\<exists>n e to pl dt. map_get (cl_nodes C) a = Some n \<and> waiting (snd n) j = Some e \<and>
        ev_requests e = Some (to, pl, dt) \<and> distinct chs \<and> length chs = length to \<and>
        (\<forall>k < length to. chs ! k < length (cl_requests C) \<and>
           rq_to (cl_requests C ! (chs ! k)) = to ! k \<and> rq_pl (cl_requests C ! (chs ! k)) = pl \<and>
           tcp_IP (rq_caller (cl_requests C ! (chs ! k))) = a))"

definition open_ok :: "cluster \<Rightarrow> bool" where
  "open_ok C \<longleftrightarrow> (\<forall>a j chs. map_get (cl_open C) (a, j) = Some chs \<longrightarrow> open_entry C a j chs)"

definition cluster_ok :: "KubeCmd set \<Rightarrow> cluster \<Rightarrow> bool" where
  "cluster_ok T C \<longleftrightarrow>
     (\<forall>a n. map_get (cl_nodes C) a = Some n \<longrightarrow> node_ok T C a n) \<and>
     list_all (request_ok T) (cl_requests C) \<and> open_ok C"

section \<open>Every action keeps it\<close>

declare waiting.simps [simp del]

text \<open>Requests are only added, and what is known of one stays.\<close>

definition grows :: "request list \<Rightarrow> request list \<Rightarrow> bool" where
  "grows rs rs' \<longleftrightarrow> length rs \<le> length rs' \<and> (\<forall>ch < length rs.
     rq_to (rs' ! ch) = rq_to (rs ! ch) \<and> rq_pl (rs' ! ch) = rq_pl (rs ! ch) \<and>
     rq_caller (rs' ! ch) = rq_caller (rs ! ch) \<and>
     (rq_arrived (rs ! ch) \<longrightarrow> rq_arrived (rs' ! ch)) \<and>
     (rq_reply (rs ! ch) \<noteq> None \<longrightarrow> rq_reply (rs' ! ch) = rq_reply (rs ! ch)))"

lemma nth_update_if: "xs[i := v] ! j = (if i = j \<and> j < length xs then v else xs ! j)"
  by (cases "i = j"; cases "j < length xs") (simp_all add: list_update_beyond)

lemma grows_refl [simp]: "grows rs rs"
  by (simp add: grows_def)

lemma grows_append [simp]: "grows rs (rs @ qs)"
  by (simp add: grows_def nth_append)

lemma grows_record_reply [simp]: "grows rs (record_reply ch pl rs)"
  by (auto simp: grows_def record_reply_def nth_list_update)

lemma net_part_grows: "grows (cl_requests C) (cl_requests (net_part act C))"
  by (cases act) (auto simp: grows_def nth_append nth_update_if record_reply_def
      split: option.split raft_event.split)

lemma channels_mono:
  "grows (cl_requests C) (cl_requests C') \<Longrightarrow> channels C a \<subseteq> channels C' a"
  by (auto simp: channels_def grows_def)

lemma raft_event_ok_mono: "CH \<subseteq> CH' \<Longrightarrow> raft_event_ok T CH e \<Longrightarrow> raft_event_ok T CH' e"
  by (cases e) auto

lemma node_ok_mono:
  assumes "channels C a \<subseteq> channels C' a" and "node_ok T C a n"
  shows "node_ok T C' a n"
proof -
  from assms(2) obtain P where
    "pool_keeps (raft_env_from T) (raft_inv P T) raft_guar (raft_event_ok T (channels C a)) n"
    by (auto simp: node_ok_def)
  from pool_keeps_mono [OF _ this, of "raft_event_ok T (channels C' a)"] raft_event_ok_mono [OF assms(1)]
  show ?thesis unfolding node_ok_def by blast
qed

lemma node_ok_event:
  assumes "node_ok T C a n" and "waiting (snd n) j = Some e"
  shows "raft_event_ok T (channels C a) e"
proof -
  from assms(2) obtain k where "j < length (snd n)" "snd n ! j = Io e k"
    by (auto simp: waiting.simps split: if_splits goproc.splits)
  then have "Io e k \<in> set (snd n)" by (metis nth_mem)
  with assms(1) show ?thesis by (fastforce simp: node_ok_def pool_keeps_def)
qed

lemma ev_requests_carries:
  "raft_event_ok T CH e \<Longrightarrow> ev_requests e = Some (to, pl, dt) \<Longrightarrow> carries T pl \<and> distinct to"
  by (cases e) auto

text \<open>What the environment gives a node: known commands only.\<close>

definition act_brings :: "KubeCmd set \<Rightarrow> raft_node \<Rightarrow> (RAFT, raft_event, raft_input, raft_label) action \<Rightarrow> bool" where
  "act_brings T n x \<longleftrightarrow> (\<forall>j i a pl dt q. x = Answer j i \<longrightarrow> waiting (snd n) j = Some (Ev_Request a pl dt) \<longrightarrow>
     in_outcome i = Answered q \<longrightarrow> carries T q)"

lemma node_act_from:
  assumes "node_act raft_code raft_env x n = Some n'" and "act_brings T n x"
  shows "node_act raft_code (raft_env_from T) x n = Some n'"
proof (cases n)
  case (Pair s ts)
  with assms show ?thesis
    by (cases x) (auto simp: waiting.simps raft_env_from_def act_brings_def split: goproc.splits if_splits)
qed

lemma node_act_ok:
  assumes "node_act raft_code raft_env x n = Some n'" and "act_brings T n x"
    and "starts_ok (raft_starts_from T (channels C a)) x" and "node_ok T C a n"
  shows "node_ok T C a n'"
  using raft.step_keeps [OF node_act_step [OF node_act_from [OF assms(1,2)] assms(3)]] assms(4)
  unfolding node_ok_def by blast

lemma node_act_waiting:
  assumes "node_act code ok x n = Some n'" and "waiting (snd n) j = Some e" and "\<forall>i. x \<noteq> Answer j i"
  shows "waiting (snd n') j = Some e"
proof (cases n)
  case (Pair s ts)
  with assms show ?thesis
    by (cases x) (auto simp: waiting.simps nth_append nth_update_if split: if_splits goproc.splits)
qed

lemma waiting_at_Some:
  "waiting_at C a j = Some e \<longleftrightarrow>
     (\<exists>n. map_get (cl_nodes C) a = Some n \<and> \<not> list_ex is_crash (snd n) \<and> waiting (snd n) j = Some e)"
  by (auto simp: waiting_at_def split: option.splits)

lemma waiting_event:
  assumes "cluster_ok T C" and "waiting_at C a j = Some e"
  shows "raft_event_ok T (channels C a) e"
  using assms node_ok_event unfolding waiting_at_Some cluster_ok_def by metis

lemma sent_by_waiting:
  assumes "waiting_at C a j = Some e" and "ev_requests e = Some (to, pl, dt)"
  shows "\<exists>c. tcp_IP c = a \<and> sent_by C a j =
     map (\<lambda>b. \<lparr>rq_caller = c, rq_to = b, rq_pl = pl, rq_dt = dt, rq_arrived = False, rq_reply = None\<rparr>) to"
proof -
  from assms(1) obtain n where "map_get (cl_nodes C) a = Some n" "waiting (snd n) j = Some e"
    by (auto simp: waiting_at_Some)
  with assms(2) show ?thesis unfolding sent_by_def
    by (intro exI [of _ "\<lparr>tcp_IP = a, tcp_Port = raft_raftPort (fst n)\<rparr>"]) simp
qed

lemma requests_ok_step:
  assumes "cluster_ok T C" and "act_guard act C"
  shows "list_all (request_ok T) (cl_requests (net_part act C))"
proof -
  have rs: "list_all (request_ok T) (cl_requests C)" using assms(1) by (simp add: cluster_ok_def)
  then have upd: "list_all (request_ok T) ((cl_requests C)[ch := q])" if "request_ok T q" for ch q
    using that by (auto simp: list_all_iff dest!: set_update_subset_insert [THEN subsetD])
  show ?thesis
  proof (cases act)
    case (Cl_send a j)
    with assms(2) obtain e to pl dt where
      w: "waiting_at C a j = Some e" "ev_requests e = Some (to, pl, dt)"
      by (auto split: option.splits)
    from ev_requests_carries [OF waiting_event [OF assms(1) w(1)] w(2)] sent_by_waiting [OF w]
    have "list_all (request_ok T) (sent_by C a j)" by (auto simp: list_all_iff request_ok_def)
    with rs Cl_send show ?thesis by simp
  next
    case (Cl_arrive ch)
    with assms(2) rs have "request_ok T (cl_requests C ! ch)" by (simp add: list_all_length)
    then have "request_ok T ((cl_requests C ! ch)\<lparr>rq_arrived := True\<rparr>)" by (simp add: request_ok_def)
    from upd [OF this] Cl_arrive show ?thesis by simp
  next
    case (Cl_reply a j)
    with assms(2) obtain ch pkt where w: "waiting_at C a j = Some (Ev_Reply ch pkt)"
      by (auto split: option.splits elim: is_reply.elims)
    from waiting_event [OF assms(1) w] have "ch \<in> channels C a" "carries T (pk_Data pkt)" by auto
    moreover from this rs have "request_ok T (cl_requests C ! ch)" by (simp add: list_all_length channels_def)
    ultimately have "request_ok T ((cl_requests C ! ch)\<lparr>rq_reply := Some (pk_Data pkt)\<rparr>)"
      by (simp add: request_ok_def channels_def)
    from upd [OF this] rs Cl_reply w show ?thesis by (simp add: record_reply_def)
  qed (use rs in auto)
qed

text \<open>The goroutine that gets an answer is the only one whose wait ends.\<close>

lemma replies_carry:
  assumes "cluster_ok T C" and "act_guard (Cl_receive a j i got) C" and "ch \<in> set got"
  shows "ch < length (cl_requests C) \<and> (\<exists>pl. rq_reply (cl_requests C ! ch) = Some pl \<and> carries T pl \<and>
    rq_arrived (cl_requests C ! ch))"
proof -
  from assms(2) obtain chs where chs: "map_get (cl_open C) (a, j) = Some chs" "set got \<subseteq> set chs"
    "list_all (\<lambda>ch. rq_reply (cl_requests C ! ch) \<noteq> None) got"
    by (auto split: option.splits)
  from assms(1) chs(1) have "open_entry C a j chs" by (simp add: cluster_ok_def open_ok_def)
  then obtain to :: "string list" where "length chs = length to"
    "\<forall>k < length to. chs ! k < length (cl_requests C)"
    unfolding open_entry_def by blast
  with chs(2) assms(3) have ch: "ch < length (cl_requests C)" by (metis in_set_conv_nth subsetD)
  moreover from ch assms(1) have "request_ok T (cl_requests C ! ch)"
    by (simp add: cluster_ok_def list_all_length)
  moreover from chs(3) assms(3) have "rq_reply (cl_requests C ! ch) \<noteq> None" by (simp add: list_all_iff)
  ultimately show ?thesis by (auto simp: request_ok_def)
qed

lemma act_brings_ok:
  assumes "cluster_ok T C" and "act_guard act C" and "node_part act C = Some (a, x)"
    and "map_get (cl_nodes C) a = Some n"
  shows "act_brings T n x"
proof (cases act)
  case (Cl_receive b j i got)
  show ?thesis
  proof (cases got)
    case Nil
    with Cl_receive assms(3) show ?thesis
      by (auto simp: act_brings_def received_def replies_to_def split: raft_outcome.splits)
  next
    case (Cons ch rest)
    with replies_carry [OF assms(1) assms(2) [unfolded Cl_receive], of ch] Cl_receive assms(3)
    show ?thesis by (auto simp: act_brings_def received_def replies_to_def)
  qed
qed (use assms(2-4) in \<open>auto simp: act_brings_def waiting_at_def split: option.splits if_splits\<close>)

lemma node_part_starts_from:
  assumes "cluster_ok T C" and "act_guard act C" and "act_typed T act" and "node_part act C = Some (a, x)"
  shows "starts_ok (raft_starts_from T (channels (net_part act C) a)) x"
proof (cases act)
  case (Cl_arrive ch)
  with assms have "request_ok T (cl_requests C ! ch)" by (simp add: cluster_ok_def list_all_length)
  with Cl_arrive assms(2,4) show ?thesis
    by (auto intro!: raft_starts_from.rpc simp: request_rpc_def NewPacket_def request_ok_def channels_def)
qed (use assms in \<open>auto intro: raft_starts_from.intros\<close>)

lemma open_entry_mono:
  assumes "open_entry C a j chs" and "grows (cl_requests C) (cl_requests C')"
    and "\<And>n e. map_get (cl_nodes C) a = Some n \<Longrightarrow> waiting (snd n) j = Some e \<Longrightarrow>
      \<exists>n'. map_get (cl_nodes C') a = Some n' \<and> waiting (snd n') j = Some e"
  shows "open_entry C' a j chs"
proof -
  from assms(1) obtain n e to pl dt where n: "map_get (cl_nodes C) a = Some n" "waiting (snd n) j = Some e"
    and e: "ev_requests e = Some (to, pl, dt)" "distinct chs" "length chs = length to"
    and k: "\<forall>k < length to. chs ! k < length (cl_requests C) \<and>
      rq_to (cl_requests C ! (chs ! k)) = to ! k \<and> rq_pl (cl_requests C ! (chs ! k)) = pl \<and>
      tcp_IP (rq_caller (cl_requests C ! (chs ! k))) = a"
    unfolding open_entry_def by blast
  from assms(3) [OF n] obtain n' where "map_get (cl_nodes C') a = Some n'" "waiting (snd n') j = Some e" by blast
  moreover have "\<forall>k < length to. chs ! k < length (cl_requests C') \<and>
      rq_to (cl_requests C' ! (chs ! k)) = to ! k \<and> rq_pl (cl_requests C' ! (chs ! k)) = pl \<and>
      tcp_IP (rq_caller (cl_requests C' ! (chs ! k))) = a"
    using k assms(2) by (auto simp: grows_def intro: less_le_trans)
  ultimately show ?thesis unfolding open_entry_def using e by blast
qed

lemma open_entry_send:
  assumes "waiting_at C a j = Some e" and "ev_requests e = Some (to, pl, dt)"
  shows "open_entry (net_part (Cl_send a j) C) a j
    [length (cl_requests C) ..< length (cl_requests C) + length (sent_by C a j)]"
  using assms(1) sent_by_waiting [OF assms] assms(2) unfolding waiting_at_Some
  by (auto simp: open_entry_def nth_append)

lemma open_entry_waiting:
  "open_entry C a j chs \<Longrightarrow> waiting_at C a j = Some e \<Longrightarrow> ev_requests e \<noteq> None"
  by (auto simp: open_entry_def waiting_at_Some)

lemma answered_not_open:
  assumes "open_ok C" and "act_guard act C" and "node_part act C = Some (a, Answer j i)"
  shows "map_get (cl_open (net_part act C)) (a, j) = None"
proof -
  have none: "map_get (cl_open C) (a, j) = None" if "waiting_at C a j = Some e" "ev_requests e = None" for e
    using assms(1) that open_entry_waiting unfolding open_ok_def by (metis not_Some_eq)
  show ?thesis
  proof (cases act)
    case (Cl_answer b k i')
    with assms none show ?thesis by (auto split: option.splits)
  next
    case (Cl_reply b k)
    with assms obtain e where e: "waiting_at C a j = Some e" "is_reply e" by (auto split: option.splits)
    then have "ev_requests e = None" by (auto elim: is_reply.elims)
    with none e Cl_reply assms(3) show ?thesis by (auto split: raft_event.split)
  qed (use assms(3) in auto)
qed

lemma open_net_part:
  "node_part act C = Some (b, x) \<Longrightarrow> map_get (cl_open (net_part act C)) (a, j) = Some chs \<Longrightarrow>
   map_get (cl_open C) (a, j) = Some chs"
  by (cases act) (auto split: if_splits option.splits raft_event.splits)

lemma open_ok_step:
  assumes "cluster_ok T C" and "cluster_do act C = Some C'"
  shows "open_ok C'"
proof -
  have opC: "open_ok C" using assms(1) by (simp add: cluster_ok_def)
  then have ok: "open_entry C a j chs" if "map_get (cl_open C) (a, j) = Some chs" for a j chs
    using that by (simp add: open_ok_def)
  from assms(2) show ?thesis
  proof (cases rule: cluster_doE)
    case net
    then obtain a j where act: "act = Cl_send a j" by (cases act) auto
    with net obtain e to pl dt where w: "waiting_at C a j = Some e" "ev_requests e = Some (to, pl, dt)"
      by (auto split: option.splits)
    have "open_entry C' b k chs" if op: "map_get (cl_open C') (b, k) = Some chs" for b k chs
    proof (cases "(b, k) = (a, j)")
      case True
      with open_entry_send [OF w] op show ?thesis by (simp add: net act)
    next
      case False
      with op have "map_get (cl_open C) (b, k) = Some chs" by (auto simp: net act)
      from ok [OF this] show ?thesis by (rule open_entry_mono) (simp_all add: net act)
    qed
    then show ?thesis by (simp add: open_ok_def)
  next
    case (node b x n n')
    have "open_entry C' a j chs" if op: "map_get (cl_open C') (a, j) = Some chs" for a j chs
    proof (rule open_entry_mono)
      from op have opn: "map_get (cl_open (net_part act C)) (a, j) = Some chs" by (simp add: node(5))
      from ok [OF open_net_part [OF node(2) this]] show "open_entry C a j chs" .
      show "grows (cl_requests C) (cl_requests C')" unfolding node(5) by (simp add: net_part_grows)
      fix m e assume m: "map_get (cl_nodes C) a = Some m" "waiting (snd m) j = Some e"
      show "\<exists>m'. map_get (cl_nodes C') a = Some m' \<and> waiting (snd m') j = Some e"
      proof (cases "a = b")
        case True
        then have "\<forall>i. x \<noteq> Answer j i" using answered_not_open [OF opC node(1)] node(2) opn by auto
        with node_act_waiting [OF node(4)] m node(3) True show ?thesis by (simp add: node(5))
      qed (use m node(5) in simp)
    qed
    then show ?thesis by (simp add: open_ok_def)
  qed
qed

lemma cluster_ok_step:
  assumes "cluster_ok T C" and "cluster_step T C C'"
  shows "cluster_ok T C'"
proof -
  from assms(2) obtain act where act: "act_typed T act" "cluster_do act C = Some C'"
    by (auto elim: cluster_step.cases)
  from act(2) have guard: "act_guard act C" and rs: "cl_requests C' = cl_requests (net_part act C)"
    by (auto elim!: cluster_doE)
  have ch: "channels C' = channels (net_part act C)" by (simp add: channels_def rs fun_eq_iff)
  have up: "node_ok T C' a m" if "map_get (cl_nodes C) a = Some m" for a m
  proof (rule node_ok_mono)
    show "channels C a \<subseteq> channels C' a" by (rule channels_mono) (simp add: rs net_part_grows)
    show "node_ok T C a m" using assms(1) that unfolding cluster_ok_def by blast
  qed
  have "node_ok T C' a m" if m: "map_get (cl_nodes C') a = Some m" for a m
    using act(2)
  proof (cases rule: cluster_doE)
    case net
    with m up show ?thesis by simp
  next
    case (node b x n n')
    have "starts_ok (raft_starts_from T (channels C' b)) x"
      using node_part_starts_from [OF assms(1) node(1) act(1) node(2)] by (simp add: ch)
    from node_act_ok [OF node(4) act_brings_ok [OF assms(1) node(1-3)] this up [OF node(3)]]
    have "node_ok T C' b n'" .
    with node m up show ?thesis by (cases "b = a") auto
  qed
  then show ?thesis
    using requests_ok_step [OF assms(1) guard] open_ok_step [OF assms(1) act(2)]
    by (simp add: cluster_ok_def rs)
qed

lemma cluster_init_ok: "cluster_ok T (cluster_init port addrs)"
proof -
  have "node_ok T C a (raft_init b port ps)" for C a b ps
    unfolding node_ok_def using raft_init_keeps by blast
  then have "node_ok T C a n" if "map_get (cl_nodes (cluster_init port addrs)) a = Some n" for C a n
    using that by (auto simp: cluster_init_def map_get_init split: if_splits)
  then show ?thesis
    unfolding cluster_ok_def by (simp add: cluster_init_def open_ok_def)
qed

lemma cluster_reach_ok: "cluster_steps T (cluster_init port addrs) C \<Longrightarrow> cluster_ok T C"
  by (induction rule: rtranclp_induct) (auto intro: cluster_init_ok cluster_ok_step)

section \<open>Properties\<close>

text \<open>
  A node of a cluster, whatever the others do, only ever does what a node on its own can do:
  everything that holds in every interleaving of a single node holds of every node.
\<close>
theorem node_of_cluster:
  assumes "cluster_steps T (cluster_init port addrs) C" and "map_get (cl_nodes C) a = Some n"
  shows "a \<in> set addrs \<and> raft_steps (raft_init a port (removeAll a addrs)) n"
  using assms by (rule cluster_node_runs)

text \<open>C13:
  no command is invented: in every reachable state of a cluster whose command lines are used
  for commands of \<open>T\<close> only, the commit log of every node, what its kube client has received
  and what is on its way to it are commands of \<open>T\<close>.
\<close>
theorem logs_hold_typed_commands:
  assumes "cluster_steps T (cluster_init port addrs) C" and "map_get (cl_nodes C) a = Some n"
  shows "set (raft_commitLog (fst n)) \<union> set (raft_delivered (fst n)) \<union> set (raft_toCluster (fst n)) \<subseteq> T"
proof -
  from cluster_reach_ok [OF assms(1)] assms(2) obtain P where "raft_inv P T (fst n)"
    unfolding cluster_ok_def node_ok_def pool_keeps_def by blast
  then have "set (raft_commitLog (fst n)) \<subseteq> T"
    and "set_mset (mset (raft_delivered (fst n)) + mset (raft_toCluster (fst n))) =
      set_mset (mset (raft_commitLog (fst n)))"
    by (simp_all only: raft_inv_def)
  then show ?thesis by auto
qed

text \<open>
  The peers that a request list counts: each once, each has handled the request it was sent,
  and the reply that is counted is the one it gave.
\<close>

definition answered_by :: "cluster \<Rightarrow> string \<Rightarrow> payload \<Rightarrow> string \<Rightarrow> payload \<Rightarrow> bool" where
  "answered_by C a pl b reply \<longleftrightarrow>
     (\<exists>ch < length (cl_requests C). let q = cl_requests C ! ch in
        tcp_IP (rq_caller q) = a \<and> rq_to q = b \<and> rq_pl q = pl \<and> rq_arrived q \<and> rq_reply q = Some reply)"

lemma counted_replies:
  assumes "cluster_ok T C" and "act_guard (Cl_receive a j i got) C"
    and "waiting_at C a j = Some e" and "ev_requests e = Some (to, pl, dt)"
  shows "\<exists>voters. distinct voters \<and> set voters \<subseteq> set to \<and> length voters = length got \<and>
    (\<forall>k < length got. answered_by C a pl (voters ! k) (replies_to (cl_requests C) got ! k))"
proof -
  from assms(2) obtain chs where chs: "map_get (cl_open C) (a, j) = Some chs" "distinct got" "set got \<subseteq> set chs"
    by (auto split: option.splits)
  from assms(1) chs(1) have "open_entry C a j chs" by (simp add: cluster_ok_def open_ok_def)
  then obtain n where len: "distinct chs" "length chs = length to"
    and k: "\<forall>k < length to. chs ! k < length (cl_requests C) \<and>
      rq_to (cl_requests C ! (chs ! k)) = to ! k \<and> rq_pl (cl_requests C ! (chs ! k)) = pl \<and>
      tcp_IP (rq_caller (cl_requests C ! (chs ! k))) = a"
    using assms(3,4) by (auto simp: open_entry_def waiting_at_Some)
  have dist: "distinct to" using ev_requests_carries [OF waiting_event [OF assms(1,3)] assms(4)] by blast
  let ?to = "\<lambda>ch. rq_to (cl_requests C ! ch)"
  have "map ?to chs = to" using len k by (auto intro: nth_equalityI)
  with dist have inj: "inj_on ?to (set chs)" and sub: "?to ` set chs = set to"
    by (auto simp: distinct_map)
  let ?voters = "map ?to got"
  have "distinct ?voters" using chs(2,3) inj by (simp add: distinct_map inj_on_subset)
  moreover have "set ?voters \<subseteq> set to" using chs(3) sub by auto
  moreover have "answered_by C a pl (?voters ! m) (replies_to (cl_requests C) got ! m)" if "m < length got" for m
  proof -
    have mem: "got ! m \<in> set got" using that by simp
    with chs(3) len obtain x where x: "x < length to" "got ! m = chs ! x" by (metis in_set_conv_nth subsetD)
    from replies_carry [OF assms(1,2) mem] obtain r where
      r: "rq_reply (cl_requests C ! (got ! m)) = Some r" "rq_arrived (cl_requests C ! (got ! m))" by blast
    show ?thesis unfolding answered_by_def Let_def
      by (rule exI [of _ "got ! m"]) (use that x k r in \<open>simp add: replies_to_def\<close>)
  qed
  ultimately show ?thesis by (intro exI [of _ ?voters]) simp
qed

lemma counted_card:
  assumes "distinct voters" and "set voters \<subseteq> S" and "finite S" and "length voters = length rs"
    and "\<forall>k < length rs. Q (voters ! k) (rs ! k)"
  shows "length (filter p rs) \<le> card {b \<in> S. \<exists>r. p r \<and> Q b r}"
proof -
  let ?V = "map fst (filter (p \<circ> snd) (zip voters rs))"
  have zip: "map fst (zip voters rs) = voters" "map snd (zip voters rs) = rs" using assms(4) by simp_all
  have "distinct ?V" using assms(1) zip(1) distinct_map_filter by metis
  then have "card (set ?V) = length (filter (p \<circ> snd) (zip voters rs))"
    using distinct_card by fastforce
  also have "\<dots> = length (filter p (map snd (zip voters rs)))" by (simp add: filter_map)
  finally have "card (set ?V) = length (filter p rs)" by (simp only: zip)
  moreover have "set ?V \<subseteq> {b \<in> S. \<exists>r. p r \<and> Q b r}"
    using assms(2,4,5) by (auto simp: set_zip)
  then have "card (set ?V) \<le> card {b \<in> S. \<exists>r. p r \<and> Q b r}"
    by (rule card_mono [rotated]) (simp add: assms(3))
  ultimately show ?thesis by simp
qed

text \<open>C12:
  when the count of an election or of a proposal reaches a number \<open>q\<close>, at least \<open>q\<close> different
  peers among those asked have received this very request of this node and answered it (with
  a confirmation, for a proposal): no peer is counted twice, none for an older request, and
  no reply is made up.
\<close>
theorem quorums_are_peers:
  assumes "cluster_steps T (cluster_init port addrs) C" and "act_guard (Cl_receive a j i got) C"
    and "votes = in_votes (received (cl_requests C) got i)"
  shows "(\<forall>to pl dt. waiting_at C a j = Some (Ev_Election to pl dt) \<and> collect_votes q 0 votes \<longrightarrow>
      q \<le> int (card {b \<in> set to. \<exists>r. answered_by C a pl b r})) \<and>
    (\<forall>to pl dt. waiting_at C a j = Some (Ev_Gather to pl dt) \<and> collect_confirms q 0 votes \<longrightarrow>
      q \<le> int (card {b \<in> set to. \<exists>r. pl_Confirmed r \<and> answered_by C a pl b r}))"
proof -
  have votes: "votes = replies_to (cl_requests C) got" by (simp add: assms(3) received_def)
  have count: "length (filter p votes) \<le> card {b \<in> set to. \<exists>r. p r \<and> answered_by C a pl b r}"
    if "waiting_at C a j = Some e" "ev_requests e = Some (to, pl, dt)" for e to pl dt p
  proof -
    from counted_replies [OF cluster_reach_ok [OF assms(1)] assms(2) that] obtain voters where
      "distinct voters" "set voters \<subseteq> set to" "length voters = length votes"
      "\<forall>k < length votes. answered_by C a pl (voters ! k) (votes ! k)"
      by (auto simp: votes replies_to_def)
    from counted_card [OF this(1,2) _ this(3,4)] show ?thesis by simp
  qed
  show ?thesis
    using count [where p = "\<lambda>_. True"] count [where p = pl_Confirmed]
    by (fastforce simp: collect_votes_iff collect_confirms_iff)
qed

end
