(* ===== verification/Raft_Cluster_Runs.thy ===== *)
theory Raft_Cluster_Runs
  imports Raft_Cluster
begin

text \<open>
  Two runs of a cluster of three in which nothing is lost, late or restarted, and which still
  end where no cluster should: with two leaders of one term, and with logs that differ.
\<close>

section \<open>Pieces of a run\<close>

abbreviation go :: "string \<Rightarrow> nat \<Rightarrow> nat \<Rightarrow> cluster_act list" where
  "go a j n \<equiv> replicate n (Cl_step a j)"

text \<open>The order in which a node visits its routing table.\<close>

definition visit :: "string \<Rightarrow> raft_input" where
  "visit a = input0\<lparr>in_order := removeAll a [''a'', ''b'', ''c'']\<rparr>"

definition abc :: cluster where
  "abc = cluster_init 9996 [''a'', ''b'', ''c'']"

text \<open>The main goroutine of a node stands for election and sends its requests.\<close>

definition run_candidate :: "string \<Rightarrow> cluster_act list" where
  "run_candidate a = go a 0 3 @ [Cl_answer a 0 (visit a)] @ go a 0 6 @ [Cl_answer a 0 (visit a)] @ go a 0 4 @
     [Cl_send a 0]"

text \<open>
  A request for a vote is handled by goroutine \<open>j\<close> up to the test of the term, and from
  there to the vote.
\<close>

definition run_vote_1 :: "string \<Rightarrow> nat \<Rightarrow> nat \<Rightarrow> cluster_act list" where
  "run_vote_1 a j ch = [Cl_arrive ch] @ go a j 1 @ [Cl_answer a j input0] @ go a j 2"

definition run_vote_2 :: "string \<Rightarrow> nat \<Rightarrow> cluster_act list" where
  "run_vote_2 a j = go a j 5 @ [Cl_answer a j (visit a)] @ go a j 3 @ [Cl_reply a j]"

definition run_win :: "string \<Rightarrow> nat \<Rightarrow> cluster_act list" where
  "run_win a ch = [Cl_receive a 0 input0 [ch]] @ go a 0 1"

definition run_two_leaders :: "cluster_act list" where
  "run_two_leaders = run_candidate ''a'' @ run_candidate ''b'' @
     run_vote_1 ''c'' 1 1 @ run_vote_1 ''c'' 2 3 @ run_vote_2 ''c'' 1 @ run_vote_2 ''c'' 2 @
     run_win ''a'' 1 @ run_win ''b'' 3"

text \<open>A proposal of the leader is confirmed by goroutine \<open>j\<close> of a member with an equal log.\<close>

definition run_confirm :: "string \<Rightarrow> nat \<Rightarrow> nat \<Rightarrow> cluster_act list" where
  "run_confirm a j ch = [Cl_arrive ch] @ go a j 1 @ [Cl_answer a j input0] @ go a j 7 @
     [Cl_answer a j (visit a)] @ go a j 4 @ [Cl_reply a j]"

text \<open>From the decision to commit to the proposals.\<close>

definition run_propose :: "string \<Rightarrow> nat \<Rightarrow> cluster_act list" where
  "run_propose a j = [Cl_answer a j (visit a)] @ go a j 5 @ [Cl_send a j]"

definition run_diverge :: "cluster_act list" where
  "run_diverge = run_candidate ''a'' @ run_vote_1 ''b'' 1 0 @ run_vote_2 ''b'' 1 @
     run_vote_1 ''c'' 1 1 @ run_vote_2 ''c'' 1 @ run_win ''a'' 0 @
     [Cl_command ''b'' demo_cmd] @ go ''b'' 2 2 @ [Cl_answer ''b'' 2 (visit ''b'')] @ go ''b'' 2 1 @
     [Cl_answer ''b'' 2 (visit ''b'')] @ go ''b'' 2 3 @ [Cl_send ''b'' 2] @
     [Cl_arrive 2] @ go ''a'' 1 1 @ [Cl_answer ''a'' 1 input0] @ go ''a'' 1 7 @ run_propose ''a'' 1 @
     [Cl_command ''a'' demo_cmd2] @ go ''a'' 2 1 @ run_propose ''a'' 2 @
     run_confirm ''c'' 2 4 @ run_confirm ''c'' 3 6 @
     [Cl_receive ''a'' 2 input0 [6]] @ go ''a'' 2 1 @
     [Cl_receive ''a'' 1 input0 [4]] @ go ''a'' 1 1 @ [Cl_answer ''a'' 1 (visit ''a'')] @ go ''a'' 1 4 @
     [Cl_reply ''a'' 1] @
     [Cl_receive ''b'' 2 input0 [2]] @ go ''b'' 2 1"

definition run_repair :: "cluster_act list" where
  "run_repair = go ''a'' 0 3 @ [Cl_answer ''a'' 0 input0] @ go ''a'' 0 4 @ [Cl_answer ''a'' 0 (visit ''a'')] @
     go ''a'' 0 1 @ [Cl_send ''a'' 0] @
     [Cl_arrive 7] @ go ''b'' 3 1 @ [Cl_answer ''b'' 3 input0] @ go ''b'' 3 9 @
     [Cl_answer ''b'' 3 (visit ''b'')] @ go ''b'' 3 3 @ [Cl_send ''b'' 3] @
     [Cl_arrive 8] @ go ''a'' 3 1 @ [Cl_answer ''a'' 3 input0] @ go ''a'' 3 7 @ [Cl_reply ''a'' 3] @
     [Cl_receive ''b'' 3 input0 [8]] @ go ''b'' 3 1"

section \<open>Where they end\<close>

lemma run_reaches:
  assumes "case cluster_run acts abc of None \<Rightarrow> False | Some C \<Rightarrow> Q C"
    and "\<forall>act \<in> set acts. act_typed T act"
  shows "\<exists>C. cluster_steps T abc C \<and> Q C"
proof -
  from assms(1) obtain C where "cluster_run acts abc = Some C" "Q C" by (auto split: option.splits)
  with cluster_run_steps [OF this(1) assms(2)] show ?thesis by blast
qed

definition node_in :: "cluster \<Rightarrow> string \<Rightarrow> RAFT" where
  "node_in C a = (case map_get (cl_nodes C) a of None \<Rightarrow> InitRaft [] 0 | Some n \<Rightarrow> fst n)"

lemmas run_defs = run_two_leaders_def run_diverge_def run_repair_def run_candidate_def run_vote_1_def
  run_vote_2_def run_win_def run_confirm_def run_propose_def

text \<open>C6:
  a cluster of three can have two leaders of the same term, with no message lost and no
  command typed: both candidates ask \<open>c\<close>, and its two handlers test the term before either
  writes it, so \<open>c\<close> votes for both.
\<close>
theorem two_leaders_one_term:
  "\<exists>C. cluster_steps {} abc C \<and>
     raft_role (node_in C ''a'') = LEADER \<and> raft_term (node_in C ''a'') = 1 \<and>
     raft_role (node_in C ''b'') = LEADER \<and> raft_term (node_in C ''b'') = 1"
proof (rule run_reaches)
  show "case cluster_run run_two_leaders abc of None \<Rightarrow> False
    | Some C \<Rightarrow> raft_role (node_in C ''a'') = LEADER \<and> raft_term (node_in C ''a'') = 1 \<and>
        raft_role (node_in C ''b'') = LEADER \<and> raft_term (node_in C ''b'') = 1"
    by code_simp
  show "\<forall>act \<in> set run_two_leaders. act_typed {} act"
    by (auto simp: run_defs)
qed

text \<open>C7:
  under one leader that never changes, and with no message lost, logs can differ for good: a
  command typed at the leader and one forwarded by a member are both proposed at log length
  0, both are confirmed by \<open>c\<close> and committed, in the order \<open>[demo_cmd2, demo_cmd]\<close> at the
  leader, while the member adds its own command first; the next heartbeat makes it fetch entry
  2, and it ends with \<open>[demo_cmd, demo_cmd]\<close>, a log as long as the leader's.
\<close>
theorem logs_diverge:
  "\<exists>C. cluster_steps {demo_cmd, demo_cmd2} abc C \<and>
     raft_role (node_in C ''a'') = LEADER \<and> raft_role (node_in C ''b'') = MEMBER \<and>
     raft_term (node_in C ''b'') = raft_term (node_in C ''a'') \<and>
     raft_commitLog (node_in C ''a'') = [demo_cmd2, demo_cmd] \<and>
     raft_commitLog (node_in C ''b'') = [demo_cmd, demo_cmd]"
proof (rule run_reaches)
  show "case cluster_run (run_diverge @ run_repair) abc of None \<Rightarrow> False
    | Some C \<Rightarrow> raft_role (node_in C ''a'') = LEADER \<and> raft_role (node_in C ''b'') = MEMBER \<and>
        raft_term (node_in C ''b'') = raft_term (node_in C ''a'') \<and>
        raft_commitLog (node_in C ''a'') = [demo_cmd2, demo_cmd] \<and>
        raft_commitLog (node_in C ''b'') = [demo_cmd, demo_cmd]"
    by code_simp
  have "proper_cmd demo_cmd2" by code_simp
  then show "\<forall>act \<in> set (run_diverge @ run_repair). act_typed {demo_cmd, demo_cmd2} act"
    using demo_cmd_proper by (auto simp: run_defs)
qed

section \<open>The theorems of \<open>Raft_Cluster\<close> at these runs\<close>

lemma node_in_Some:
  "raft_role (node_in C a) \<noteq> MEMBER \<or> raft_commitLog (node_in C a) \<noteq> [] \<Longrightarrow>
   \<exists>n. map_get (cl_nodes C) a = Some n \<and> fst n = node_in C a"
  by (auto simp: node_in_def InitRaft_def split: option.splits)

theorem node_of_cluster_witness:
  "\<exists>n. raft_role (fst n) = LEADER \<and> raft_steps (raft_init ''a'' 9996 [''b'', ''c'']) n"
proof -
  have "\<exists>C. cluster_steps {} abc C \<and> raft_role (node_in C ''a'') = LEADER"
  proof (rule run_reaches)
    show "case cluster_run run_two_leaders abc of None \<Rightarrow> False
      | Some C \<Rightarrow> raft_role (node_in C ''a'') = LEADER" by code_simp
  qed (auto simp: run_defs)
  then obtain C where C: "cluster_steps {} abc C" "raft_role (node_in C ''a'') = LEADER" by blast
  with node_in_Some obtain n where n: "map_get (cl_nodes C) ''a'' = Some n" "raft_role (fst n) = LEADER"
    by (metis RaftStatus.distinct(1) RaftStatus.distinct(5) RaftStatus.distinct(3))
  from node_of_cluster [OF C(1) [unfolded abc_def] n(1)] n(2) show ?thesis by (intro exI [of _ n]) simp
qed

theorem logs_hold_typed_commands_witness:
  "\<exists>n :: raft_node. raft_commitLog (fst n) = [demo_cmd, demo_cmd] \<and>
     set (raft_commitLog (fst n)) \<union> set (raft_delivered (fst n)) \<union> set (raft_toCluster (fst n))
       \<subseteq> {demo_cmd, demo_cmd2}"
proof -
  have "\<exists>C. cluster_steps {demo_cmd, demo_cmd2} abc C \<and> raft_commitLog (node_in C ''b'') = [demo_cmd, demo_cmd]"
  proof (rule run_reaches)
    show "case cluster_run (run_diverge @ run_repair) abc of None \<Rightarrow> False
      | Some C \<Rightarrow> raft_commitLog (node_in C ''b'') = [demo_cmd, demo_cmd]" by code_simp
    have "proper_cmd demo_cmd2" by code_simp
    then show "\<forall>act \<in> set (run_diverge @ run_repair). act_typed {demo_cmd, demo_cmd2} act"
      using demo_cmd_proper by (auto simp: run_defs)
  qed
  then obtain C where C: "cluster_steps {demo_cmd, demo_cmd2} abc C"
    "raft_commitLog (node_in C ''b'') = [demo_cmd, demo_cmd]" by blast
  with node_in_Some [of C "''b''"] obtain n where n: "map_get (cl_nodes C) ''b'' = Some n"
    "raft_commitLog (fst n) = [demo_cmd, demo_cmd]" by auto
  from logs_hold_typed_commands [OF C(1) [unfolded abc_def] n(1)] n(2) show ?thesis by blast
qed

theorem quorums_are_peers_witness:
  "\<exists>C pl. waiting_at C ''a'' 0 = Some (Ev_Election [''b'', ''c''] pl REQUEST_VOTE) \<and>
     1 \<le> int (card {b \<in> {''b'', ''c''}. \<exists>r. answered_by C ''a'' pl b r})"
proof -
  let ?run = "run_candidate ''a'' @ run_vote_1 ''b'' 1 0 @ run_vote_2 ''b'' 1"
  let ?pl = "PL_RequestVote \<lparr>rv_Term = 1, rv_CandidateAddr = ''a'', rv_LogIndex = 0, rv_Agreed = False\<rparr>"
  have "\<exists>C. cluster_steps {} abc C \<and> act_guard (Cl_receive ''a'' 0 input0 [0]) C \<and>
    waiting_at C ''a'' 0 = Some (Ev_Election [''b'', ''c''] ?pl REQUEST_VOTE) \<and>
    collect_votes 1 0 (in_votes (received (cl_requests C) [0] input0))"
  proof (rule run_reaches)
    show "case cluster_run ?run abc of None \<Rightarrow> False | Some C \<Rightarrow>
      act_guard (Cl_receive ''a'' 0 input0 [0]) C \<and>
      waiting_at C ''a'' 0 = Some (Ev_Election [''b'', ''c''] ?pl REQUEST_VOTE) \<and>
      collect_votes 1 0 (in_votes (received (cl_requests C) [0] input0))" by code_simp
  qed (auto simp: run_defs)
  then obtain C where C: "cluster_steps {} abc C" "act_guard (Cl_receive ''a'' 0 input0 [0]) C"
    "waiting_at C ''a'' 0 = Some (Ev_Election [''b'', ''c''] ?pl REQUEST_VOTE)"
    "collect_votes 1 0 (in_votes (received (cl_requests C) [0] input0))" by blast
  from quorums_are_peers [OF C(1) [unfolded abc_def] C(2) refl, of 1] C(3,4)
  have "1 \<le> int (card {b \<in> set [''b'', ''c'']. \<exists>r. answered_by C ''a'' ?pl b r})" by blast
  with C(3) show ?thesis by (intro exI conjI) auto
qed

end
