(* ===== verification/Raft_Elected.thy ===== *)
theory Raft_Elected
  imports Raft_Cluster_Runs Raft_Alone
begin

text \<open>
  Who leads has been elected: in every interleaving of a cluster, with requests and replies
  lost and delayed at will, a node has the leader's role only after a majority of the cluster
  (itself and the peers that answered one and the same request for votes of this node) was
  behind it. Only the main goroutine takes the role, and only at the end of an election; all
  other code is \<open>calm\<close>.
\<close>

section \<open>Code that does not make a leader\<close>

definition calm_write :: "RAFT \<Rightarrow> RAFT \<Rightarrow> bool" where
  "calm_write s s' \<longleftrightarrow> raft_quorum s' = raft_quorum s \<and>
     rt_peers (raft_peers s') = rt_peers (raft_peers s) \<and>
     (raft_role s' = LEADER \<longrightarrow> raft_role s = LEADER)"

fun is_election :: "raft_event \<Rightarrow> bool" where
  "is_election (Ev_Election to pl dt) = True"
| "is_election _ = False"

primrec calm :: "rproc \<Rightarrow> bool" where
  "calm Return = True"
| "calm Block = True"
| "calm Crash = True"
| "calm (Goto l) = True"
| "calm (Atom u k) = (\<forall>s. calm_write s (u s) \<and> calm (k s))"
| "calm (Io e k) = (\<not> is_election e \<and> (\<forall>i. calm (k i)))"

lemma calm_write_simps [simp]:
  "calm_write s s" "calm_write s (changeRole MEMBER s)" "calm_write s (changeRole CANDIDATE s)"
  "calm_write s (updateTerm t s)" "calm_write s (addCommit c s)" "calm_write s (deliverCommit i s)"
  by (simp_all add: calm_write_def raft_simps)

lemma calm_write_peers:
  "rt_peers p = rt_peers (raft_peers s) \<Longrightarrow> calm_write s (s\<lparr>raft_peers := p\<rparr>)"
  by (simp add: calm_write_def)

lemma calm_steps [simp]:
  "calm (r_read f k) \<longleftrightarrow> (\<forall>s. calm (k (f s)))"
  "calm (r_write u p) \<longleftrightarrow> (\<forall>s. calm_write s (u s)) \<and> calm p"
  by (simp_all add: r_read_def r_write_def)

lemma calm_r [simp]:
  "(\<And>x. calm (k x)) \<Longrightarrow> calm (r_IsPeer a k)"
  "calm p \<Longrightarrow> calm (r_UpdateTTL a p)"
  "calm p \<Longrightarrow> calm (r_MakeLeader a p)"
  "calm p \<Longrightarrow> calm (r_WipeLeader p)"
  "(\<And>x. calm (g x)) \<Longrightarrow> calm (r_GetAddr g)"
  "(\<And>x. calm (h x)) \<Longrightarrow> calm (r_GetPeersAddress h)"
  "(\<And>x. calm (l x)) \<Longrightarrow> calm (r_GetLeaderAddr l)"
  "(\<And>x. calm (m x)) \<Longrightarrow> calm (r_GetLeaderTimeout m)"
  "(\<And>x. calm (c x)) \<Longrightarrow> calm (r_CheckLeaderTimeout c)"
  "(\<And>x. calm (i x)) \<Longrightarrow> calm (r_getLogItem n i)"
  "calm p \<Longrightarrow> calm (r_sendNewTerm p)"
  "calm p \<Longrightarrow> calm (r_sendNewLeader a p)"
  "calm p \<Longrightarrow> calm (r_sendEncodedReply a pl dt ch p)"
  by (simp_all add: r_IsPeer_def r_UpdateTTL_def r_MakeLeader_def r_WipeLeader_def r_GetAddr_def
      r_GetPeersAddress_def r_GetLeaderAddr_def r_GetLeaderTimeout_def r_CheckLeaderTimeout_def
      r_getLogItem_def r_sendNewTerm_def r_sendNewLeader_def r_sendEncodedReply_def
      calm_write_peers routing_simps split: checked.split)

lemma calm_replies [simp]:
  "calm p \<Longrightarrow> calm (r_sendReplyObjectCommited ch st p)"
  "calm p \<Longrightarrow> calm (r_sendReplyLeaderVote ch st p)"
  "calm p \<Longrightarrow> calm (r_respondFetchMissingEntries ch obj n a p)"
  by (auto simp: r_sendReplyObjectCommited_def r_sendReplyLeaderVote_def r_respondFetchMissingEntries_def
      case_prod_beta)

lemma calm_commitObject [simp]: "(\<And>b. calm (k b)) \<Longrightarrow> calm (r_commitObject obj k)"
  unfolding r_commitObject_def r_requestAddObject_def r_sendLeaderWrite_def
  by (auto simp: case_prod_beta split: raft_outcome.split)

lemma calm_fetchLoop [simp]: "calm k \<Longrightarrow> calm (r_fetchLoop n t a k)"
  by (induction n) (auto simp: r_sendFetchObjectAtIndex_def Let_def split: raft_outcome.split)

lemma calm_handlers [simp]:
  "calm (handle_REQUEST_VOTE ch rv)" "calm (handle_APPEND_ENTRY ch ae)"
  "calm (handle_FETCH_MISSING_ENTRIES ch fm)"
  by (auto simp: handle_REQUEST_VOTE_def handle_APPEND_ENTRY_def handle_APPEND_ENTRY_rest_def
      handle_APPEND_ENTRY_current_def handle_FETCH_MISSING_ENTRIES_def r_catchUp_def Let_def case_prod_beta)

lemma calm_starts: "raft_starts p \<Longrightarrow> calm p \<and> no_goto p"
  by (auto elim!: raft_starts.cases simp: handleRpc_def handleCli_def Let_def split: option.split)

lemma calm_notifyAll [simp]: "calm k \<Longrightarrow> calm (r_notifyAll ps pl k)"
  by (induction ps) simp_all

lemma calm_main [simp]: "calm r_watchLeader" "calm (r_awaitLeaderTTL d)" "calm r_startLeader"
  by (auto simp: r_watchLeader_def r_afterWatch_def r_awaitLeaderTTL_def r_startLeader_def
      r_sendLogUpdates_def case_prod_beta split: raft_select.split)

section \<open>As long as no election is won\<close>

text \<open>
  The answers that come if no election of this node reaches \<open>q\<close> replies, a state in which it
  does not lead, and what it sends then.
\<close>

definition lost :: "goint \<Rightarrow> RAFT \<Rightarrow> raft_event \<Rightarrow> raft_input \<Rightarrow> bool" where
  "lost q s e i \<longleftrightarrow> raft_env s e i \<and> (is_election e \<longrightarrow> \<not> collect_votes q 0 (in_votes i))"

definition unled :: "goint \<Rightarrow> string set \<Rightarrow> RAFT \<Rightarrow> bool" where
  "unled q P s \<longleftrightarrow> raft_quorum s = q \<and> raft_role s \<noteq> LEADER \<and> set (rt_peers (raft_peers s)) = P"

definition asks :: "string set \<Rightarrow> raft_event \<Rightarrow> bool" where
  "asks P e \<longleftrightarrow> (\<forall>to pl dt. e = Ev_Election to pl dt \<longrightarrow> set to \<subseteq> P \<and> (\<exists>m. pl = PL_RequestVote m))"

abbreviation keeps_unled :: "goint \<Rightarrow> string set \<Rightarrow> rproc \<Rightarrow> bool" where
  "keeps_unled q P \<equiv> keeps (lost q) (unled q P) (\<lambda>_ _. True) (asks P)"

lemma calm_keeps: "calm p \<Longrightarrow> keeps_unled q P p"
  by (induction p) (auto simp: unled_def calm_write_def asks_def)

lemma keeps_unled_visit:
  assumes "\<And>ms. set (nonempty_addrs ms) \<subseteq> P \<Longrightarrow> keeps_unled q P (k ms)"
  shows "keeps_unled q P (r_GetPeersAddress k)"
  unfolding r_GetPeersAddress_def
proof (rule keeps_IoI_env)
  fix i s assume "unled q P s" "lost q s Ev_Visit i"
  then have "set (in_order i) = P" by (simp add: unled_def lost_def range_order_def)
  then have "set (nonempty_addrs (GetPeersAddress (in_order i) p)) \<subseteq> P" for p
    by (auto simp: GetPeersAddress_def)
  then show "keeps_unled q P (r_read (\<lambda>r. GetPeersAddress (in_order i) (raft_peers r)) k)"
    by (simp add: r_read_def assms)
qed (simp add: asks_def)

lemma keeps_unled_read: "(\<And>x. keeps_unled q P (k x)) \<Longrightarrow> keeps_unled q P (r_read f k)"
  by (simp add: r_read_def)

lemma keeps_unled_term: "keeps_unled q P k \<Longrightarrow> keeps_unled q P (r_write (updateTerm t) k)"
  by (simp add: r_write_def unled_def raft_simps)

lemma keeps_unled_candidate: "keeps_unled q P r_candidateTurn"
proof -
  have calm: "keeps_unled q P (r_MakeLeader [] (r_changeRole MEMBER (Io Ev_Sleep (\<lambda>_. Goto L_startRAFT))))"
    "keeps_unled q P (r_changeRole MEMBER (Io Ev_Sleep (\<lambda>_. Goto L_startRAFT)))"
    by (rule calm_keeps, simp)+
  have turn: "keeps_unled q P (r_requestLeaderVotes t (\<lambda>quorum i.
      case in_select i of
        Sel_main \<Rightarrow> if collect_votes quorum 0 (in_votes i)
          then r_changeRole LEADER (Goto L_startRAFT) else Goto L_startRAFT
      | Sel_newTerm \<Rightarrow> r_MakeLeader [] (r_changeRole MEMBER (Io Ev_Sleep (\<lambda>_. Goto L_startRAFT)))
      | Sel_newLeader _ \<Rightarrow> r_changeRole MEMBER (Io Ev_Sleep (\<lambda>_. Goto L_startRAFT))))" for t
    unfolding r_requestLeaderVotes_def r_GetAddr_def r_read_def
    using calm by (intro keeps_unled_visit) (auto simp: unled_def asks_def lost_def split: raft_select.split)
  show ?thesis
    unfolding r_candidateTurn_def Let_def by (intro keeps_unled_read keeps_unled_term turn)
qed

lemma keeps_unled_code: "keeps_unled q P (raft_code l)"
proof (cases l)
  case L_startRAFT
  have "keeps_unled q P (case role of LEADER \<Rightarrow> Goto L_startLeader | CANDIDATE \<Rightarrow> r_candidateTurn
      | MEMBER \<Rightarrow> r_watchLeader)" for role
    by (cases role) (simp_all add: keeps_unled_candidate calm_keeps)
  with L_startRAFT show ?thesis by (simp add: r_mainTurn_def r_read_def)
qed (simp_all add: calm_keeps)

interpretation elected: goroutine_pool raft_code raft_starts "lost q" "unled q P" "\<lambda>_ _. True" "asks P" for q P
  by unfold_locales (use keeps_unled_code calm_starts calm_keeps in auto)

section \<open>A node that has not won yet\<close>

text \<open>
  Before \<open>startRAFT\<close> has run the quorum is not set; requests may come in already. Afterwards
  the whole pool keeps \<open>unled\<close>.
\<close>

definition before_start :: "raft_node \<Rightarrow> bool" where
  "before_start n \<longleftrightarrow> raft_role (fst n) \<noteq> LEADER \<and>
     (\<exists>ps. snd n = startRAFT # ps \<and> (\<forall>p \<in> set ps. calm p \<and> no_goto p))"

definition not_won :: "goint \<Rightarrow> string set \<Rightarrow> raft_node \<Rightarrow> bool" where
  "not_won q P n \<longleftrightarrow> before_start n \<or> pool_keeps (lost q) (unled q P) (\<lambda>_ _. True) (asks P) n"

lemma before_start_calm:
  "before_start n \<Longrightarrow> 0 < j \<Longrightarrow> j < length (snd n) \<Longrightarrow> calm (snd n ! j) \<and> no_goto (snd n ! j)"
  by (cases j) (auto simp: before_start_def)

lemma before_start_update:
  assumes "before_start (s, ts)" and "calm_write s s'" and "calm p" "no_goto p" and "0 < j" "j < length ts"
  shows "before_start (s', ts[j := p])"
proof -
  from assms(1) obtain ps where "ts = startRAFT # ps" "\<forall>p \<in> set ps. calm p \<and> no_goto p" "raft_role s \<noteq> LEADER"
    by (auto simp: before_start_def)
  with assms(2-6) show ?thesis
    by (cases j) (auto simp: before_start_def calm_write_def dest!: set_update_subset_insert [THEN subsetD])
qed

text \<open>The quorum is set to the smallest number that makes a majority with the own support.\<close>

lemma start_unled:
  assumes "before_start (s, ts)" and "raft_inv P UNIV s" and "q = (int (card P) + 1) div 2"
  shows "pool_keeps (lost q) (unled q P) (\<lambda>_ _. True) (asks P)
    (s\<lparr>raft_quorum := snd (LockRoutingTableEntries (raft_peers s)),
       raft_peers := fst (LockRoutingTableEntries (raft_peers s))\<rparr>, ts[0 := Goto L_startRAFT])"
proof -
  from assms(1) obtain ps where ts: "ts = startRAFT # ps" "\<forall>p \<in> set ps. calm p" "raft_role s \<noteq> LEADER"
    by (auto simp: before_start_def)
  from assms(2) have "distinct (rt_peers (raft_peers s))" "set (rt_peers (raft_peers s)) = P"
    by (auto simp: raft_inv_def routing_ok_def map_ok_def)
  then have "map_len (rt_table (raft_peers s)) = int (card P)"
    by (metis distinct_card map_len_keys)
  with ts assms(2,3) show ?thesis
    by (auto simp: pool_keeps_def unled_def LockRoutingTableEntries_def raft_inv_def calm_keeps)
qed

lemma not_won_act:
  assumes "not_won q P n" and "raft_inv P UNIV (fst n)" and "q = (int (card P) + 1) div 2"
    and "node_act raft_code raft_env x n = Some n'" and "starts_ok raft_starts x"
    and "\<And>j i e. x = Answer j i \<Longrightarrow> waiting (snd n) j = Some e \<Longrightarrow> is_election e \<Longrightarrow>
      \<not> collect_votes q 0 (in_votes i)"
  shows "not_won q P n'"
proof (cases "before_start n")
  case True
  obtain s ts where n: "n = (s, ts)" by (cases n)
  from True obtain ps where ts: "ts = startRAFT # ps" by (auto simp: before_start_def n)
  show ?thesis
  proof (cases x)
    case (Step j)
    show ?thesis
    proof (cases j)
      case 0
      with assms(4) Step have "n' = (s\<lparr>raft_quorum := snd (LockRoutingTableEntries (raft_peers s)),
          raft_peers := fst (LockRoutingTableEntries (raft_peers s))\<rparr>, ts[0 := Goto L_startRAFT])"
        by (auto simp: n ts startRAFT_def r_write_def split: if_splits)
      with start_unled [OF True [unfolded n]] assms(2,3) show ?thesis by (simp add: n not_won_def)
    next
      case (Suc m)
      then have j: "0 < j" "j < length ts" using assms(4) Step by (auto simp: n split: if_splits)
      from before_start_calm [OF True j(1)] j(2) have "calm (ts ! j)" "no_goto (ts ! j)" by (simp_all add: n)
      with assms(4) Step obtain u k where "ts ! j = Atom u k" "n' = (u s, ts[j := k s])"
        by (auto simp: n split: if_splits goproc.splits)
      with before_start_update [OF True [unfolded n] _ _ _ j] \<open>calm (ts ! j)\<close> \<open>no_goto (ts ! j)\<close>
      show ?thesis by (auto simp: not_won_def)
    qed
  next
    case (Answer j i)
    then have "j < length ts" "ts ! j \<noteq> startRAFT" using assms(4)
      by (auto simp: n startRAFT_def r_write_def split: if_splits)
    then have j: "0 < j" "j < length ts" using ts by (auto intro: gr0I)
    from before_start_calm [OF True j(1)] j(2) have "calm (ts ! j)" "no_goto (ts ! j)" by (simp_all add: n)
    with assms(4) Answer obtain e k where "ts ! j = Io e k" "n' = (s, ts[j := k i])"
      by (auto simp: n split: if_splits goproc.splits)
    with before_start_update [OF True [unfolded n] _ _ _ j] \<open>calm (ts ! j)\<close> \<open>no_goto (ts ! j)\<close>
    show ?thesis by (auto simp: not_won_def)
  next
    case (Start p)
    with assms(4,5) True show ?thesis
      by (auto simp: n not_won_def before_start_def dest: calm_starts split: if_splits)
  qed
next
  case False
  with assms(1) have pool: "pool_keeps (lost q) (unled q P) (\<lambda>_ _. True) (asks P) n" by (simp add: not_won_def)
  have "node_act raft_code (lost q) x n = Some n'"
  proof (cases n)
    case (Pair s ts)
    with assms(4,6) show ?thesis
      by (cases x) (auto simp: waiting.simps lost_def split: goproc.splits if_splits)
  qed
  from elected.step_keeps [OF node_act_step [OF this assms(5)] pool] show ?thesis by (simp add: not_won_def)
qed

lemma not_won_asks:
  assumes "not_won q P n" and "waiting (snd n) j = Some e"
  shows "asks P e"
proof -
  from assms(2) obtain k where k: "j < length (snd n)" "snd n ! j = Io e k"
    by (auto simp: waiting.simps split: if_splits goproc.splits)
  show ?thesis
  proof (cases "before_start n")
    case True
    with k have "0 < j" by (cases j) (auto simp: before_start_def startRAFT_def r_write_def)
    from before_start_calm [OF True this k(1)] k(2) show ?thesis by (auto simp: asks_def)
  next
    case False
    with assms(1) k pool_keeps_nth [of "lost q" "unled q P" _ "asks P" "fst n" "snd n" j] show ?thesis
      by (auto simp: not_won_def)
  qed
qed

lemma not_won_role: "not_won q P n \<Longrightarrow> raft_role (fst n) \<noteq> LEADER"
  by (auto simp: not_won_def before_start_def pool_keeps_def unled_def)

lemma not_won_init: "not_won q P (raft_init a port ps)"
  by (simp add: not_won_def before_start_def raft_init_def raft_boot_def InitRaft_def)

section \<open>A majority was behind every leader\<close>

definition supporters :: "cluster \<Rightarrow> string \<Rightarrow> payload \<Rightarrow> string set \<Rightarrow> string set" where
  "supporters C a pl P = {b \<in> P. \<exists>r. answered_by C a pl b r}"

lemma answered_by_mono:
  "grows (cl_requests C) (cl_requests C') \<Longrightarrow> answered_by C a pl b r \<Longrightarrow> answered_by C' a pl b r"
  unfolding answered_by_def grows_def Let_def by (metis less_le_trans option.discI)

lemma supporters_mono:
  "grows (cl_requests C) (cl_requests C') \<Longrightarrow> finite P \<Longrightarrow>
   card (supporters C a pl P) \<le> card (supporters C' a pl P)"
  by (rule card_mono) (auto simp: supporters_def dest: answered_by_mono)

definition elected_by :: "goint \<Rightarrow> string set \<Rightarrow> cluster \<Rightarrow> string \<Rightarrow> bool" where
  "elected_by q P C a \<longleftrightarrow> (\<exists>m. q \<le> int (card (supporters C a (PL_RequestVote m) P)))"

lemma cluster_grows: "cluster_step T C C' \<Longrightarrow> grows (cl_requests C) (cl_requests C')"
  by (auto elim!: cluster_step.cases cluster_doE simp: net_part_grows)

lemma elected_by_mono: "cluster_step T C C' \<Longrightarrow> finite P \<Longrightarrow> elected_by q P C a \<Longrightarrow> elected_by q P C' a"
  unfolding elected_by_def using supporters_mono [OF cluster_grows] by (meson of_nat_mono order_trans)

text \<open>An election that is won at an answer has its supporters among the connections.\<close>

lemma won_elected:
  assumes "cluster_ok T C" and "act_guard (Cl_receive a j i got) C" and "finite P"
    and "waiting_at C a j = Some e" "is_election e" "asks P e"
    and "collect_votes q 0 (in_votes (received (cl_requests C) got i))"
  shows "elected_by q P C a"
proof -
  from assms(5,6) obtain to m dt where e: "e = Ev_Election to (PL_RequestVote m) dt" "set to \<subseteq> P"
    by (cases e) (auto simp: asks_def)
  let ?rs = "replies_to (cl_requests C) got"
  from counted_replies [OF assms(1,2,4)] e obtain voters where
    "distinct voters" "set voters \<subseteq> set to" "length voters = length ?rs"
    "\<forall>k < length ?rs. answered_by C a (PL_RequestVote m) (voters ! k) (?rs ! k)"
    by (auto simp: replies_to_def)
  with e(2) counted_card [of voters P ?rs "answered_by C a (PL_RequestVote m)" "\<lambda>_. True"] assms(3)
  have "length ?rs \<le> card (supporters C a (PL_RequestVote m) P)" by (simp add: supporters_def)
  moreover have "q \<le> int (length ?rs)"
    using assms(7) by (auto simp: received_def collect_votes_iff)
  ultimately show ?thesis unfolding elected_by_def by (intro exI [of _ m]) simp
qed

lemma elected_step:
  assumes "cluster_ok T C" and "cluster_step T C C'" and "finite P" and "q = (int (card P) + 1) div 2"
    and "\<And>n. map_get (cl_nodes C) a = Some n \<Longrightarrow> raft_inv P UNIV (fst n)"
    and "\<And>n. map_get (cl_nodes C) a = Some n \<Longrightarrow> not_won q P n \<or> elected_by q P C a"
    and "map_get (cl_nodes C') a = Some n'"
  shows "not_won q P n' \<or> elected_by q P C' a"
proof (cases "elected_by q P C a")
  case True
  with elected_by_mono [OF assms(2,3)] show ?thesis by blast
next
  case False
  from assms(2) obtain act where act: "act_typed T act" "cluster_do act C = Some C'"
    by (auto elim: cluster_step.cases)
  from act(2) show ?thesis
  proof (cases rule: cluster_doE)
    case net
    with assms(6,7) False show ?thesis by simp
  next
    case (node b x m m')
    show ?thesis
    proof (cases "b = a")
      case True
      with node assms(7) have m': "m' = n'" by simp
      from node True have m: "map_get (cl_nodes C) a = Some m" by simp
      have nw: "not_won q P m" using assms(6) [OF m] False by simp
      have "\<not> collect_votes q 0 (in_votes i)"
        if x: "x = Answer j i" and e: "waiting (snd m) j = Some e" "is_election e" for j i e
      proof
        assume won: "collect_votes q 0 (in_votes i)"
        have crash: "\<not> list_ex is_crash (snd m)" using node(4) x by (cases m) (auto split: if_splits)
        with m e(1) have w: "waiting_at C a j = Some e" by (simp add: waiting_at_Some)
        from e(2) have r: "ev_requests e \<noteq> None" "\<not> is_reply e" by (cases e; simp)+
        from node(1,2) x True w r obtain i' got where
          "act = Cl_receive a j i' got" "i = received (cl_requests C) got i'"
          by (cases act) auto
        with won_elected [OF assms(1) _ assms(3) w e(2) not_won_asks [OF nw e(1)]] node(1) won False
        show False by simp
      qed
      from not_won_act [OF nw assms(5) [OF m] assms(4) node(4) node_part_starts [OF act(1) node(2)] this]
      show ?thesis by (simp add: m')
    qed (use node assms(6,7) False in auto)
  qed
qed

lemma cluster_not_won:
  assumes "cluster_steps T (cluster_init port addrs) C" and "map_get (cl_nodes C) a = Some n"
    and "P = set addrs - {a}" and "q = (int (card P) + 1) div 2"
  shows "not_won q P n \<or> elected_by q P C a"
  using assms(1,2)
proof (induction arbitrary: n rule: rtranclp_induct)
  case base
  then show ?case by (auto simp: cluster_init_def map_get_init not_won_init split: if_splits)
next
  case (step C C')
  have "raft_inv P UNIV (fst m)" if "map_get (cl_nodes C) a = Some m" for m
  proof -
    from cluster_node_runs [OF step(1) that] have "raft_steps (raft_init a port (removeAll a addrs)) m" by simp
    then show ?thesis using reach_raft_inv [of a port "removeAll a addrs" m] by (simp add: assms(3))
  qed
  from elected_step [OF cluster_reach_ok [OF step(1)] step(2) _ assms(4) this step(3,4)] assms(3)
  show ?case by simp
qed

lemma half_majority: "(int x + 1) div 2 \<le> int y \<Longrightarrow> x + 1 < 2 * (y + 1)"
  by presburger

text \<open>C5:
  in every reachable state of a cluster, whatever is lost, delayed or interleaved, a node that
  leads has sent a request for votes that so many peers have received and answered that,
  with the node itself, they are more than half of the cluster.
\<close>
theorem leader_has_majority:
  assumes "cluster_steps T (cluster_init port addrs) C" and "map_get (cl_nodes C) a = Some n"
    and "raft_role (fst n) = LEADER"
  shows "\<exists>m. card (set addrs) <
    2 * (card {b \<in> set addrs - {a}. \<exists>r. answered_by C a (PL_RequestVote m) b r} + 1)"
proof -
  let ?P = "set addrs - {a}"
  have "a \<in> set addrs" using cluster_node_runs [OF assms(1,2)] by simp
  then have N: "card (set addrs) = card ?P + 1" using card.remove [of "set addrs" a] by simp
  have "\<not> not_won ((int (card ?P) + 1) div 2) ?P n" using not_won_role assms(3) by blast
  with cluster_not_won [OF assms(1,2) refl refl] have "elected_by ((int (card ?P) + 1) div 2) ?P C a" by blast
  then obtain m where "(int (card ?P) + 1) div 2 \<le> int (card (supporters C a (PL_RequestVote m) ?P))"
    by (auto simp: elected_by_def)
  then have "card ?P + 1 < 2 * (card (supporters C a (PL_RequestVote m) ?P) + 1)"
    by (rule half_majority)
  then show ?thesis unfolding N supporters_def by (rule exI)
qed

theorem leader_has_majority_witness:
  "\<exists>C m. raft_role (node_in C ''a'') = LEADER \<and>
     1 \<le> card {b \<in> {''b'', ''c''}. \<exists>r. answered_by C ''a'' (PL_RequestVote m) b r}"
proof -
  have "\<exists>C. cluster_steps {} abc C \<and> raft_role (node_in C ''a'') = LEADER"
  proof (rule run_reaches)
    show "case cluster_run run_two_leaders abc of None \<Rightarrow> False
      | Some C \<Rightarrow> raft_role (node_in C ''a'') = LEADER" by code_simp
  qed (auto simp: run_defs)
  then obtain C where C: "cluster_steps {} abc C" "raft_role (node_in C ''a'') = LEADER" by blast
  with node_in_Some [of C "''a''"] obtain n where n: "map_get (cl_nodes C) ''a'' = Some n" "raft_role (fst n) = LEADER"
    by auto
  from leader_has_majority [OF C(1) [unfolded abc_def] n] obtain m where
    "card (set [''a'', ''b'', ''c'']) <
       2 * (card {b \<in> set [''a'', ''b'', ''c''] - {''a''}. \<exists>r. answered_by C ''a'' (PL_RequestVote m) b r} + 1)"
    by blast
  moreover have "set [''a'', ''b'', ''c''] - {''a''} = {''b'', ''c''}" "card (set [''a'', ''b'', ''c'']) = 3" by auto
  ultimately have "1 \<le> card {b \<in> {''b'', ''c''}. \<exists>r. answered_by C ''a'' (PL_RequestVote m) b r}" by simp
  with C(2) show ?thesis by blast
qed

end
