(* ===== verification/Raft_Wire.thy ===== *)
theory Raft_Wire
  imports Raft_Protocol
begin

text \<open>
  The raft messages as bytes: \<open>encodePayload\<close> of \<open>raft/rpc.go\<close>, the senders of \<open>raft/raft.go\<close>
  that encode a message and give it to the network, and what the node at the other end
  decodes. The other raft theories work with the decoded messages; here it is shown when a
  message arrives as it was sent, what happens when it does not fit into its buffer, and what
  bytes and messages of strangers do.
  The \<open>gob\<close> codecs of payloads and of packets are arguments.
\<close>

definition MAX_RPC_SIZE :: nat where "MAX_RPC_SIZE = 2048"

type_synonym pay_enc = "payload \<Rightarrow> string + bytes"
type_synonym pay_dec = "bytes \<Rightarrow> payload"

text \<open>An encoding error is logged and dropped: the payload is then empty.\<close>

definition encodePayload :: "pay_enc \<Rightarrow> payload \<Rightarrow> bytes \<times> go_error" where
  "encodePayload penc structInstance =
     (case penc structInstance of
        Inl err \<Rightarrow> ([], nil_error)
      | Inr buffer \<Rightarrow> (take MAX_RPC_SIZE buffer, nil_error))"

text \<open>Everything a sender uses of the outside: the codecs, the sockets, its own object.\<close>

record wire =
  w_penc :: pay_enc
  w_genc :: "bytes gob_enc"
  w_gdec :: "bytes gob_dec"
  w_net :: Network
  w_raftPort :: goint

type_synonym sent = "go_error \<times> net_event list \<times> bytes Packet option"

definition sendRequestAwaitResponse :: "wire \<Rightarrow> net_env \<Rightarrow> string \<Rightarrow> bytes \<Rightarrow> DataType \<Rightarrow> sent" where
  "sendRequestAwaitResponse w env targetAddr payload dt =
     SendRequestAwaitResponse (w_genc w) (w_gdec w) env (w_net w)
       \<lparr>tcp_IP = targetAddr, tcp_Port = w_raftPort w\<rparr> payload dt"

definition sendRequestNoResponse ::
    "wire \<Rightarrow> net_env \<Rightarrow> string \<Rightarrow> bytes \<Rightarrow> DataType \<Rightarrow> go_error \<times> net_event list" where
  "sendRequestNoResponse w env targetAddr payload dt =
     SendRequest (w_genc w) env (w_net w) \<lparr>tcp_IP = targetAddr, tcp_Port = w_raftPort w\<rparr> payload dt"

text \<open>The common shape of the senders: encode, give up on an error (there is none), send.\<close>

definition send_encoded :: "string \<Rightarrow> wire \<Rightarrow> net_env \<Rightarrow> string \<Rightarrow> payload \<Rightarrow> DataType \<Rightarrow> sent" where
  "send_encoded failed w env peer pl dt =
     (case encodePayload (w_penc w) pl of (rpcPayload, err) \<Rightarrow>
        if err \<noteq> nil_error then (Some failed, [], None)
        else sendRequestAwaitResponse w env peer rpcPayload dt)"

definition sendRequestCommitObj ::
    "wire \<Rightarrow> net_env \<Rightarrow> string \<Rightarrow> string \<Rightarrow> goint \<Rightarrow> goint \<Rightarrow> KubeCmd \<Rightarrow> sent" where
  "sendRequestCommitObj w env self peer t logIndex obj =
     send_encoded ''FAILED TO ENCODE APPEND REQUEST'' w env peer
       (PL_AppendEntry \<lparr>ae_Term = t, ae_LeaderAddr = self, ae_LogIndex = logIndex,
          ae_NewObject = obj, ae_Confirmed = False\<rparr>) APPEND_ENTRY"

definition sendRequestLeaderVotes ::
    "wire \<Rightarrow> net_env \<Rightarrow> string \<Rightarrow> string \<Rightarrow> goint \<Rightarrow> goint \<Rightarrow> sent" where
  "sendRequestLeaderVotes w env self peer t logIndex =
     send_encoded ''FAILED TO ENCODE LEADER REQUEST'' w env peer
       (PL_RequestVote \<lparr>rv_Term = t, rv_CandidateAddr = self, rv_LogIndex = logIndex,
          rv_Agreed = False\<rparr>) REQUEST_VOTE"

text \<open>What \<open>handleRequest\<close> of the receiver hands to its node: the packet with its payload decoded.\<close>

definition received_rpc :: "pay_dec \<Rightarrow> bytes gob_dec \<Rightarrow> bytes \<Rightarrow> nat \<Rightarrow> RPC" where
  "received_rpc pdec gdec received done =
     (let p = handleRequest_rpc gdec received
      in \<lparr>rpc_P = \<lparr>pk_Caller = pk_Caller p, pk_Data = pdec (pk_Data p), pk_Type = pk_Type p\<rparr>, rpc_Done = done\<rparr>)"

text \<open>
  The codecs hand \<open>pl\<close> over: its encoding and that of the packet around it fit into their
  buffers, the payload decodes to what was encoded, and the packet does whatever follows it
  in the buffer (gob reads one value and leaves the rest).
\<close>

definition fits :: "wire \<Rightarrow> pay_dec \<Rightarrow> payload \<Rightarrow> DataType \<Rightarrow> bytes \<Rightarrow> bytes \<Rightarrow> bool" where
  "fits w pdec pl dt pbs bs \<longleftrightarrow>
     w_penc w pl = Inr pbs \<and> length pbs \<le> MAX_RPC_SIZE \<and> pdec pbs = pl \<and>
     w_genc w (NewPacket (Some (net_addr (w_net w))) pbs dt) = Inr bs \<and> length bs \<le> PACKET_SIZE"

definition reads_first :: "bytes gob_dec \<Rightarrow> bytes \<Rightarrow> bytes Packet \<Rightarrow> bool" where
  "reads_first gdec bs p \<longleftrightarrow> (\<forall>rest. gdec (bs @ rest) = (p, nil_error))"

lemma encodePayload_no_error [simp]: "snd (encodePayload penc pl) = nil_error"
  by (simp add: encodePayload_def split: sum.split)

text \<open>When the sockets work, what goes out is the (cut) encoding of the packet around the (cut) payload.\<close>

definition wire_bytes :: "wire \<Rightarrow> payload \<Rightarrow> DataType \<Rightarrow> bytes" where
  "wire_bytes w pl dt =
     fst (Encode (w_genc w) (NewPacket (Some (net_addr (w_net w))) (fst (encodePayload (w_penc w) pl)) dt))"

definition sockets_work :: "net_env \<Rightarrow> bool" where
  "sockets_work env \<longleftrightarrow> ne_resolve env = nil_error \<and> ne_dial env = nil_error \<and> ne_write env = nil_error"

lemma send_encoded_ok:
  "sockets_work env \<Longrightarrow>
   \<exists>reply. send_encoded failed w env peer pl dt =
     (nil_error, [Net_Dial \<lparr>tcp_IP = peer, tcp_Port = w_raftPort w\<rparr>, Net_Write (wire_bytes w pl dt), Net_Close], reply)"
  by (simp add: send_encoded_def sendRequestAwaitResponse_def SendRequestAwaitResponse_def SendRequest_def
      sockets_work_def wire_bytes_def case_prod_beta)

lemma wire_bytes_fits: "fits w pdec pl dt pbs bs \<Longrightarrow> wire_bytes w pl dt = bs"
  by (simp add: fits_def encodePayload_def Encode_def wire_bytes_def)

lemma length_wire_bytes: "length (wire_bytes w pl dt) \<le> PACKET_SIZE"
  by (simp add: wire_bytes_def length_Encode)

lemma received_fits:
  assumes "fits w pdec pl dt pbs bs"
    and "reads_first gdec bs (NewPacket (Some (net_addr (w_net w))) pbs dt)"
  shows "received_rpc pdec gdec bs done =
    \<lparr>rpc_P = NewPacket (Some (net_addr (w_net w))) pl dt, rpc_Done = done\<rparr>"
  using assms
  by (simp add: received_rpc_def handleRequest_rpc_def Decode_def read_buffer_short fits_def reads_first_def
      PACKET_SIZE_def NewPacket_def Let_def)

section \<open>A codec for the witnesses\<close>

text \<open>
  A proposal is as many ones as the name of its deployment is long, a request for votes is
  empty; a packet is its type, its data and an end mark, and does not decode without the mark.
\<close>

definition named_cmd :: "nat \<Rightarrow> KubeCmd" where
  "named_cmd k = KubeCmd0\<lparr>cmd_ObjectDeployment := KubeDeployment0\<lparr>dep_Name := replicate k CHR ''x''\<rparr>\<rparr>"

definition toy_penc :: pay_enc where
  "toy_penc pl =
     (case pl of
        PL_AppendEntry m \<Rightarrow> Inr (replicate (length (dep_Name (cmd_ObjectDeployment (ae_NewObject m)))) 1)
      | PL_RequestVote m \<Rightarrow> Inr []
      | _ \<Rightarrow> Inl ''unknown'')"

definition toy_proposal :: "KubeCmd \<Rightarrow> payload" where
  "toy_proposal obj = PL_AppendEntry \<lparr>ae_Term = 2, ae_LeaderAddr = ''a'', ae_LogIndex = 0,
     ae_NewObject = obj, ae_Confirmed = False\<rparr>"

definition toy_candidacy :: payload where
  "toy_candidacy = PL_RequestVote \<lparr>rv_Term = 2, rv_CandidateAddr = ''a'', rv_LogIndex = 0, rv_Agreed = False\<rparr>"

definition toy_pdec :: pay_dec where
  "toy_pdec bs = (if bs = [] then toy_candidacy else toy_proposal (named_cmd (length bs)))"

definition toy_genc :: "bytes gob_enc" where
  "toy_genc p = Inr (word_of_int (pk_Type p) # pk_Data p @ [255])"

definition toy_gdec :: "bytes gob_dec" where
  "toy_gdec bs =
     (case bs of
        t # r \<Rightarrow>
          if 255 \<in> set (dropWhile (\<lambda>b. b = 1) r)
          then (NewPacket (Some tiny_addr) (takeWhile (\<lambda>b. b = 1) r) (uint t), nil_error)
          else (\<lparr>pk_Caller = None, pk_Data = [], pk_Type = 0\<rparr>, Some ''unexpected EOF'')
      | [] \<Rightarrow> (\<lparr>pk_Caller = None, pk_Data = [], pk_Type = 0\<rparr>, Some ''EOF''))"

definition toy_wire :: wire where
  "toy_wire = \<lparr>w_penc = toy_penc, w_genc = toy_genc, w_gdec = toy_gdec, w_net = \<lparr>net_addr = tiny_addr\<rparr>,
     w_raftPort = 9996\<rparr>"

definition good_sockets :: net_env where
  "good_sockets = \<lparr>ne_resolve = None, ne_dial = None, ne_write = None, ne_reply = []\<rparr>"

lemmas toy_defs = toy_penc_def toy_pdec_def toy_genc_def toy_gdec_def toy_wire_def toy_proposal_def
  toy_candidacy_def named_cmd_def

section \<open>Properties\<close>

text \<open>C15:
  a proposal that fits into its buffers arrives as it was sent: the receiver's node gets a
  packet with the sender's address whose payload decodes to the proposed command (up to the
  empty slices gob does not transmit) and the sender's term, address and log length; and it
  writes at most 2048 bytes. The same holds of a request for votes.
\<close>
theorem message_survives_wire:
  assumes "sockets_work env"
    and "fits w pdec (PL_AppendEntry \<lparr>ae_Term = t, ae_LeaderAddr = self, ae_LogIndex = n,
           ae_NewObject = obj, ae_Confirmed = False\<rparr>) APPEND_ENTRY pbs bs"
    and "fits w pdec (PL_RequestVote \<lparr>rv_Term = t, rv_CandidateAddr = self, rv_LogIndex = n,
           rv_Agreed = False\<rparr>) REQUEST_VOTE pvs vs"
    and "reads_first (w_gdec w) bs (NewPacket (Some (net_addr (w_net w))) pbs APPEND_ENTRY)"
    and "reads_first (w_gdec w) vs (NewPacket (Some (net_addr (w_net w))) pvs REQUEST_VOTE)"
  shows "\<exists>reply reply'.
    sendRequestCommitObj w env self peer t n obj =
      (nil_error, [Net_Dial \<lparr>tcp_IP = peer, tcp_Port = w_raftPort w\<rparr>, Net_Write bs, Net_Close], reply) \<and>
    (let p = rpc_P (received_rpc pdec (w_gdec w) bs done)
     in pk_Caller p = Some (net_addr (w_net w)) \<and> pk_Type p = APPEND_ENTRY \<and>
        decodePayload_AppendEntry (pk_Data p) =
          (\<lparr>ae_Term = t, ae_LeaderAddr = self, ae_LogIndex = n, ae_NewObject = gob_cmd obj,
             ae_Confirmed = False\<rparr>, nil_error)) \<and>
    sendRequestLeaderVotes w env self peer t n =
      (nil_error, [Net_Dial \<lparr>tcp_IP = peer, tcp_Port = w_raftPort w\<rparr>, Net_Write vs, Net_Close], reply') \<and>
    (let p = rpc_P (received_rpc pdec (w_gdec w) vs done)
     in pk_Caller p = Some (net_addr (w_net w)) \<and> pk_Type p = REQUEST_VOTE \<and>
        decodePayload_RequestVote (pk_Data p) =
          (\<lparr>rv_Term = t, rv_CandidateAddr = self, rv_LogIndex = n, rv_Agreed = False\<rparr>, nil_error))"
proof -
  obtain r where r: "sendRequestCommitObj w env self peer t n obj =
      (nil_error, [Net_Dial \<lparr>tcp_IP = peer, tcp_Port = w_raftPort w\<rparr>, Net_Write bs, Net_Close], r)"
    unfolding sendRequestCommitObj_def wire_bytes_fits [OF assms(2), symmetric]
    using send_encoded_ok [OF assms(1)] by blast
  obtain q where q: "sendRequestLeaderVotes w env self peer t n =
      (nil_error, [Net_Dial \<lparr>tcp_IP = peer, tcp_Port = w_raftPort w\<rparr>, Net_Write vs, Net_Close], q)"
    unfolding sendRequestLeaderVotes_def wire_bytes_fits [OF assms(3), symmetric]
    using send_encoded_ok [OF assms(1)] by blast
  from r q show ?thesis
    by (simp add: received_fits [OF assms(2,4)] received_fits [OF assms(3,5)] decodePayload_defs
        NewPacket_def Let_def)
qed

theorem message_survives_wire_witness:
  "decodePayload_AppendEntry (pk_Data (rpc_P (received_rpc toy_pdec toy_gdec [1, 1, 1, 255] 0))) =
     (\<lparr>ae_Term = 2, ae_LeaderAddr = ''a'', ae_LogIndex = 0, ae_NewObject = gob_cmd (named_cmd 2),
        ae_Confirmed = False\<rparr>, nil_error)"
proof -
  have w: "sockets_work good_sockets" by (simp add: sockets_work_def good_sockets_def)
  have f: "fits toy_wire toy_pdec (PL_AppendEntry \<lparr>ae_Term = 2, ae_LeaderAddr = ''a'', ae_LogIndex = 0,
      ae_NewObject = named_cmd 2, ae_Confirmed = False\<rparr>) APPEND_ENTRY [1, 1] [1, 1, 1, 255]"
    "fits toy_wire toy_pdec (PL_RequestVote \<lparr>rv_Term = 2, rv_CandidateAddr = ''a'', rv_LogIndex = 0,
      rv_Agreed = False\<rparr>) REQUEST_VOTE [] [0, 255]"
    by (simp_all add: fits_def toy_defs MAX_RPC_SIZE_def PACKET_SIZE_def NewPacket_def numeral_2_eq_2)
  have d: "reads_first (w_gdec toy_wire) [1, 1, 1, 255] (NewPacket (Some (net_addr (w_net toy_wire))) [1, 1] APPEND_ENTRY)"
    "reads_first (w_gdec toy_wire) [0, 255] (NewPacket (Some (net_addr (w_net toy_wire))) [] REQUEST_VOTE)"
    by (simp_all add: reads_first_def toy_defs)
  from message_survives_wire [OF w f d] show ?thesis by (auto simp: Let_def toy_wire_def)
qed

text \<open>C16:
  a proposal whose packet is longer than 2048 bytes is cut and sent without an error, and
  what arrives does not decode; the receiver goes on with the zero packet, and its node
  dereferences the caller, which is \<open>nil\<close>: it stops, whatever its state.
\<close>
theorem oversized_command_crashes_peer:
  assumes "sockets_work env"
    and "w_genc w (NewPacket (Some (net_addr (w_net w)))
           (fst (encodePayload (w_penc w) (PL_AppendEntry \<lparr>ae_Term = t, ae_LeaderAddr = self,
              ae_LogIndex = n, ae_NewObject = obj, ae_Confirmed = False\<rparr>))) APPEND_ENTRY) = Inr bs"
    and "PACKET_SIZE < length bs"
    and "w_gdec w (take PACKET_SIZE bs) = (\<lparr>pk_Caller = None, pk_Data = [], pk_Type = 0\<rparr>, Some err)"
  shows "\<exists>reply. sendRequestCommitObj w env self peer t n obj =
      (nil_error, [Net_Dial \<lparr>tcp_IP = peer, tcp_Port = w_raftPort w\<rparr>, Net_Write (take PACKET_SIZE bs), Net_Close], reply) \<and>
    exec raft_env (handleRpc (received_rpc pdec (w_gdec w) (take PACKET_SIZE bs) done)) ins s = (s, [], Crashed)"
proof -
  have "read_buffer 2048 (take PACKET_SIZE bs) = take PACKET_SIZE bs"
    using assms(3) by (simp add: read_buffer_def PACKET_SIZE_def)
  then have "pk_Caller (rpc_P (received_rpc pdec (w_gdec w) (take PACKET_SIZE bs) done)) = None"
    using assms(4) by (simp add: received_rpc_def handleRequest_rpc_def Decode_def Let_def)
  then have "exec raft_env (handleRpc (received_rpc pdec (w_gdec w) (take PACKET_SIZE bs) done)) ins s = (s, [], Crashed)"
    by (simp add: handleRpc_def GetPacket_def Let_def)
  moreover have "wire_bytes w (PL_AppendEntry \<lparr>ae_Term = t, ae_LeaderAddr = self, ae_LogIndex = n,
      ae_NewObject = obj, ae_Confirmed = False\<rparr>) APPEND_ENTRY = take PACKET_SIZE bs"
    using assms(2) by (simp add: wire_bytes_def Encode_def)
  ultimately show ?thesis
    using send_encoded_ok [OF assms(1)] unfolding sendRequestCommitObj_def by metis
qed

theorem oversized_command_crashes_peer_witness:
  "exec raft_env (handleRpc (received_rpc toy_pdec toy_gdec (1 # replicate 2047 1) 0)) [] (raft_boot ''a'' 9996 [''b'', ''c'']) =
     ((raft_boot ''a'' 9996 [''b'', ''c'']), [], Crashed)"
proof -
  have w: "sockets_work good_sockets" by (simp add: sockets_work_def good_sockets_def)
  have e: "w_genc toy_wire (NewPacket (Some (net_addr (w_net toy_wire)))
      (fst (encodePayload (w_penc toy_wire) (PL_AppendEntry \<lparr>ae_Term = 2, ae_LeaderAddr = ''a'',
         ae_LogIndex = 0, ae_NewObject = named_cmd 3000, ae_Confirmed = False\<rparr>))) APPEND_ENTRY) =
      Inr (1 # replicate 2048 1 @ [255])"
    by (simp add: toy_defs encodePayload_def MAX_RPC_SIZE_def NewPacket_def del: replicate.simps)
  have l: "PACKET_SIZE < length (1 # replicate 2048 1 @ [255 :: byte])"
    by (simp add: PACKET_SIZE_def del: replicate.simps)
  have t: "take PACKET_SIZE (1 # replicate 2048 1 @ [255 :: byte]) = 1 # replicate 2047 1"
    by (simp add: PACKET_SIZE_def take_Cons' del: replicate.simps)
  have d: "w_gdec toy_wire (take PACKET_SIZE (1 # replicate 2048 1 @ [255])) =
      (\<lparr>pk_Caller = None, pk_Data = [], pk_Type = 0\<rparr>, Some ''unexpected EOF'')"
    unfolding t by (simp add: toy_wire_def toy_gdec_def del: replicate.simps)
  from oversized_command_crashes_peer [OF w e l d] show ?thesis
    unfolding t by (simp add: toy_wire_def)
qed

text \<open>C30:
  of the connections that \<open>Listen\<close> accepts, each hands one packet to the node, also when it
  does not decode: bytes that are not a complete gob message, which any host can send, come
  out as the zero packet, the error is only logged, and the handler dereferences the \<open>nil\<close>
  caller before it looks for the peer: the node makes no step any more. A packet that decodes
  and comes from an address that is not a peer changes nothing and is not answered.
\<close>
theorem foreign_packets:
  assumes gob: "\<And>bs. \<not> complete bs \<Longrightarrow>
      \<exists>err. gdec bs = (\<lparr>pk_Caller = None, pk_Data = [], pk_Type = 0\<rparr>, Some err)"
    and "Listen gdec nil_error conns = Value pkts" and "i < length conns" and "conns ! i = Some received"
    and "rpc = received_rpc pdec gdec received done"
  shows "pkts ! i = fst (Decode gdec (read_buffer 2048 received)) \<and>
    (\<not> complete (read_buffer 2048 received) \<longrightarrow>
       snd (Decode gdec (read_buffer 2048 received)) \<noteq> nil_error \<and>
       exec raft_env (handleRpc rpc) ins s = (s, [], Crashed) \<and>
       (\<forall>ts n. \<not> raft_step (s, ts @ [handleRpc rpc]) n)) \<and>
    (\<forall>c. pk_Caller (pkts ! i) = Some c \<and> \<not> IsPeer (tcp_IP c) (raft_peers s) \<longrightarrow>
       exec raft_env (handleRpc rpc) ins s = (s, [], Returned))"
proof -
  have pkt: "pkts ! i = handleRequest_rpc gdec received"
    using assms(2-4) by (auto simp: Listen_eq split: if_splits)
  have caller: "pk_Caller (rpc_P rpc) = pk_Caller (pkts ! i)"
    by (simp add: assms(5) received_rpc_def Let_def pkt)
  have crash: "handleRpc rpc = Crash" if "pk_Caller (pkts ! i) = None"
    using that caller by (simp add: handleRpc_def GetPacket_def Let_def)
  have "exec raft_env (handleRpc rpc) ins s = (s, [], Returned)"
    if "pk_Caller (pkts ! i) = Some c" "\<not> IsPeer (tcp_IP c) (raft_peers s)" for c
    using that caller by (simp add: handleRpc_def GetPacket_def Let_def exec_simps)
  moreover have "snd (Decode gdec (read_buffer 2048 received)) \<noteq> nil_error \<and>
      exec raft_env (handleRpc rpc) ins s = (s, [], Crashed) \<and>
      (\<forall>ts n. \<not> raft_step (s, ts @ [handleRpc rpc]) n)" if "\<not> complete (read_buffer 2048 received)"
  proof -
    from gob [OF that] have err: "snd (Decode gdec (read_buffer 2048 received)) \<noteq> nil_error"
      and none: "pk_Caller (pkts ! i) = None"
      by (auto simp: Decode_def pkt handleRequest_rpc_def)
    with crash show ?thesis by (auto elim!: node_stepE)
  qed
  ultimately show ?thesis by (simp add: pkt handleRequest_rpc_def)
qed

text \<open>A connection that sends nothing, and a request for votes from an unknown address.\<close>

theorem foreign_packets_witness:
  "let s = raft_boot ''a'' 9996 [''b'', ''c'']
   in exec raft_env (handleRpc (received_rpc toy_pdec toy_gdec [] 0)) [] s = (s, [], Crashed) \<and>
      exec raft_env (handleRpc (received_rpc toy_pdec toy_gdec [0, 255] 0)) [] s = (s, [], Returned)"
proof -
  let ?s = "raft_boot ''a'' 9996 [''b'', ''c'']"
  let ?complete = "\<lambda>bs. snd (toy_gdec bs) = nil_error"
  have gob: "\<exists>err. toy_gdec bs = (\<lparr>pk_Caller = None, pk_Data = [], pk_Type = 0\<rparr>, Some err)"
    if "\<not> ?complete bs" for bs
    using that by (auto simp: toy_gdec_def split: list.splits if_splits)
  obtain pkts where l: "Listen toy_gdec nil_error [Some [], Some [0, 255]] = Value pkts"
    by (simp add: Listen_eq)
  have buffer: "read_buffer 2048 [] = 0 # replicate 2047 0"
    "read_buffer 2048 [0, 255] = 0 # 255 # replicate 2046 0"
    unfolding read_buffer_def by (simp_all flip: replicate_Suc del: replicate.simps)
  have "255 \<notin> set (dropWhile (\<lambda>b. b = 1) (replicate n (0 :: byte)))" for n by (cases n) simp_all
  then have "\<not> ?complete (read_buffer 2048 [])" unfolding buffer by (simp add: toy_gdec_def)
  with foreign_packets [of ?complete toy_gdec, OF gob l, of 0 "[]" _ toy_pdec 0]
  have 1: "exec raft_env (handleRpc (received_rpc toy_pdec toy_gdec [] 0)) [] ?s = (?s, [], Crashed)" by simp
  have "pk_Caller (fst (Decode toy_gdec (read_buffer 2048 [0, 255]))) = Some tiny_addr"
    unfolding buffer by (simp add: Decode_def toy_gdec_def NewPacket_def)
  moreover have "\<not> IsPeer (tcp_IP tiny_addr) (raft_peers ?s)" by code_simp
  ultimately have "exec raft_env (handleRpc (received_rpc toy_pdec toy_gdec [0, 255] 0)) [] ?s = (?s, [], Returned)"
    using foreign_packets [of ?complete toy_gdec, OF gob l, of 1 "[0, 255]" _ toy_pdec 0] by simp
  with 1 show ?thesis by (simp add: Let_def)
qed

end
