(* ===== verification/Proxy.thy ===== *)
theory Proxy
  imports Goroutine Go_Map Network
begin

text \<open>
  \<open>proxy/proxy.go\<close> and \<open>proxy/packet.go\<close>: the failover proxy. It listens on one port per
  announced node port (shifted by 100), forwards what it receives to a node of the local
  cluster and, when that fails, to one peer proxy, which tries its own cluster. The handlers
  are goroutines over the shared object; every access under a mutex is one step. \<open>gob\<close> is a
  parameter, as in \<open>Network\<close>.
\<close>

section \<open>Packets between proxies\<close>

record ProxyPacket =
  pp_Failed :: bool
  pp_Port :: goint
  pp_Data :: bytes

type_synonym pp_enc = "ProxyPacket \<Rightarrow> string + bytes"
type_synonym pp_dec = "bytes \<Rightarrow> ProxyPacket \<times> go_error"

definition PROXY_MAX_PACKET_SIZE :: nat where
  "PROXY_MAX_PACKET_SIZE = 1024"

definition ProxyPacket0 :: ProxyPacket where
  "ProxyPacket0 = \<lparr>pp_Failed = False, pp_Port = 0, pp_Data = []\<rparr>"

text \<open>As in \<open>Network\<close>, an encoding error is logged and dropped, and nothing is written.\<close>

definition pp_encode :: "pp_enc \<Rightarrow> ProxyPacket \<Rightarrow> bytes \<times> go_error" where
  "pp_encode enc p =
     (case enc p of Inl e \<Rightarrow> ([], nil_error) | Inr buffer \<Rightarrow> (take 2048 buffer, nil_error))"

definition pp_decode :: "pp_dec \<Rightarrow> bytes \<Rightarrow> ProxyPacket \<times> go_error" where
  [simp]: "pp_decode dec data = dec data"

text \<open>What the socket read returns: an error, or the bytes that have arrived (at least one).\<close>

definition ReadProxyPacket :: "pp_dec \<Rightarrow> string + bytes \<Rightarrow> ProxyPacket \<times> go_error" where
  "ReadProxyPacket dec received =
     (case received of
        Inl err \<Rightarrow> (ProxyPacket0, Some err)
      | Inr bs \<Rightarrow> pp_decode dec (read_buffer PROXY_MAX_PACKET_SIZE bs))"

text \<open>The bytes that are written, and the error: that of the write, if any.\<close>

definition WriteProxyPacket :: "pp_enc \<Rightarrow> go_error \<Rightarrow> ProxyPacket \<Rightarrow> bytes \<times> go_error" where
  "WriteProxyPacket enc werr pp =
     (case pp_encode enc pp of (data, err) \<Rightarrow>
        if err \<noteq> nil_error then ([], err) else (data, werr))"

section \<open>The object\<close>

definition LOCAL_DEV_PORT_PROXY_SHIFT :: goint where
  "LOCAL_DEV_PORT_PROXY_SHIFT = 100"

text \<open>
  A listener is named by the port it is bound to. \<open>px_bound\<close> is not a field of the source:
  it lists the ports on which the operating system holds a socket of this proxy.
\<close>

record Proxy =
  px_addr :: string
  px_port :: goint
  px_peerNodes :: "string list"
  px_activeClusterPorts :: "(goint, goint) gomap"
  px_activeClusterNodes :: "string list"
  px_bound :: "goint list"

definition InitProxy :: "string \<Rightarrow> goint \<Rightarrow> Proxy" where
  "InitProxy ip port =
     \<lparr>px_addr = ip, px_port = port, px_peerNodes = [], px_activeClusterPorts = [],
      px_activeClusterNodes = [], px_bound = []\<rparr>"

text \<open>The first loop of \<open>Start\<close>, and its case for new cluster nodes.\<close>

definition proxy_addPeers :: "string list \<Rightarrow> Proxy \<Rightarrow> Proxy" where
  "proxy_addPeers peers p = fold (\<lambda>peer q. q\<lparr>px_peerNodes := px_peerNodes q @ [peer]\<rparr>) peers p"

definition proxy_setNodes :: "string list \<Rightarrow> Proxy \<Rightarrow> Proxy" where
  "proxy_setNodes nodes p = p\<lparr>px_activeClusterNodes := nodes\<rparr>"

section \<open>Random order\<close>

text \<open>
  The loop \<open>for n := range xs \<open>{\<close> i := rand.Intn(n+1); xs[n], xs[i] = xs[i], xs[n] \<open>}\<close>\<close> with
  the numbers \<open>rand\<close> returns.
\<close>

definition swap :: "nat \<Rightarrow> nat \<Rightarrow> 'a list \<Rightarrow> 'a list" where
  "swap n i xs = xs[n := xs ! i, i := xs ! n]"

definition shuffle :: "nat list \<Rightarrow> 'a list \<Rightarrow> 'a list" where
  "shuffle rs xs = fold (\<lambda>(n, i). swap n i) (zip [0 ..< length xs] rs) xs"

definition Intn_ok :: "nat \<Rightarrow> nat list \<Rightarrow> bool" where
  "Intn_ok len rs \<longleftrightarrow> length rs = len \<and> list_all (\<lambda>(n, i). i \<le> n) (zip [0 ..< len] rs)"

section \<open>Events and answers\<close>

datatype px_event =
    Px_Rand nat
  | Px_Intn nat
  | Px_Cluster string goint bytes
  | Px_Peer string goint bytes
  | Px_ReadClient
  | Px_WriteClient bytes
  | Px_ReadPeer
  | Px_WritePeer bytes
  | Px_Close
  | Px_Listen goint
  | Px_Accept
  | Px_Go goint
  | Px_Visit
  | Px_Select

text \<open>The three cases of the \<open>select\<close> in \<open>forwardToCluster\<close>.\<close>

datatype px_cluster = Cl_failure | Cl_timeout | Cl_answer bytes

datatype px_peer = Peer_dial_failed string | Peer_write_failed string | Peer_reply "string + bytes"

datatype px_accept = Accepted | Accept_closed | Accept_failed

record px_input =
  pi_rand :: "nat list"
  pi_cluster :: px_cluster
  pi_peer :: px_peer
  pi_read :: "string + bytes"
  pi_listen :: go_error
  pi_accept :: px_accept
  pi_order :: "goint list"
  pi_select :: "goint list + string list"

definition px_input0 :: px_input where
  "px_input0 = \<lparr>pi_rand = [], pi_cluster = Cl_failure, pi_peer = Peer_dial_failed [],
     pi_read = Inr [], pi_listen = nil_error, pi_accept = Accepted, pi_order = [],
     pi_select = Inr []\<rparr>"

text \<open>The heads of the loops: accepting at a port, accepting peers, the main loop.\<close>

datatype px_label = L_accept goint | L_acceptPeers | L_proxyStart

type_synonym pproc = "(Proxy, px_event, px_input, px_label) goproc"

text \<open>
  What can be answered: \<open>rand.Intn\<close> stays below its bound; a read brings at most 2048 bytes;
  a loop over the map visits its keys in some order.
\<close>

fun px_env :: "Proxy \<Rightarrow> px_event \<Rightarrow> px_input \<Rightarrow> bool" where
  "px_env p (Px_Rand n) i = Intn_ok n (pi_rand i)"
| "px_env p (Px_Intn n) i = (length (pi_rand i) = 1 \<and> hd (pi_rand i) \<le> n)"
| "px_env p (Px_Cluster node port packet) i =
     (case pi_cluster i of Cl_answer resp \<Rightarrow> length resp \<le> 2048 | _ \<Rightarrow> True)"
| "px_env p Px_ReadClient i = (case pi_read i of Inr payload \<Rightarrow> length payload \<le> 2048 | _ \<Rightarrow> True)"
| "px_env p Px_Visit i = range_order (px_activeClusterPorts p) (pi_order i)"
| "px_env p _ i = True"

text \<open>A port that is bound cannot be bound again; other causes of failure come from outside.\<close>

definition bind_ok :: "goint \<Rightarrow> px_input \<Rightarrow> Proxy \<Rightarrow> bool" where
  "bind_ok port i p \<longleftrightarrow> pi_listen i = nil_error \<and> port \<notin> set (px_bound p)"

definition px_read :: "(Proxy \<Rightarrow> 'a) \<Rightarrow> ('a \<Rightarrow> pproc) \<Rightarrow> pproc" where
  "px_read f k = Atom id (\<lambda>p. k (f p))"

definition px_write :: "(Proxy \<Rightarrow> Proxy) \<Rightarrow> pproc \<Rightarrow> pproc" where
  "px_write u k = Atom u (\<lambda>_. k)"

section \<open>Forwarding\<close>

text \<open>
  The loop over the shuffled nodes returns in its first round that is not skipped, in every
  case of the \<open>select\<close>.
\<close>

definition forwardToCluster :: "bytes \<Rightarrow> goint \<Rightarrow> (go_error \<times> bytes \<Rightarrow> pproc) \<Rightarrow> pproc" where
  "forwardToCluster packet kubePort k =
     (let kubePort' = sub64 kubePort LOCAL_DEV_PORT_PROXY_SHIFT;
          failed = (Some ''FAILED TO REACH ANY OF THE KUB NODES.'', [])
      in px_read px_activeClusterNodes (\<lambda>nodes.
         Io (Px_Rand (length nodes)) (\<lambda>i.
           case filter (\<lambda>node. node \<noteq> []) (shuffle (pi_rand i) nodes) of
             [] \<Rightarrow> k failed
           | node # _ \<Rightarrow>
               Io (Px_Cluster node kubePort' packet) (\<lambda>j.
                 case pi_cluster j of
                   Cl_failure \<Rightarrow> k failed
                 | Cl_timeout \<Rightarrow> k failed
                 | Cl_answer resp \<Rightarrow> k (nil_error, resp)))))"

text \<open>
  The peers are shuffled in place and without a lock, so each round of the loop reads the two
  elements and then writes them, in four steps.
\<close>

fun shufflePeers :: "nat \<Rightarrow> nat \<Rightarrow> pproc \<Rightarrow> pproc" where
  "shufflePeers n 0 k = k"
| "shufflePeers n (Suc rounds) k =
     Io (Px_Intn n) (\<lambda>j.
       let i = hd (pi_rand j)
       in px_read (\<lambda>p. px_peerNodes p ! i) (\<lambda>a. px_read (\<lambda>p. px_peerNodes p ! n) (\<lambda>b.
            px_write (\<lambda>p. p\<lparr>px_peerNodes := (px_peerNodes p)[n := a]\<rparr>)
              (px_write (\<lambda>p. p\<lparr>px_peerNodes := (px_peerNodes p)[i := b]\<rparr>)
                (shufflePeers (n + 1) rounds k)))))"

definition getRandomPeerAddr :: "(string \<Rightarrow> pproc) \<Rightarrow> pproc" where
  "getRandomPeerAddr k =
     px_read (length \<circ> px_peerNodes) (\<lambda>len.
       shufflePeers 0 len
         (px_read px_peerNodes (\<lambda>peers.
            case filter (\<lambda>peer. peer \<noteq> []) peers of [] \<Rightarrow> k [] | peer # _ \<Rightarrow> k peer)))"

definition proxyRequest :: "pp_enc \<Rightarrow> pp_dec \<Rightarrow> bytes \<Rightarrow> goint \<Rightarrow> (go_error \<times> bytes \<Rightarrow> pproc) \<Rightarrow> pproc" where
  "proxyRequest enc dec data clusterPort k =
     getRandomPeerAddr (\<lambda>peer. px_read px_port (\<lambda>port.
       Io (Px_Peer peer port (fst (WriteProxyPacket enc nil_error
             \<lparr>pp_Failed = False, pp_Port = clusterPort, pp_Data = data\<rparr>))) (\<lambda>i.
         case pi_peer i of
           Peer_dial_failed err \<Rightarrow> k (Some err, data)
         | Peer_write_failed err \<Rightarrow> k (Some (''Failed to write packet to proxy'' @ err), [])
         | Peer_reply received \<Rightarrow>
             (case ReadProxyPacket dec received of (pp, err) \<Rightarrow>
                if pp_Failed pp \<or> err \<noteq> nil_error then k (Some ''Failed to proxy packet'', [])
                else k (nil_error, pp_Data pp)))))"

section \<open>The two servers\<close>

definition string_bytes :: "string \<Rightarrow> bytes" where
  "string_bytes s = map (\<lambda>c. of_nat (of_char c)) s"

text \<open>The goroutine for one connection of a client at a shifted cluster port.\<close>

definition serveClient :: "pp_enc \<Rightarrow> pp_dec \<Rightarrow> goint \<Rightarrow> pproc" where
  "serveClient enc dec clusterPort =
     (let close = Io Px_Close (\<lambda>_. Return)
      in Io Px_ReadClient (\<lambda>i.
           case pi_read i of
             Inl err \<Rightarrow> close
           | Inr payload \<Rightarrow>
               forwardToCluster payload clusterPort (\<lambda>(err, resp).
                 if err = nil_error then Io (Px_WriteClient resp) (\<lambda>_. close)
                 else proxyRequest enc dec payload clusterPort (\<lambda>(err, resp).
                   if err \<noteq> nil_error
                   then Io (Px_WriteClient (string_bytes ''FAILED PROXY REQUEST'')) (\<lambda>_. close)
                   else Io (Px_WriteClient resp) (\<lambda>_. close)))))"

text \<open>The goroutine for one connection of a peer proxy; the connection is never closed.\<close>

definition servePeer :: "pp_enc \<Rightarrow> pp_dec \<Rightarrow> pproc" where
  "servePeer enc dec =
     Io Px_ReadPeer (\<lambda>i.
       case ReadProxyPacket dec (pi_read i) of (pp, err) \<Rightarrow>
         if err \<noteq> nil_error then Return
         else forwardToCluster (pp_Data pp) (pp_Port pp) (\<lambda>(err, resp).
           let answer = (if err \<noteq> nil_error
                 then \<lparr>pp_Failed = True, pp_Port = pp_Port pp, pp_Data = []\<rparr>
                 else \<lparr>pp_Failed = False, pp_Port = pp_Port pp, pp_Data = resp\<rparr>)
           in Io (Px_WritePeer (fst (WriteProxyPacket enc nil_error answer))) (\<lambda>_. Return)))"

section \<open>Listening\<close>

text \<open>
  \<open>listenPort\<close> holds the mutex from the bind to the entry in the map: one step. A connection that
  cannot be accepted leaves the loop; unless the listener was closed, the log line uses the
  \<open>nil\<close> connection first.
\<close>

definition listenPort :: "goint \<Rightarrow> pproc" where
  "listenPort port =
     Io (Px_Listen port) (\<lambda>i.
       Atom (\<lambda>p. if bind_ok port i p
                 then p\<lparr>px_activeClusterPorts := map_set port port (px_activeClusterPorts p),
                        px_bound := port # px_bound p\<rparr>
                 else p)
            (\<lambda>p. if bind_ok port i p then Goto (L_accept port) else Return))"

definition acceptClient :: "goint \<Rightarrow> pproc" where
  "acceptClient port =
     Io Px_Accept (\<lambda>i.
       case pi_accept i of
         Accepted \<Rightarrow> Io (Px_Go port) (\<lambda>_. Goto (L_accept port))
       | Accept_closed \<Rightarrow> Return
       | Accept_failed \<Rightarrow> Crash)"

text \<open>\<open>listenProxies\<close> after its own listener was made (a failure to listen is a panic).\<close>

definition listenProxies :: pproc where
  "listenProxies =
     px_read px_port (\<lambda>port. Io (Px_Listen port) (\<lambda>i.
       Atom (\<lambda>p. if bind_ok port i p then p\<lparr>px_bound := port # px_bound p\<rparr> else p)
            (\<lambda>p. if bind_ok port i p then Goto L_acceptPeers else Crash)))"

definition acceptPeer :: pproc where
  "acceptPeer =
     Io Px_Accept (\<lambda>i.
       case pi_accept i of Accepted \<Rightarrow> Io (Px_Go 0) (\<lambda>_. Goto L_acceptPeers) | _ \<Rightarrow> Return)"

section \<open>Announced ports\<close>

fun exist :: "goint \<Rightarrow> goint list \<Rightarrow> bool" where
  "exist a [] = False"
| "exist a (c # b) = (if a = c then True else exist a b)"

fun startListeners :: "goint list \<Rightarrow> pproc \<Rightarrow> pproc" where
  "startListeners [] k = k"
| "startListeners (port # prts) k =
     (if port = 0 then startListeners prts k
      else let port' = add64 port LOCAL_DEV_PORT_PROXY_SHIFT
        in px_read (\<lambda>p. map_get (px_activeClusterPorts p) port' \<noteq> None) (\<lambda>exist.
          if exist then startListeners prts k
          else Io (Px_Go port') (\<lambda>_. startListeners prts k)))"

text \<open>
  The second loop, under the mutex: the ports in the order \<open>ks\<close> of the visit; an entry that
  was deleted before its turn is not visited. The listener of the entry is closed, but the
  key that is deleted is shifted once more.
\<close>

definition dropPort :: "goint list \<Rightarrow> goint \<Rightarrow> Proxy \<Rightarrow> Proxy" where
  "dropPort prts port p =
     (case map_get (px_activeClusterPorts p) port of
        None \<Rightarrow> p
      | Some ss \<Rightarrow>
          if exist (sub64 port LOCAL_DEV_PORT_PROXY_SHIFT) prts then p
          else p\<lparr>px_bound := removeAll ss (px_bound p),
                 px_activeClusterPorts :=
                   map_delete (add64 port LOCAL_DEV_PORT_PROXY_SHIFT) (px_activeClusterPorts p)\<rparr>)"

definition dropListeners :: "goint list \<Rightarrow> goint list \<Rightarrow> Proxy \<Rightarrow> Proxy" where
  "dropListeners prts ks p = fold (dropPort prts) ks p"

definition checkNewPorts :: "goint list \<Rightarrow> pproc \<Rightarrow> pproc" where
  "checkNewPorts prts k =
     startListeners prts (Io Px_Visit (\<lambda>i. px_write (dropListeners prts (pi_order i)) k))"

text \<open>The main loop: a new list of ports, or a new list of nodes.\<close>

definition proxyStart :: pproc where
  "proxyStart =
     Io Px_Select (\<lambda>i.
       case pi_select i of
         Inl prts \<Rightarrow> checkNewPorts prts (Goto L_proxyStart)
       | Inr nodes \<Rightarrow> px_write (proxy_setNodes nodes) (Goto L_proxyStart))"

fun proxy_code :: "px_label \<Rightarrow> pproc" where
  "proxy_code (L_accept port) = acceptClient port"
| "proxy_code L_acceptPeers = acceptPeer"
| "proxy_code L_proxyStart = proxyStart"

text \<open>The goroutines that can start at any time, and a proxy that has just been started.\<close>

inductive proxy_starts :: "pp_enc \<Rightarrow> pp_dec \<Rightarrow> pproc \<Rightarrow> bool" for enc dec where
  port: "proxy_starts enc dec (listenPort port)"
| client: "proxy_starts enc dec (serveClient enc dec port)"
| peer: "proxy_starts enc dec (servePeer enc dec)"

definition proxy_init :: "string \<Rightarrow> goint \<Rightarrow> string list \<Rightarrow> (Proxy, px_event, px_input, px_label) node" where
  "proxy_init ip port peers = (proxy_addPeers peers (InitProxy ip port), [Goto L_proxyStart, listenProxies])"

section \<open>One request to a node in detail\<close>

text \<open>
  The goroutine that talks to the node (\<open>kubeWorker\<close>) and the \<open>select\<close> that waits for it
  (\<open>kubeWaiter\<close>), with the two unbuffered channels of the call: the value a sender offers,
  and whether \<open>kubResp\<close> was closed. A send on a closed channel panics, also when the channel
  is closed while the sender waits. The result of the call is left in \<open>cell_result\<close>.
\<close>

datatype offer = Offer_failure | Offer_answer bytes

record cell =
  cell_offer :: "offer option"
  cell_closed :: bool
  cell_result :: "(go_error \<times> bytes) option"

definition cell0 :: cell where
  "cell0 = \<lparr>cell_offer = None, cell_closed = False, cell_result = None\<rparr>"

datatype cell_event = Ce_Dial | Ce_Write | Ce_Read | Ce_SentDone | Ce_SentResp | Ce_Select

datatype cell_input = In_error | In_done bytes | In_case px_cluster

type_synonym cproc = "(cell, cell_event, cell_input, unit) goproc"

fun cell_env :: "cell \<Rightarrow> cell_event \<Rightarrow> cell_input \<Rightarrow> bool" where
  "cell_env c Ce_SentDone i = (cell_offer c = None)"
| "cell_env c Ce_SentResp i = (cell_offer c = None \<or> cell_closed c)"
| "cell_env c Ce_Select i =
     (case i of
        In_case Cl_failure \<Rightarrow> cell_offer c = Some Offer_failure
      | In_case Cl_timeout \<Rightarrow> True
      | In_case (Cl_answer resp) \<Rightarrow> cell_offer c = Some (Offer_answer resp)
      | _ \<Rightarrow> False)"
| "cell_env c Ce_Read i = (case i of In_error \<Rightarrow> True | In_done resp \<Rightarrow> length resp \<le> 2048 | _ \<Rightarrow> False)"
| "cell_env c e i = (case i of In_case x \<Rightarrow> False | _ \<Rightarrow> True)"

definition kubeWorker :: cproc where
  "kubeWorker =
     (let fail = Atom (\<lambda>c. c\<lparr>cell_offer := Some Offer_failure\<rparr>) (\<lambda>_. Io Ce_SentDone (\<lambda>_. Return));
          send = (\<lambda>resp. Atom (\<lambda>c. if cell_closed c then c else c\<lparr>cell_offer := Some (Offer_answer resp)\<rparr>)
            (\<lambda>c. if cell_closed c then Crash
                 else Io Ce_SentResp (\<lambda>_. Atom id (\<lambda>c. if cell_offer c \<noteq> None then Crash else Return))))
      in Io Ce_Dial (\<lambda>i. if i = In_error then fail
         else Io Ce_Write (\<lambda>i. if i = In_error then fail
         else Io Ce_Read (\<lambda>i. case i of In_done resp \<Rightarrow> send resp | _ \<Rightarrow> fail))))"

definition kubeWaiter :: cproc where
  "kubeWaiter =
     (let failed = (Some ''FAILED TO REACH ANY OF THE KUB NODES.'', [])
      in Io Ce_Select (\<lambda>i.
           case i of
             In_case Cl_failure \<Rightarrow>
               Atom (\<lambda>c. c\<lparr>cell_offer := None, cell_closed := True, cell_result := Some failed\<rparr>) (\<lambda>_. Return)
           | In_case (Cl_answer resp) \<Rightarrow>
               Atom (\<lambda>c. c\<lparr>cell_offer := None, cell_result := Some (nil_error, resp)\<rparr>) (\<lambda>_. Return)
           | _ \<Rightarrow> Atom (\<lambda>c. c\<lparr>cell_closed := True, cell_result := Some failed\<rparr>) (\<lambda>_. Return)))"

definition request_init :: "(cell, cell_event, cell_input, unit) node" where
  "request_init = (cell0, [kubeWaiter, kubeWorker])"

abbreviation request_steps where
  "request_steps \<equiv> node_steps (\<lambda>_. Return) cell_env (\<lambda>_. False)"

section \<open>Running a handler alone\<close>

lemma exec_px_read [exec_simps]: "exec ok (px_read f k) ins p = exec ok (k (f p)) ins p"
  by (simp add: px_read_def)

lemma exec_px_write [exec_simps]: "exec ok (px_write u k) ins p = exec ok k ins (u p)"
  by (simp add: px_write_def)

end
