(* ===== verification/Proxy_Properties.thy ===== *)
theory Proxy_Properties
  imports Proxy "HOL-Library.Multiset"
begin

text \<open>
  Properties of the proxy: the shuffle, the bounds on what one client request causes, the
  failover from one proxy to another and back, the ports that are listened on, and what a
  late answer does.
\<close>

section \<open>The shuffle\<close>

lemma length_swap [simp]: "length (swap n i xs) = length xs"
  by (simp add: swap_def)

lemma mset_swap_ok: "n < length xs \<Longrightarrow> i < length xs \<Longrightarrow> mset (swap n i xs) = mset xs"
  by (simp add: swap_def mset_swap)

lemma swap_self [simp]: "n < length xs \<Longrightarrow> swap n n xs = xs"
  by (simp add: swap_def)

lemma fold_swap_mset:
  "\<forall>(n, i) \<in> set ps. n < length xs \<and> i < length xs \<Longrightarrow>
   mset (fold (\<lambda>(n, i). swap n i) ps xs) = mset xs"
  by (induction ps arbitrary: xs) (auto simp: mset_swap_ok)

lemma shuffle_mset:
  assumes "Intn_ok (length xs) rs"
  shows "mset (shuffle rs xs) = mset xs"
  unfolding shuffle_def
proof (rule fold_swap_mset, clarify)
  fix n i
  assume p: "(n, i) \<in> set (zip [0 ..< length xs] rs)"
  with assms have "i \<le> n" by (auto simp: Intn_ok_def list_all_iff)
  moreover have "n < length xs" using p by (auto dest: set_zip_leftD)
  ultimately show "n < length xs \<and> i < length xs" by simp
qed

lemma set_shuffle: "Intn_ok (length xs) rs \<Longrightarrow> set (shuffle rs xs) = set xs"
  by (metis shuffle_mset mset_eq_setD)

text \<open>Random numbers that bring the element at \<open>j\<close> to the front and move nothing else.\<close>

definition pick_first :: "nat \<Rightarrow> nat \<Rightarrow> nat list" where
  "pick_first j len = [0 ..< len][j := 0]"

lemma pick_first_ok: "Intn_ok len (pick_first j len)"
proof -
  have "[0 ..< len][j := 0] ! n \<le> n" if "n < len" for n
    using that by (cases "n = j") auto
  then show ?thesis by (simp add: Intn_ok_def pick_first_def list_all_length)
qed

lemma fold_swap_id:
  "\<forall>n \<in> set ns. n < length xs \<Longrightarrow> fold (\<lambda>(n, i). swap n i) (zip ns ns) xs = xs"
  by (induction ns) auto

lemma shuffle_pick_first:
  assumes "j < length xs"
  shows "shuffle (pick_first j (length xs)) xs = swap j 0 xs"
proof -
  let ?n = "length xs"
  have split: "[0 ..< ?n] = [0 ..< j] @ j # [Suc j ..< ?n]"
    using assms by (metis le_add_diff_inverse less_or_eq_imp_le upt_add_eq_append upt_conv_Cons zero_le)
  have "pick_first j ?n = [0 ..< j] @ 0 # [Suc j ..< ?n]"
    unfolding pick_first_def split by (simp add: list_update_append)
  then show ?thesis
    using assms
    by (simp add: shuffle_def split fold_swap_id del: upt_Suc)
qed

section \<open>Forwarding\<close>

fun client_writes :: "px_event list \<Rightarrow> bytes list" where
  "client_writes [] = []"
| "client_writes (Px_WriteClient bs # es) = bs # client_writes es"
| "client_writes (_ # es) = client_writes es"

fun cluster_calls :: "px_event list \<Rightarrow> (string \<times> goint \<times> bytes) list" where
  "cluster_calls [] = []"
| "cluster_calls (Px_Cluster node port packet # es) = (node, port, packet) # cluster_calls es"
| "cluster_calls (_ # es) = cluster_calls es"

fun peer_calls :: "px_event list \<Rightarrow> (string \<times> goint \<times> bytes) list" where
  "peer_calls [] = []"
| "peer_calls (Px_Peer peer port packet # es) = (peer, port, packet) # peer_calls es"
| "peer_calls (_ # es) = peer_calls es"

lemma exec_forward [exec_simps]:
  assumes "Intn_ok (length (px_activeClusterNodes p)) (pi_rand i)"
  shows "exec px_env (forwardToCluster packet port k) (i # ins) p =
    emit (Px_Rand (length (px_activeClusterNodes p)))
      (case filter (\<lambda>node. node \<noteq> []) (shuffle (pi_rand i) (px_activeClusterNodes p)) of
         [] \<Rightarrow> exec px_env (k (Some ''FAILED TO REACH ANY OF THE KUB NODES.'', [])) ins p
       | node # _ \<Rightarrow>
           exec px_env (Io (Px_Cluster node (sub64 port 100) packet) (\<lambda>j.
             case pi_cluster j of
               Cl_failure \<Rightarrow> k (Some ''FAILED TO REACH ANY OF THE KUB NODES.'', [])
             | Cl_timeout \<Rightarrow> k (Some ''FAILED TO REACH ANY OF THE KUB NODES.'', [])
             | Cl_answer resp \<Rightarrow> k (nil_error, resp))) ins p)"
  using assms
  by (simp add: forwardToCluster_def exec_simps LOCAL_DEV_PORT_PROXY_SHIFT_def Let_def split: list.split)

text \<open>The answers that give the random numbers of the peer shuffle one by one.\<close>

abbreviation rand_inputs :: "nat list \<Rightarrow> px_input list" where
  "rand_inputs rs \<equiv> map (\<lambda>r. px_input0\<lparr>pi_rand := [r]\<rparr>) rs"

lemma exec_shufflePeers:
  assumes "list_all (\<lambda>(m, r). r \<le> m) (zip [n ..< n + length rs] rs)"
  shows "exec px_env (shufflePeers n (length rs) k) (rand_inputs rs @ ins) p =
    foldr emit (map Px_Intn [n ..< n + length rs])
      (exec px_env k ins (p\<lparr>px_peerNodes :=
         fold (\<lambda>(n, i). swap n i) (zip [n ..< n + length rs] rs) (px_peerNodes p)\<rparr>))"
  using assms
proof (induction rs arbitrary: n p)
  case Nil
  then show ?case by simp
next
  case (Cons r rs)
  have upt: "[n ..< Suc (n + length rs)] = n # [Suc n ..< Suc (n + length rs)]"
    by (simp add: upt_conv_Cons del: upt_Suc)
  with Cons.prems have "r \<le> n" "list_all (\<lambda>(m, r). r \<le> m) (zip [Suc n ..< Suc n + length rs] rs)"
    by (simp_all del: upt_Suc)
  then show ?case
    by (simp add: upt exec_simps Let_def Cons.IH [of "Suc n", unfolded add_Suc] del: upt_Suc flip: swap_def)
qed

lemma exec_proxyRequest [exec_simps]:
  assumes "Intn_ok (length (px_peerNodes p)) rs"
    and "filter (\<lambda>peer. peer \<noteq> []) (shuffle rs (px_peerNodes p)) = peer # rest"
  shows "exec px_env (proxyRequest enc dec data port k) (rand_inputs rs @ j # ins) p =
    foldr emit (map Px_Intn [0 ..< length (px_peerNodes p)])
     (emit (Px_Peer peer (px_port p)
        (fst (WriteProxyPacket enc nil_error \<lparr>pp_Failed = False, pp_Port = port, pp_Data = data\<rparr>)))
      (exec px_env
        (case pi_peer j of
           Peer_dial_failed err \<Rightarrow> k (Some err, data)
         | Peer_write_failed err \<Rightarrow> k (Some (''Failed to write packet to proxy'' @ err), [])
         | Peer_reply received \<Rightarrow>
             (case ReadProxyPacket dec received of (pp, err) \<Rightarrow>
                if pp_Failed pp \<or> err \<noteq> nil_error then k (Some ''Failed to proxy packet'', [])
                else k (nil_error, pp_Data pp))) ins
        (p\<lparr>px_peerNodes := shuffle rs (px_peerNodes p)\<rparr>)))"
proof -
  have len: "length (px_peerNodes p) = length rs" using assms(1) by (simp add: Intn_ok_def)
  have "exec px_env (shufflePeers 0 (length rs) q) (rand_inputs rs @ j # ins) p =
    foldr emit (map Px_Intn [0 ..< length rs])
      (exec px_env q (j # ins) (p\<lparr>px_peerNodes := shuffle rs (px_peerNodes p)\<rparr>))" for q
    using exec_shufflePeers [of 0 rs q "j # ins" p] assms(1) by (simp add: Intn_ok_def shuffle_def)
  then show ?thesis
    using assms(2)
    by (simp add: proxyRequest_def getRandomPeerAddr_def exec_simps Let_def len cong: px_peer.case_cong)
qed

lemma filter_shuffle_mem:
  assumes "Intn_ok (length xs) rs" and "filter P (shuffle rs xs) = x # ys"
  shows "x \<in> set xs \<and> P x"
proof -
  have "x \<in> set (filter P (shuffle rs xs))" using assms(2) by simp
  then show ?thesis by (simp add: set_shuffle [OF assms(1)])
qed

text \<open>Packets that fit the buffers survive the way to the other proxy.\<close>

lemma packet_arrives:
  assumes "\<And>pp bs k. enc pp = Inr bs \<Longrightarrow> dec (bs @ replicate k 0) = (pp, nil_error)"
    and "enc pp = Inr bs" and "length bs \<le> 1024"
  shows "ReadProxyPacket dec (Inr (fst (WriteProxyPacket enc nil_error pp))) = (pp, nil_error)"
  using assms
  by (simp add: ReadProxyPacket_def WriteProxyPacket_def pp_encode_def read_buffer_short
      PROXY_MAX_PACKET_SIZE_def)

section \<open>Properties\<close>

text \<open>
  The order in which nodes and peers are tried is a permutation of the list, whatever numbers
  \<open>rand\<close> returns, and every element can come first.
\<close>
theorem shuffle_fair:
  assumes "Intn_ok (length xs) rs"
  shows "mset (shuffle rs xs) = mset xs \<and>
    (\<forall>x \<in> set xs. \<exists>rs'. Intn_ok (length xs) rs' \<and> hd (shuffle rs' xs) = x)"
proof (intro conjI ballI)
  show "mset (shuffle rs xs) = mset xs" by (rule shuffle_mset [OF assms])
next
  fix x
  assume "x \<in> set xs"
  then obtain j where j: "j < length xs" "x = xs ! j" by (metis in_set_conv_nth)
  then have "xs \<noteq> []" by auto
  with j have "hd (shuffle (pick_first j (length xs)) xs) = x"
    by (subst shuffle_pick_first) (simp_all add: swap_def hd_conv_nth)
  then show "\<exists>rs'. Intn_ok (length xs) rs' \<and> hd (shuffle rs' xs) = x"
    using pick_first_ok by blast
qed

theorem shuffle_fair_witness:
  "mset (shuffle [0, 0, 1] [''x'', ''y'', ''z'']) = mset [''x'', ''y'', ''z'']"
proof -
  have "Intn_ok (length [''x'', ''y'', ''z'']) [0, 0, 1]" by code_simp
  from shuffle_fair [OF this] show ?thesis by blast
qed

text \<open>
  The shuffle of the peers calls nobody and answers nobody, whatever its inputs: it waits for
  an input, or goes on.
\<close>

definition quiet :: "px_event list \<Rightarrow> bool" where
  "quiet es \<longleftrightarrow> cluster_calls es = [] \<and> peer_calls es = [] \<and> client_writes es = []"

lemma calls_append [simp]:
  "cluster_calls (es @ fs) = cluster_calls es @ cluster_calls fs"
  "peer_calls (es @ fs) = peer_calls es @ peer_calls fs"
  "client_writes (es @ fs) = client_writes es @ client_writes fs"
  subgoal by (induction es rule: cluster_calls.induct) auto
  subgoal by (induction es rule: peer_calls.induct) auto
  subgoal by (induction es rule: client_writes.induct) auto
  done

lemma exec_shufflePeers_cases:
  "(\<exists>q es. exec px_env (shufflePeers n m k) ins p = (q, es, Waits) \<and> quiet es) \<or>
   (\<exists>q es rest. exec px_env (shufflePeers n m k) ins p = foldr emit es (exec px_env k rest q) \<and> quiet es)"
proof (induction m arbitrary: n ins p)
  case 0
  have "exec px_env (shufflePeers n 0 k) ins p = foldr emit [] (exec px_env k ins p) \<and> quiet []"
    by (simp add: quiet_def)
  then show ?case by blast
next
  case (Suc m)
  show ?case
  proof (cases "\<exists>i rest. ins = i # rest \<and> px_env p (Px_Intn n) i")
    case False
    then have "exec px_env (shufflePeers n (Suc m) k) ins p = (p, [Px_Intn n], Waits) \<and> quiet [Px_Intn n]"
      by (cases ins) (auto simp: quiet_def)
    then show ?thesis by blast
  next
    case True
    then obtain i rest where i: "ins = i # rest" "px_env p (Px_Intn n) i" by blast
    let ?q = "p\<lparr>px_peerNodes := (px_peerNodes p)[n := px_peerNodes p ! hd (pi_rand i), hd (pi_rand i) := px_peerNodes p ! n]\<rparr>"
    have run: "exec px_env (shufflePeers n (Suc m) k) ins p =
        emit (Px_Intn n) (exec px_env (shufflePeers (n + 1) m k) rest ?q)"
      using i by (simp add: exec_simps Let_def del: px_env.simps)
    from Suc.IH [of "n + 1" rest ?q] show ?thesis
    proof (elim disjE exE conjE)
      fix q es
      assume "exec px_env (shufflePeers (n + 1) m k) rest ?q = (q, es, Waits)" "quiet es"
      then have "exec px_env (shufflePeers n (Suc m) k) ins p = (q, Px_Intn n # es, Waits) \<and> quiet (Px_Intn n # es)"
        unfolding run by (simp add: quiet_def)
      then show ?thesis by blast
    next
      fix q es rest'
      assume "exec px_env (shufflePeers (n + 1) m k) rest ?q = foldr emit es (exec px_env k rest' q)" "quiet es"
      then have "exec px_env (shufflePeers n (Suc m) k) ins p = foldr emit (Px_Intn n # es) (exec px_env k rest' q) \<and>
          quiet (Px_Intn n # es)"
        unfolding run by (simp add: quiet_def)
      then show ?thesis by blast
    qed
  qed
qed

text \<open>The second half of a client request: the answer of a peer, or the failure.\<close>

definition answer_client :: "go_error \<times> bytes \<Rightarrow> pproc" where
  "answer_client r =
     (if fst r \<noteq> nil_error
      then Io (Px_WriteClient (string_bytes ''FAILED PROXY REQUEST'')) (\<lambda>_. Io Px_Close (\<lambda>_. Return))
      else Io (Px_WriteClient (snd r)) (\<lambda>_. Io Px_Close (\<lambda>_. Return)))"

lemma serveClient_eq:
  "serveClient enc dec port =
     Io Px_ReadClient (\<lambda>i.
       case pi_read i of
         Inl err \<Rightarrow> Io Px_Close (\<lambda>_. Return)
       | Inr payload \<Rightarrow>
           forwardToCluster payload port (\<lambda>r.
             if fst r = nil_error then Io (Px_WriteClient (snd r)) (\<lambda>_. Io Px_Close (\<lambda>_. Return))
             else proxyRequest enc dec payload port answer_client))"
  unfolding serveClient_def Let_def answer_client_def by (simp only: case_prod_beta')

lemma exec_getRandomPeerAddr_cases:
  assumes "exec px_env (getRandomPeerAddr k) ins p = (p', es, st)"
  shows "quiet es \<or>
    (\<exists>fs gs peer rest q. es = fs @ gs \<and> quiet fs \<and> exec px_env (k peer) rest q = (p', gs, st))"
proof -
  let ?rest = "px_read px_peerNodes (\<lambda>peers. case filter (\<lambda>peer. peer \<noteq> []) peers of [] \<Rightarrow> k [] | peer # _ \<Rightarrow> k peer)"
  have rest: "\<exists>peer. exec px_env (k peer) is q = r" if "exec px_env ?rest is q = r" for "is" q r
    using that by (auto simp: exec_simps split: list.splits)
  have "exec px_env (shufflePeers 0 (length (px_peerNodes p)) ?rest) ins p = (p', es, st)"
    using assms by (simp add: getRandomPeerAddr_def exec_simps)
  with exec_shufflePeers_cases [of 0 "length (px_peerNodes p)" ?rest ins p] show ?thesis
  proof (elim disjE exE conjE)
    fix q fs is'
    assume a: "exec px_env (shufflePeers 0 (length (px_peerNodes p)) ?rest) ins p =
        foldr emit fs (exec px_env ?rest is' q)" "quiet fs"
      "exec px_env (shufflePeers 0 (length (px_peerNodes p)) ?rest) ins p = (p', es, st)"
    obtain q' gs st' where g: "exec px_env ?rest is' q = (q', gs, st')" by (metis prod_cases3)
    with a have "es = fs @ gs" "q' = p'" "st' = st" by (simp_all add: foldr_emit)
    with rest [OF g] a(2) show ?thesis by blast
  qed auto
qed

lemma exec_peer_half:
  assumes "exec px_env (proxyRequest enc dec data port answer_client) ins p = (p', es, st)"
  shows "cluster_calls es = [] \<and> length (peer_calls es) \<le> 1 \<and> length (client_writes es) \<le> 1"
  using exec_getRandomPeerAddr_cases [OF assms [unfolded proxyRequest_def]]
proof (elim disjE exE conjE)
  fix fs gs peer rest q
  assume es: "es = fs @ gs" "quiet fs"
    and run: "exec px_env (px_read px_port (\<lambda>porta. Io (Px_Peer peer porta (fst (WriteProxyPacket enc nil_error
             \<lparr>pp_Failed = False, pp_Port = port, pp_Data = data\<rparr>))) (\<lambda>i.
         case pi_peer i of
           Peer_dial_failed err \<Rightarrow> answer_client (Some err, data)
         | Peer_write_failed err \<Rightarrow> answer_client (Some (''Failed to write packet to proxy'' @ err), [])
         | Peer_reply received \<Rightarrow>
             (case ReadProxyPacket dec received of (pp, err) \<Rightarrow>
                if pp_Failed pp \<or> err \<noteq> nil_error then answer_client (Some ''Failed to proxy packet'', [])
                else answer_client (nil_error, pp_Data pp))))) rest q = (p', gs, st)"
  from run have "cluster_calls gs = [] \<and> length (peer_calls gs) \<le> 1 \<and> length (client_writes gs) \<le> 1"
    by (auto simp: exec_simps emit_eq_iff answer_client_def
        split: list.splits px_peer.splits prod.splits if_splits)
  with es show ?thesis by (simp add: quiet_def)
qed (simp add: quiet_def)

lemma quiet_Intn:
  "cluster_calls (map Px_Intn ns) = []" "peer_calls (map Px_Intn ns) = []" "client_writes (map Px_Intn ns) = []"
  by (induction ns) simp_all

text \<open>C34:
  whatever the network does, one client request is sent to at most one cluster node (a
  known one, at the unshifted port, with the client's bytes) and to at most one peer, and
  the client gets at most one answer; a failing node is never followed by a try of another
  one, although the error speaks of all of them.
\<close>
theorem client_request_bounds:
  assumes "exec px_env (serveClient enc dec port) ins p = (p', es, st)"
  shows "length (cluster_calls es) \<le> 1 \<and> length (peer_calls es) \<le> 1 \<and> length (client_writes es) \<le> 1 \<and>
    (\<forall>(node, q, packet) \<in> set (cluster_calls es).
       node \<in> set (px_activeClusterNodes p) \<and> node \<noteq> [] \<and> q = sub64 port 100)"
  using assms
  by (auto simp: serveClient_eq forwardToCluster_def exec_simps Let_def emit_eq_iff
      LOCAL_DEV_PORT_PROXY_SHIFT_def dest: filter_shuffle_mem exec_peer_half
      split: list.splits sum.splits if_splits px_cluster.splits)

text \<open>A small codec for the witnesses: padding, three bytes of header, the data.\<close>

definition toy_pp_enc :: "nat \<Rightarrow> pp_enc" where
  "toy_pp_enc pad pp =
     (if 0 \<le> pp_Port pp \<and> pp_Port pp < 256 \<and> length (pp_Data pp) < 256
      then Inr (replicate pad 9 @ [if pp_Failed pp then 1 else 0, of_int (pp_Port pp),
             of_nat (length (pp_Data pp))] @ pp_Data pp)
      else Inl ''too large'')"

definition toy_pp_dec :: "nat \<Rightarrow> pp_dec" where
  "toy_pp_dec pad bs =
     (case drop pad bs of
        f # q # l # data \<Rightarrow>
          if unat l \<le> length data
          then (\<lparr>pp_Failed = (f = 1), pp_Port = uint q, pp_Data = take (unat l) data\<rparr>, nil_error)
          else (ProxyPacket0, Some ''unexpected EOF'')
      | _ \<Rightarrow> (ProxyPacket0, Some ''unexpected EOF''))"

lemma toy_codec: "toy_pp_enc pad pp = Inr bs \<Longrightarrow> toy_pp_dec pad (bs @ replicate k 0) = (pp, nil_error)"
  by (auto simp: toy_pp_enc_def toy_pp_dec_def unat_of_nat uint_word_of_int take_bit_eq_mod
      split: if_splits)

definition demo_proxy :: "string list \<Rightarrow> string list \<Rightarrow> Proxy" where
  "demo_proxy peers nodes = proxy_setNodes nodes (proxy_addPeers peers (InitProxy ''a'' 9997))"

theorem client_request_bounds_witness:
  "length (cluster_calls (fst (snd (exec px_env (serveClient (toy_pp_enc 0) (toy_pp_dec 0) 130)
     [px_input0\<lparr>pi_read := Inr [1, 2]\<rparr>, px_input0\<lparr>pi_rand := [0, 0]\<rparr>, px_input0]
     (demo_proxy [] [''n'', ''m'']))))) \<le> 1"
proof -
  obtain p' es st where run: "exec px_env (serveClient (toy_pp_enc 0) (toy_pp_dec 0) 130)
     [px_input0\<lparr>pi_read := Inr [1, 2]\<rparr>, px_input0\<lparr>pi_rand := [0, 0]\<rparr>, px_input0]
     (demo_proxy [] [''n'', ''m'']) = (p', es, st)"
    by (metis prod_cases3)
  from client_request_bounds [OF run] show ?thesis by (simp add: run)
qed

text \<open>C9:
  failover from end to end: a client asks proxy A; A's own cluster fails or does not answer
  in time; A sends the request to a peer with an address; proxy B decodes it, forwards it to
  a node of its own cluster at the same service port, and sends the answer back; the client
  gets exactly that answer, once. (gob is assumed to read back what it wrote and to ignore
  zero bytes behind it, and both packets fit into 1024 bytes.)
\<close>
theorem failover_delivers:
  assumes codec: "\<And>pp bs k. enc pp = Inr bs \<Longrightarrow> dec (bs @ replicate k 0) = (pp, nil_error)"
    and "pi_read aread = Inr payload" and "length payload \<le> 2048"
    and "Intn_ok (length (px_activeClusterNodes A)) (pi_rand arand)"
    and "filter (\<lambda>n. n \<noteq> []) (shuffle (pi_rand arand) (px_activeClusterNodes A)) = nodeA # nsA"
    and "pi_cluster acl \<in> {Cl_failure, Cl_timeout}"
    and "Intn_ok (length (px_peerNodes A)) apeers"
    and "filter (\<lambda>n. n \<noteq> []) (shuffle apeers (px_peerNodes A)) = peerB # psA"
    and "enc \<lparr>pp_Failed = False, pp_Port = port, pp_Data = payload\<rparr> = Inr req" and "length req \<le> 1024"
    and "peer_calls esA = [(peerB, px_port A, request)]" and "pi_read bread = Inr request"
    and "Intn_ok (length (px_activeClusterNodes B)) (pi_rand brand)"
    and "filter (\<lambda>n. n \<noteq> []) (shuffle (pi_rand brand) (px_activeClusterNodes B)) = nodeB # nsB"
    and "pi_cluster bcl = Cl_answer resp" and "length resp \<le> 2048"
    and "enc \<lparr>pp_Failed = False, pp_Port = port, pp_Data = resp\<rparr> = Inr ans" and "length ans \<le> 1024"
    and "exec px_env (servePeer enc dec) [bread, brand, bcl, px_input0] B = (B', esB, stB)"
    and "Px_WritePeer answer \<in> set esB" and "pi_peer areply = Peer_reply (Inr answer)"
    and "exec px_env (serveClient enc dec port) (aread # arand # acl # rand_inputs apeers @ [areply, px_input0, px_input0]) A
      = (A', esA, stA)"
  shows "cluster_calls esB = [(nodeB, sub64 port 100, payload)] \<and> client_writes esA = [resp] \<and>
    stA = Returned"
proof -
  let ?req = "\<lparr>pp_Failed = False, pp_Port = port, pp_Data = payload\<rparr>"
  let ?ans = "\<lparr>pp_Failed = False, pp_Port = port, pp_Data = resp\<rparr>"
  note arrive = packet_arrives [where enc = enc and dec = dec, OF codec]
  have A: "esA = [Px_ReadClient, Px_Rand (length (px_activeClusterNodes A)),
      Px_Cluster nodeA (sub64 port 100) payload] @ map Px_Intn [0 ..< length (px_peerNodes A)] @
      [Px_Peer peerB (px_port A) (fst (WriteProxyPacket enc nil_error ?req))] @
      (if pp_Failed (fst (ReadProxyPacket dec (Inr answer))) \<or> snd (ReadProxyPacket dec (Inr answer)) \<noteq> nil_error
       then [Px_WriteClient (string_bytes ''FAILED PROXY REQUEST''), Px_Close]
       else [Px_WriteClient (pp_Data (fst (ReadProxyPacket dec (Inr answer)))), Px_Close]) \<and> stA = Returned"
    using assms(2-8,21,22)
    by (auto simp: serveClient_eq answer_client_def exec_simps foldr_emit case_prod_beta split: if_splits)
  then have "request = fst (WriteProxyPacket enc nil_error ?req)"
    using assms(11) by (simp add: quiet_Intn split: if_splits)
  then have "ReadProxyPacket dec (pi_read bread) = (?req, nil_error)"
    using arrive [OF _ assms(9,10)] assms(12) by simp
  then have B: "esB = [Px_ReadPeer, Px_Rand (length (px_activeClusterNodes B)),
      Px_Cluster nodeB (sub64 port 100) payload, Px_WritePeer (fst (WriteProxyPacket enc nil_error ?ans))]"
    using assms(13-16,19) by (auto simp: servePeer_def exec_simps Let_def)
  then have "ReadProxyPacket dec (Inr answer) = (?ans, nil_error)"
    using arrive [OF _ assms(17,18)] assms(20) by simp
  with A B show ?thesis by (simp add: quiet_Intn)
qed

definition demo_A :: Proxy where
  "demo_A = demo_proxy [''b''] [''n'']"

definition demo_B :: Proxy where
  "demo_B = demo_proxy [] [''m'']"

definition demo_client_inputs :: "px_cluster \<Rightarrow> bytes \<Rightarrow> px_input list" where
  "demo_client_inputs cl answer =
     px_input0\<lparr>pi_read := Inr [1, 2]\<rparr> # px_input0\<lparr>pi_rand := [0]\<rparr> # px_input0\<lparr>pi_cluster := cl\<rparr> #
     rand_inputs [0] @ [px_input0\<lparr>pi_peer := Peer_reply (Inr answer)\<rparr>, px_input0, px_input0]"

theorem failover_delivers_witness:
  "client_writes (fst (snd (exec px_env (serveClient (toy_pp_enc 0) (toy_pp_dec 0) 130)
     (demo_client_inputs Cl_timeout [0, 130, 3, 5, 6, 7]) demo_A))) = [[5, 6, 7]]"
proof -
  let ?enc = "toy_pp_enc 0" and ?dec = "toy_pp_dec 0"
  let ?aread = "px_input0\<lparr>pi_read := Inr [1, 2]\<rparr>" and ?rand = "px_input0\<lparr>pi_rand := [0]\<rparr>"
  let ?acl = "px_input0\<lparr>pi_cluster := Cl_timeout\<rparr>" and ?bcl = "px_input0\<lparr>pi_cluster := Cl_answer [5, 6, 7]\<rparr>"
  let ?reply = "px_input0\<lparr>pi_peer := Peer_reply (Inr [0, 130, 3, 5, 6, 7])\<rparr>"
  let ?bread = "px_input0\<lparr>pi_read := Inr [0, 130, 2, 1, 2]\<rparr>"
  obtain A' esA stA where a: "exec px_env (serveClient ?enc ?dec 130)
      (?aread # ?rand # ?acl # rand_inputs [0] @ [?reply, px_input0, px_input0]) demo_A = (A', esA, stA)"
    by (metis prod_cases3)
  obtain B' esB stB where b: "exec px_env (servePeer ?enc ?dec) [?bread, ?rand, ?bcl, px_input0] demo_B = (B', esB, stB)"
    by (metis prod_cases3)
  have "peer_calls (fst (snd (exec px_env (serveClient ?enc ?dec 130)
      (?aread # ?rand # ?acl # rand_inputs [0] @ [?reply, px_input0, px_input0]) demo_A))) =
      [(''b'', px_port demo_A, [0, 130, 2, 1, 2])]"
    by code_simp
  then have pc: "peer_calls esA = [(''b'', px_port demo_A, [0, 130, 2, 1, 2])]" unfolding a by simp
  have "Px_WritePeer [0, 130, 3, 5, 6, 7] \<in>
      set (fst (snd (exec px_env (servePeer ?enc ?dec) [?bread, ?rand, ?bcl, px_input0] demo_B)))"
    by code_simp
  then have wp: "Px_WritePeer [0, 130, 3, 5, 6, 7] \<in> set esB" unfolding b by simp
  have h: "pi_read ?aread = Inr [1, 2]" "length ([1, 2] :: bytes) \<le> 2048"
    "Intn_ok (length (px_activeClusterNodes demo_A)) (pi_rand ?rand)"
    "filter (\<lambda>n. n \<noteq> []) (shuffle (pi_rand ?rand) (px_activeClusterNodes demo_A)) = ''n'' # []"
    "pi_cluster ?acl \<in> {Cl_failure, Cl_timeout}"
    "Intn_ok (length (px_peerNodes demo_A)) [0]"
    "filter (\<lambda>n. n \<noteq> []) (shuffle [0] (px_peerNodes demo_A)) = ''b'' # []"
    "?enc \<lparr>pp_Failed = False, pp_Port = 130, pp_Data = [1, 2]\<rparr> = Inr [0, 130, 2, 1, 2]"
    "length ([0, 130, 2, 1, 2] :: bytes) \<le> 1024"
    by code_simp+
  have h': "pi_read ?bread = Inr [0, 130, 2, 1, 2]"
    "Intn_ok (length (px_activeClusterNodes demo_B)) (pi_rand ?rand)"
    "filter (\<lambda>n. n \<noteq> []) (shuffle (pi_rand ?rand) (px_activeClusterNodes demo_B)) = ''m'' # []"
    "pi_cluster ?bcl = Cl_answer [5, 6, 7]" "length ([5, 6, 7] :: bytes) \<le> 2048"
    "?enc \<lparr>pp_Failed = False, pp_Port = 130, pp_Data = [5, 6, 7]\<rparr> = Inr [0, 130, 3, 5, 6, 7]"
    "length ([0, 130, 3, 5, 6, 7] :: bytes) \<le> 1024"
    by code_simp+
  have "pi_peer ?reply = Peer_reply (Inr [0, 130, 3, 5, 6, 7])" by simp
  from failover_delivers [OF toy_codec h pc h' b wp this a] show ?thesis
    unfolding demo_client_inputs_def a by simp
qed

text \<open>
  A request that comes from another proxy is tried on the own cluster only: whatever the
  inputs, it is never sent to a further proxy (so requests do not circulate), reaches at most
  one node, and leaves the proxy's state as it is.
\<close>
theorem peer_request_not_passed_on:
  assumes "exec px_env (servePeer enc dec) ins p = (p', es, st)"
  shows "peer_calls es = [] \<and> client_writes es = [] \<and> length (cluster_calls es) \<le> 1 \<and> p' = p"
  using assms
  by (auto simp: servePeer_def forwardToCluster_def exec_simps Let_def emit_eq_iff
      split: list.splits prod.splits if_splits px_cluster.splits)

theorem peer_request_not_passed_on_witness:
  "peer_calls (fst (snd (exec px_env (servePeer (toy_pp_enc 0) (toy_pp_dec 0))
     [px_input0\<lparr>pi_read := Inr [0, 130, 2, 1, 2]\<rparr>, px_input0\<lparr>pi_rand := [0]\<rparr>, px_input0, px_input0] demo_A))) = []"
proof -
  obtain p' es st where run: "exec px_env (servePeer (toy_pp_enc 0) (toy_pp_dec 0))
     [px_input0\<lparr>pi_read := Inr [0, 130, 2, 1, 2]\<rparr>, px_input0\<lparr>pi_rand := [0]\<rparr>, px_input0, px_input0] demo_A = (p', es, st)"
    by (metis prod_cases3)
  from peer_request_not_passed_on [OF run] show ?thesis by (simp add: run)
qed

text \<open>
  The two proxies do not agree on the size of a packet: up to 2048 bytes are written, 1024
  are read. If the peer's cluster answered but the encoded answer has more than 1024 bytes,
  the client gets the failure text although the failover worked. (gob is assumed to report
  an error for a value that is cut off.)
\<close>
theorem large_answer_lost:
  assumes cut: "\<And>pp bs n. enc pp = Inr bs \<Longrightarrow> n < length bs \<Longrightarrow> snd (dec (take n bs)) \<noteq> nil_error"
    and "pi_read aread = Inr payload" and "length payload \<le> 2048"
    and "Intn_ok (length (px_activeClusterNodes A)) (pi_rand arand)"
    and "filter (\<lambda>n. n \<noteq> []) (shuffle (pi_rand arand) (px_activeClusterNodes A)) = nodeA # nsA"
    and "pi_cluster acl \<in> {Cl_failure, Cl_timeout}"
    and "Intn_ok (length (px_peerNodes A)) apeers"
    and "filter (\<lambda>n. n \<noteq> []) (shuffle apeers (px_peerNodes A)) = peerB # psA"
    and "enc \<lparr>pp_Failed = False, pp_Port = port, pp_Data = resp\<rparr> = Inr ans" and "1024 < length ans"
    and "pi_peer areply = Peer_reply (Inr (fst (WriteProxyPacket enc nil_error
           \<lparr>pp_Failed = False, pp_Port = port, pp_Data = resp\<rparr>)))"
  shows "client_writes (fst (snd (exec px_env (serveClient enc dec port)
      (aread # arand # acl # rand_inputs apeers @ [areply, px_input0, px_input0]) A))) =
    [string_bytes ''FAILED PROXY REQUEST'']"
proof -
  have "read_buffer 1024 (take 2048 ans) = take 1024 ans"
    using assms(10) by (simp add: read_buffer_def)
  then have "snd (ReadProxyPacket dec (Inr (fst (WriteProxyPacket enc nil_error
      \<lparr>pp_Failed = False, pp_Port = port, pp_Data = resp\<rparr>)))) \<noteq> nil_error"
    using cut [OF assms(9,10)] assms(9)
    by (simp add: ReadProxyPacket_def WriteProxyPacket_def pp_encode_def PROXY_MAX_PACKET_SIZE_def)
  with assms(2-8,11) show ?thesis
    by (auto simp: serveClient_eq answer_client_def exec_simps foldr_emit case_prod_beta quiet_Intn)
qed

lemma toy_codec_cut:
  assumes "toy_pp_enc pad pp = Inr bs" and "n < length bs"
  shows "snd (toy_pp_dec pad (take n bs)) \<noteq> nil_error"
proof -
  have bs: "bs = replicate pad 9 @ [if pp_Failed pp then 1 else 0, of_int (pp_Port pp),
      of_nat (length (pp_Data pp))] @ pp_Data pp" and len: "length (pp_Data pp) < 256"
    using assms(1) by (auto simp: toy_pp_enc_def split: if_splits)
  have "n - pad < 3 + length (pp_Data pp)" using assms(2) bs by auto
  moreover have "unat (of_nat (length (pp_Data pp)) :: byte) = length (pp_Data pp)"
    using len by (simp add: unat_of_nat)
  ultimately show ?thesis
    unfolding toy_pp_dec_def bs
    by (auto simp: drop_take take_Cons' split: list.splits)
qed

theorem large_answer_lost_witness:
  "client_writes (fst (snd (exec px_env (serveClient (toy_pp_enc 1100) (toy_pp_dec 1100) 130)
     (demo_client_inputs Cl_failure (fst (WriteProxyPacket (toy_pp_enc 1100) nil_error
        \<lparr>pp_Failed = False, pp_Port = 130, pp_Data = [5, 6, 7]\<rparr>))) demo_A))) =
   [string_bytes ''FAILED PROXY REQUEST'']"
proof -
  let ?enc = "toy_pp_enc 1100" and ?ans = "replicate 1100 9 @ [0, 130, 3, 5, 6, 7 :: byte]"
  let ?aread = "px_input0\<lparr>pi_read := Inr [1, 2]\<rparr>" and ?rand = "px_input0\<lparr>pi_rand := [0]\<rparr>"
  let ?acl = "px_input0\<lparr>pi_cluster := Cl_failure\<rparr>"
  let ?reply = "px_input0\<lparr>pi_peer := Peer_reply (Inr (fst (WriteProxyPacket ?enc nil_error
    \<lparr>pp_Failed = False, pp_Port = 130, pp_Data = [5, 6, 7]\<rparr>)))\<rparr>"
  have h: "pi_read ?aread = Inr [1, 2]" "length ([1, 2] :: bytes) \<le> 2048"
    "Intn_ok (length (px_activeClusterNodes demo_A)) (pi_rand ?rand)"
    "filter (\<lambda>n. n \<noteq> []) (shuffle (pi_rand ?rand) (px_activeClusterNodes demo_A)) = ''n'' # []"
    "pi_cluster ?acl \<in> {Cl_failure, Cl_timeout}"
    "Intn_ok (length (px_peerNodes demo_A)) [0]"
    "filter (\<lambda>n. n \<noteq> []) (shuffle [0] (px_peerNodes demo_A)) = ''b'' # []"
    by code_simp+
  have ans: "?enc \<lparr>pp_Failed = False, pp_Port = 130, pp_Data = [5, 6, 7]\<rparr> = Inr ?ans" "1024 < length ?ans"
    by (simp_all add: toy_pp_enc_def)
  have "pi_peer ?reply = Peer_reply (Inr (fst (WriteProxyPacket ?enc nil_error
    \<lparr>pp_Failed = False, pp_Port = 130, pp_Data = [5, 6, 7]\<rparr>)))" by simp
  from large_answer_lost [where enc = ?enc and dec = "toy_pp_dec 1100", OF toy_codec_cut h ans this] show ?thesis
    by (simp add: demo_client_inputs_def)
qed

end
