(* ===== verification/Proxy_Request.thy ===== *)
theory Proxy_Request
  imports Proxy
begin

text \<open>
  One request to a node of the local cluster: the goroutine that talks to the node and the
  \<open>select\<close> that waits for it (\<open>forwardToCluster\<close> in \<open>proxy/proxy.go\<close>), in every interleaving.
  The panic of the late answer (\<open>Proxy_Node\<close>) is the only way to go wrong: without a time-out
  nothing stops the program, and a request that was answered is over.
\<close>

definition cell_env_upto :: "bool \<Rightarrow> cell \<Rightarrow> cell_event \<Rightarrow> cell_input \<Rightarrow> bool" where
  "cell_env_upto slow c e i \<longleftrightarrow> cell_env c e i \<and> (i = In_case Cl_timeout \<longrightarrow> slow)"

section \<open>Where the two goroutines can stand\<close>

abbreviation call_failed :: "go_error \<times> bytes" where
  "call_failed \<equiv> (Some ''FAILED TO REACH ANY OF THE KUB NODES.'', [])"

definition w_fail :: cproc where
  "w_fail = Atom (\<lambda>c. c\<lparr>cell_offer := Some Offer_failure\<rparr>) (\<lambda>_. Io Ce_SentDone (\<lambda>_. Return))"

definition w_sent :: cproc where
  "w_sent = Io Ce_SentResp (\<lambda>_. Atom id (\<lambda>c. if cell_offer c \<noteq> None then Crash else Return))"

definition w_send :: "bytes \<Rightarrow> cproc" where
  "w_send resp = Atom (\<lambda>c. if cell_closed c then c else c\<lparr>cell_offer := Some (Offer_answer resp)\<rparr>)
     (\<lambda>c. if cell_closed c then Crash else w_sent)"

definition w_read :: cproc where
  "w_read = Io Ce_Read (\<lambda>i. case i of In_done resp \<Rightarrow> w_send resp | _ \<Rightarrow> w_fail)"

definition w_write :: cproc where
  "w_write = Io Ce_Write (\<lambda>i. if i = In_error then w_fail else w_read)"

lemma kubeWorker_eq: "kubeWorker = Io Ce_Dial (\<lambda>i. if i = In_error then w_fail else w_write)"
  unfolding kubeWorker_def w_fail_def w_sent_def w_send_def w_read_def w_write_def Let_def by (rule refl)

definition s_fail :: cproc where
  "s_fail = Atom (\<lambda>c. c\<lparr>cell_offer := None, cell_closed := True, cell_result := Some call_failed\<rparr>) (\<lambda>_. Return)"

definition s_answer :: "bytes \<Rightarrow> cproc" where
  "s_answer resp = Atom (\<lambda>c. c\<lparr>cell_offer := None, cell_result := Some (nil_error, resp)\<rparr>) (\<lambda>_. Return)"

definition s_late :: cproc where
  "s_late = Atom (\<lambda>c. c\<lparr>cell_closed := True, cell_result := Some call_failed\<rparr>) (\<lambda>_. Return)"

lemma kubeWaiter_eq:
  "kubeWaiter = Io Ce_Select (\<lambda>i. case i of
     In_case Cl_failure \<Rightarrow> s_fail | In_case (Cl_answer resp) \<Rightarrow> s_answer resp | _ \<Rightarrow> s_late)"
  unfolding kubeWaiter_def s_fail_def s_answer_def s_late_def Let_def
  by (intro arg_cong [where f = "Io Ce_Select"] ext) (simp split: cell_input.split px_cluster.split)

lemmas stage_defs = w_fail_def w_sent_def w_send_def w_read_def w_write_def s_fail_def s_answer_def s_late_def

text \<open>The worker before it offers something; then with its offer; then when it was taken.\<close>

definition working :: "cproc \<Rightarrow> bool" where
  "working k \<longleftrightarrow> k \<in> {kubeWorker, w_write, w_read, w_fail} \<or> (\<exists>r. length r \<le> 2048 \<and> k = w_send r)"

definition offering :: "cell \<Rightarrow> cproc \<Rightarrow> bool" where
  "offering c k \<longleftrightarrow> cell_offer c = None \<and> working k \<or>
     cell_offer c = Some Offer_failure \<and> k = Io Ce_SentDone (\<lambda>_. Return) \<or>
     (\<exists>r. length r \<le> 2048 \<and> cell_offer c = Some (Offer_answer r) \<and> k = w_sent)"

definition w_taken :: cproc where
  "w_taken = Atom id (\<lambda>c. if cell_offer c \<noteq> None then Crash else Return)"

text \<open>After a time-out the worker goes on, and may panic.\<close>

definition abandoned :: "cproc \<Rightarrow> bool" where
  "abandoned k \<longleftrightarrow> working k \<or> k \<in> {Io Ce_SentDone (\<lambda>_. Return), w_sent, w_taken, Return, Crash}"

definition waits_for :: "bool \<Rightarrow> cell \<Rightarrow> cproc \<Rightarrow> bool" where
  "waits_for slow c w \<longleftrightarrow> w = kubeWaiter \<or> slow \<and> w = s_late \<or>
     cell_offer c = Some Offer_failure \<and> w = s_fail \<or>
     (\<exists>r. cell_offer c = Some (Offer_answer r) \<and> w = s_answer r)"

text \<open>The request runs; it failed; it was answered; it was given up after the time-out.\<close>

inductive call_ok :: "bool \<Rightarrow> cell \<Rightarrow> cproc list \<Rightarrow> bool" for slow where
  running: "\<not> cell_closed c \<Longrightarrow> cell_result c = None \<Longrightarrow> offering c k \<Longrightarrow> waits_for slow c w \<Longrightarrow>
     call_ok slow c [w, k]"
| failed: "cell_offer c = None \<Longrightarrow> cell_result c = Some call_failed \<Longrightarrow>
     k = Io Ce_SentDone (\<lambda>_. Return) \<or> k = Return \<Longrightarrow> call_ok slow c [Return, k]"
| answered: "cell_offer c = None \<Longrightarrow> cell_result c = Some (nil_error, r) \<Longrightarrow> length r \<le> 2048 \<Longrightarrow>
     k = w_sent \<or> k = w_taken \<or> k = Return \<Longrightarrow> call_ok slow c [Return, k]"
| late: "slow \<Longrightarrow> cell_result c = Some call_failed \<Longrightarrow> abandoned k \<Longrightarrow> call_ok slow c [Return, k]"

lemma call_ok_init: "call_ok slow (fst request_init) (snd request_init)"
  by (simp add: request_init_def cell0_def offering_def working_def waits_for_def call_ok.running)

text \<open>A move of one of the two.\<close>

inductive moves :: "bool \<Rightarrow> cell \<Rightarrow> cproc \<Rightarrow> cell \<Rightarrow> cproc \<Rightarrow> bool" for slow where
  atom: "moves slow c (Atom u k) (u c) (k c)"
| io: "cell_env_upto slow c e i \<Longrightarrow> moves slow c (Io e k) c (k i)"

inductive_cases moves_AtomE: "moves slow c (Atom u k) c' p'"
inductive_cases moves_IoE: "moves slow c (Io e k) c' p'"
inductive_cases moves_ReturnE: "moves slow c Return c' p'"

lemma two_step:
  assumes "node_step (\<lambda>_. Return) (cell_env_upto slow) (\<lambda>_. False) (c, [w, k]) (c', ts')"
    and "\<And>l. w \<noteq> Goto l" "\<And>l. k \<noteq> Goto l"
  shows "(\<exists>w'. moves slow c w c' w' \<and> ts' = [w', k]) \<or> (\<exists>k'. moves slow c k c' k' \<and> ts' = [w, k'])"
  using assms(1)
  by (cases rule: node_step.cases)
    (auto simp: less_Suc_eq assms(2,3) intro: moves.intros dest: sym [of _ "Atom _ _"] sym [of _ "Io _ _"])

lemma offering_move:
  assumes "offering c k" "\<not> cell_closed c" "moves slow c k c' k'"
  shows "offering c' k' \<and> \<not> cell_closed c' \<and> cell_result c' = cell_result c \<and>
    (cell_offer c \<noteq> None \<longrightarrow> c' = c)"
  using assms
  by (auto simp: offering_def working_def kubeWorker_eq stage_defs cell_env_upto_def
      elim!: moves_AtomE moves_IoE split: if_splits cell_input.splits)

lemma worker_moves:
  "moves slow c kubeWorker c' k' \<Longrightarrow> c' = c \<and> k' \<in> {w_fail, w_write}"
  "moves slow c w_write c' k' \<Longrightarrow> c' = c \<and> k' \<in> {w_fail, w_read}"
  "moves slow c w_read c' k' \<Longrightarrow> c' = c \<and> (k' = w_fail \<or> (\<exists>r. length r \<le> 2048 \<and> k' = w_send r))"
  "moves slow c w_fail c' k' \<Longrightarrow> c' = c\<lparr>cell_offer := Some Offer_failure\<rparr> \<and> k' = Io Ce_SentDone (\<lambda>_. Return)"
  "moves slow c (w_send r) c' k' \<Longrightarrow> (if cell_closed c then c' = c \<and> k' = Crash
     else c' = c\<lparr>cell_offer := Some (Offer_answer r)\<rparr> \<and> k' = w_sent)"
  "moves slow c w_sent c' k' \<Longrightarrow> c' = c \<and> k' = w_taken"
  "moves slow c w_taken c' k' \<Longrightarrow> c' = c \<and> k' \<in> {Crash, Return}"
  by (unfold kubeWorker_eq w_fail_def [symmetric], erule moves_IoE, simp split: if_splits)
    (unfold w_write_def w_read_def w_fail_def w_send_def w_sent_def w_taken_def,
      auto elim!: moves_IoE moves_AtomE simp: cell_env_upto_def split: cell_input.splits if_splits)

lemma abandoned_move:
  assumes "abandoned k" "moves slow c k c' k'"
  shows "abandoned k' \<and> cell_result c' = cell_result c"
proof -
  from assms(1) consider "k \<in> {kubeWorker, w_write, w_read, w_fail, w_sent, w_taken}"
    | r where "length r \<le> 2048" "k = w_send r" | "k = Io Ce_SentDone (\<lambda>_. Return)" | "k \<in> {Return, Crash}"
    by (auto simp: abandoned_def working_def)
  then show ?thesis
    using assms(2)
    by cases (auto simp: abandoned_def working_def dest!: worker_moves elim: moves.cases split: if_splits)
qed

lemma offering_abandoned: "offering c k \<Longrightarrow> abandoned k"
  by (auto simp: offering_def abandoned_def)

lemma no_jump: "\<not> abandoned (Goto l)" "\<not> offering c (Goto l)" "\<not> waits_for slow c (Goto l)"
  by (auto simp: abandoned_def offering_def working_def waits_for_def kubeWorker_eq kubeWaiter_eq
      w_taken_def stage_defs)

text \<open>The waiter: it takes what is offered, or gives up.\<close>

lemma waiter_moves:
  "moves slow c kubeWaiter c' k' \<Longrightarrow> c' = c \<and>
     (cell_offer c = Some Offer_failure \<and> k' = s_fail \<or>
      (\<exists>r. cell_offer c = Some (Offer_answer r) \<and> k' = s_answer r) \<or> slow \<and> k' = s_late)"
  "moves slow c s_fail c' k' \<Longrightarrow>
     c' = c\<lparr>cell_offer := None, cell_closed := True, cell_result := Some call_failed\<rparr> \<and> k' = Return"
  "moves slow c (s_answer r) c' k' \<Longrightarrow> c' = c\<lparr>cell_offer := None, cell_result := Some (nil_error, r)\<rparr> \<and> k' = Return"
  "moves slow c s_late c' k' \<Longrightarrow> c' = c\<lparr>cell_closed := True, cell_result := Some call_failed\<rparr> \<and> k' = Return"
proof -
  show "moves slow c kubeWaiter c' k' \<Longrightarrow> c' = c \<and>
     (cell_offer c = Some Offer_failure \<and> k' = s_fail \<or>
      (\<exists>r. cell_offer c = Some (Offer_answer r) \<and> k' = s_answer r) \<or> slow \<and> k' = s_late)"
    unfolding kubeWaiter_eq
    by (erule moves_IoE) (auto simp: cell_env_upto_def split: cell_input.splits px_cluster.splits)
qed (unfold s_fail_def s_answer_def s_late_def, auto elim!: moves_AtomE)

lemma running_waiter:
  assumes "moves slow c w c' w'" and "waits_for slow c w"
    and "\<not> cell_closed c" "cell_result c = None" "offering c k"
  shows "call_ok slow c' [w', k]"
  using assms(2) unfolding waits_for_def
proof (elim disjE conjE exE)
  assume "w = kubeWaiter"
  with waiter_moves(1) [of slow c c' w'] assms(1) have "c' = c" "waits_for slow c w'"
    by (auto simp: waits_for_def)
  with assms show ?thesis by (simp add: call_ok.running)
next
  assume "slow" "w = s_late"
  with waiter_moves(4) [of slow c c' w'] assms(1) offering_abandoned [OF assms(5)] show ?thesis
    by (simp add: call_ok.late)
next
  assume o: "cell_offer c = Some Offer_failure" "w = s_fail"
  with assms(5) have "k = Io Ce_SentDone (\<lambda>_. Return)" by (simp add: offering_def)
  with o waiter_moves(2) [of slow c c' w'] assms(1) show ?thesis by (simp add: call_ok.failed)
next
  fix r assume o: "cell_offer c = Some (Offer_answer r)" "w = s_answer r"
  with assms(5) have "k = w_sent" "length r \<le> 2048" by (simp_all add: offering_def)
  with o waiter_moves(3) [of slow c r c' w'] assms(1) show ?thesis by (simp add: call_ok.answered)
qed

lemma running_worker:
  assumes "moves slow c k c' k'" and "waits_for slow c w"
    and "\<not> cell_closed c" "cell_result c = None" "offering c k"
  shows "call_ok slow c' [w, k']"
proof -
  from offering_move [OF assms(5,3,1)] have m: "offering c' k'" "\<not> cell_closed c'" "cell_result c' = None"
    "cell_offer c \<noteq> None \<longrightarrow> c' = c" using assms(4) by auto
  with assms(2) have "waits_for slow c' w" by (auto simp: waits_for_def)
  with m show ?thesis by (simp add: call_ok.running)
qed

lemma call_ok_no_jump: "call_ok slow c [w, k] \<Longrightarrow> w \<noteq> Goto l \<and> k \<noteq> Goto l"
  by (auto elim!: call_ok.cases simp: no_jump w_sent_def w_taken_def)

lemma call_ok_two: "call_ok slow c ts \<Longrightarrow> \<exists>w k. ts = [w, k]"
  by (auto elim: call_ok.cases)

lemma call_ok_move:
  assumes "call_ok slow c [w, k]"
  shows "moves slow c w c' w' \<Longrightarrow> call_ok slow c' [w', k]"
    and "moves slow c k c' k' \<Longrightarrow> call_ok slow c' [w, k']"
proof -
  assume m: "moves slow c w c' w'"
  from assms show "call_ok slow c' [w', k]"
    by cases (use m running_waiter in \<open>auto elim: moves_ReturnE\<close>)
next
  assume m: "moves slow c k c' k'"
  from assms show "call_ok slow c' [w, k']"
  proof cases
    case running
    with running_worker [OF m] show ?thesis by simp
  next
    case failed
    with m show ?thesis by (auto elim!: moves_IoE moves_ReturnE intro: call_ok.failed)
  next
    case (answered r)
    with m show ?thesis
      using worker_moves(6) [of slow c c' k'] by (auto simp: w_taken_def elim!: moves_AtomE moves_ReturnE
        intro!: call_ok.answered)
  next
    case late
    with abandoned_move [OF _ m] show ?thesis by (simp add: call_ok.late)
  qed
qed

lemma call_ok_step:
  assumes "node_step (\<lambda>_. Return) (cell_env_upto slow) (\<lambda>_. False) (c, ts) (c', ts')" and "call_ok slow c ts"
  shows "call_ok slow c' ts'"
proof -
  from call_ok_two [OF assms(2)] obtain w k where ts: "ts = [w, k]" by blast
  note ok = assms(2) [unfolded ts]
  show ?thesis
    using two_step [OF assms(1) [unfolded ts]] call_ok_no_jump [OF ok] call_ok_move [OF ok] by blast
qed

lemma offering_no_crash: "offering c k \<Longrightarrow> k \<noteq> Crash"
  by (auto simp: offering_def working_def kubeWorker_eq stage_defs)

lemma waits_for_no_crash: "waits_for slow c w \<Longrightarrow> w \<noteq> Crash"
  by (auto simp: waits_for_def kubeWaiter_eq stage_defs)

lemma call_ok_crash:
  "call_ok slow c ts \<Longrightarrow> Crash \<in> set ts \<Longrightarrow> slow \<and> cell_result c = Some call_failed"
  by (auto elim!: call_ok.cases dest: offering_no_crash waits_for_no_crash simp: w_sent_def w_taken_def)

lemma call_ok_answered:
  "call_ok slow c ts \<Longrightarrow> cell_result c = Some (nil_error, r) \<Longrightarrow> length r \<le> 2048 \<and> Crash \<notin> set ts"
  by (auto elim!: call_ok.cases simp: w_sent_def w_taken_def)

text \<open>C39:
  in every interleaving of the two goroutines of a request to a cluster node, the process
  panics only if the wait timed out, and then the request was given up as failed before; a
  request that was answered carries at most the 2048 bytes that were read, and neither
  goroutine panics any more.
\<close>
theorem answered_request_safe:
  assumes "node_steps (\<lambda>_. Return) (cell_env_upto slow) (\<lambda>_. False) request_init (c, ts)"
  shows "(Crash \<in> set ts \<longrightarrow>
      slow \<and> cell_result c = Some (Some ''FAILED TO REACH ANY OF THE KUB NODES.'', [])) \<and>
    (\<forall>r. cell_result c = Some (nil_error, r) \<longrightarrow> length r \<le> 2048 \<and> Crash \<notin> set ts)"
proof -
  have "call_ok slow (fst n) (snd n)"
    if "node_steps (\<lambda>_. Return) (cell_env_upto slow) (\<lambda>_. False) request_init n" for n
    using that by (induction rule: rtranclp_induct) (auto simp: call_ok_init intro: call_ok_step)
  from this [OF assms] show ?thesis using call_ok_crash call_ok_answered by simp blast
qed

theorem answered_request_safe_witness:
  "\<exists>(c :: cell) (ts :: cproc list). cell_result c = Some (nil_error, [7]) \<and> Crash \<notin> set ts \<and> length ts = 2"
proof -
  let ?sched = "[Answer 1 (In_done []), Answer 1 (In_done []), Answer 1 (In_done [7]), Step 1,
    Answer 0 (In_case (Cl_answer [7])), Step 0]"
  let ?env = "cell_env_upto False"
  have "case node_run (\<lambda>_. Return) ?env ?sched request_init of None \<Rightarrow> False
    | Some (c, ts) \<Rightarrow> cell_result c = Some (nil_error, [7]) \<and> length ts = 2" by code_simp
  then obtain c ts where n: "node_run (\<lambda>_. Return) ?env ?sched request_init = Some (c, ts)"
    "cell_result c = Some (nil_error, [7])" "length ts = 2" by (auto split: option.splits)
  have "\<forall>a \<in> set ?sched. starts_ok (\<lambda>_. False) a" by simp
  from answered_request_safe [OF node_run_steps [OF n(1) this]] n(2,3) show ?thesis by blast
qed

end
