(* ===== verification/Kube_Client.thy ===== *)
theory Kube_Client
  imports Kube_Resources
begin

text \<open>
  \<open>kube/kube_client.go\<close>: the client that carries committed commands out on the local
  cluster and reports its node ports, node addresses and health. The API server behind it
  is the parameter \<open>api\<close> of \<open>Kube_Resources\<close>, with the cluster state \<open>'c\<close>. A panic
  (\<open>log.Panic\<close>) is the value \<open>Panic\<close>. A run of its loop, for any sequence of cases, is shown to
  be what the commands in it do to the cluster, one by one (\<open>command_effect\<close>).
\<close>

text \<open>
  \<open>kc_announced\<close> lists the port lists whose delivery on \<open>portChan\<close> has been started, one
  goroutine each. The fields \<open>activeNodes\<close> and \<open>activePorts\<close> of the source are never used.
\<close>

record 'c KubeClient =
  kc_cluster :: 'c
  kc_announced :: "goint list list"

definition POD_STATUS_HEALTHY :: string where "POD_STATUS_HEALTHY = ''Running''"
definition NODE_HEALTHY_KEY :: string where "NODE_HEALTHY_KEY = ''Ready''"
definition NODE_HEALTHY_VALUE :: string where "NODE_HEALTHY_VALUE = ''True''"

definition new_KubeClient :: "'c \<Rightarrow> 'c KubeClient" where
  "new_KubeClient cluster = \<lparr>kc_cluster = cluster, kc_announced = []\<rparr>"

text \<open>The configuration file gives access to a cluster, or the program stops.\<close>

definition InitKubeClient :: "string + 'c \<Rightarrow> 'c KubeClient checked" where
  "InitKubeClient conf = (case conf of Inl err \<Rightarrow> Panic | Inr cluster \<Rightarrow> Value (new_KubeClient cluster))"

section \<open>Queries\<close>

text \<open>Both slices are made with the length of the listing and then appended to.\<close>

definition getClusterNodePorts :: "('x, 'c) kube_api \<Rightarrow> 'c \<Rightarrow> goint list \<times> go_error" where
  "getClusterNodePorts api c =
     (case api_ListServices api c of
        Inl err \<Rightarrow> ([], Some err)
      | Inr items \<Rightarrow>
          (fold (\<lambda>svc svcPorts.
             if svc_Type svc = ''NodePort''
             then fold (\<lambda>port ps. ps @ [sint (sp_NodePort port)]) (svc_Ports svc) svcPorts
             else svcPorts) items (replicate (length items) 0), nil_error))"

definition getClusterNodeAddresses :: "('x, 'c) kube_api \<Rightarrow> 'c \<Rightarrow> string list \<times> go_error" where
  "getClusterNodeAddresses api c =
     (case api_ListNodes api c of
        Inl err \<Rightarrow> ([], Some err)
      | Inr items \<Rightarrow>
          (fold (\<lambda>node nodeAddrs.
             fold (\<lambda>(type, addr) as. if type = ''InternalIP'' then as @ [addr] else as)
               (node_Addresses node) nodeAddrs) items (replicate (length items) []), nil_error))"

definition checkPodStatus :: "('x, 'c) kube_api \<Rightarrow> 'c \<Rightarrow> bool" where
  "checkPodStatus api c =
     (case api_ListPods api c of
        Inl err \<Rightarrow> False
      | Inr items \<Rightarrow>
          fold (\<lambda>pod confirmedHealthy :: nat.
            if pod_Phase pod = POD_STATUS_HEALTHY then confirmedHealthy + 1 else confirmedHealthy) items 0
          = length items)"

text \<open>The inner loop breaks at the first condition that is \<open>Ready\<close> with value \<open>True\<close>.\<close>

definition checkNodeStatus :: "('x, 'c) kube_api \<Rightarrow> 'c \<Rightarrow> bool" where
  "checkNodeStatus api c =
     (case api_ListNodes api c of
        Inl err \<Rightarrow> False
      | Inr items \<Rightarrow>
          fold (\<lambda>node confirmedHealthy :: nat.
            if list_ex (\<lambda>(type, status). type = NODE_HEALTHY_KEY \<and> status = NODE_HEALTHY_VALUE)
                 (node_Conditions node)
            then confirmedHealthy + 1 else confirmedHealthy) items 0
          = length items)"

section \<open>Announcements and commands\<close>

definition announceClusterPorts :: "('x, 'c) kube_api \<Rightarrow> 'c KubeClient \<Rightarrow> 'c KubeClient checked" where
  "announceClusterPorts api k =
     (case getClusterNodePorts api (kc_cluster k) of (svcPorts, err) \<Rightarrow>
        if err \<noteq> nil_error then Panic
        else Value (k\<lparr>kc_announced := kc_announced k @ [svcPorts]\<rparr>))"

text \<open>One round of \<open>startAnnounceClusterNodes\<close>: what is sent on \<open>nodeChan\<close>.\<close>

definition announceClusterNodes :: "('x, 'c) kube_api \<Rightarrow> 'c \<Rightarrow> string list" where
  "announceClusterNodes api c =
     (case getClusterNodeAddresses api c of (nodes, err) \<Rightarrow> if err \<noteq> nil_error then [] else nodes)"

text \<open>The \<open>switch\<close> has no case for the two delete commands.\<close>

definition updateCluster :: "('x, 'c) kube_api \<Rightarrow> KubeCmd \<Rightarrow> 'c KubeClient \<Rightarrow> 'c KubeClient checked" where
  "updateCluster api update k =
     (if cmd_Type update = CREATE_SERVICE then
        (case CreateNodePort api (kc_cluster k) (cmd_ObjectService update) of (err, c) \<Rightarrow>
           let k' = k\<lparr>kc_cluster := c\<rparr>
           in if err \<noteq> nil_error then Value k' else announceClusterPorts api k')
      else if cmd_Type update = CREATE_DEPLOYMENT then
        (case CreateDeployment api (kc_cluster k) (cmd_ObjectDeployment update) of (err, c) \<Rightarrow>
           Value (k\<lparr>kc_cluster := c\<rparr>))
      else Value k)"

section \<open>Health checks\<close>

text \<open>
  The goroutine of \<open>startHealthChecks\<close>, given the cluster as it is in each round: the
  reports it makes. It returns after the first unhealthy one; \<open>abort\<close> is never sent.
\<close>

datatype health = Healthy | Unhealthy

fun startHealthChecks :: "('x, 'c) kube_api \<Rightarrow> 'c list \<Rightarrow> health list" where
  "startHealthChecks api [] = []"
| "startHealthChecks api (c # cs) =
     (let statPod = checkPodStatus api c; statNode = checkNodeStatus api c
      in if statNode \<and> statPod then Healthy # startHealthChecks api cs else [Unhealthy])"

section \<open>The loop of Start\<close>

text \<open>The cases of its \<open>select\<close>: an unhealthy report is logged and nothing more.\<close>

datatype kube_case = Case_unhealthy | Case_update KubeCmd | Case_tick

definition kube_select :: "('x, 'c) kube_api \<Rightarrow> kube_case \<Rightarrow> 'c KubeClient \<Rightarrow> 'c KubeClient checked" where
  "kube_select api i k =
     (case i of
        Case_unhealthy \<Rightarrow> Value k
      | Case_update update \<Rightarrow> updateCluster api update k
      | Case_tick \<Rightarrow> announceClusterPorts api k)"

fun kube_loop :: "('x, 'c) kube_api \<Rightarrow> kube_case list \<Rightarrow> 'c KubeClient \<Rightarrow> 'c KubeClient checked" where
  "kube_loop api [] k = Value k"
| "kube_loop api (i # is) k =
     (case kube_select api i k of Panic \<Rightarrow> Panic | Value k' \<Rightarrow> kube_loop api is k')"

definition kube_Start :: "('x, 'c) kube_api \<Rightarrow> kube_case list \<Rightarrow> 'c KubeClient \<Rightarrow> 'c KubeClient checked" where
  "kube_Start api is k =
     (case announceClusterPorts api k of Panic \<Rightarrow> Panic | Value k' \<Rightarrow> kube_loop api is k')"

section \<open>Lemmas\<close>

lemma fold_snoc_map: "fold (\<lambda>x ys. ys @ [f x]) xs acc = acc @ map f xs"
  by (induction xs arbitrary: acc) simp_all

lemma fold_snoc_filter:
  "fold (\<lambda>(a, b) ys. if P a then ys @ [b] else ys) xs acc = acc @ map snd (filter (P \<circ> fst) xs)"
  by (induction xs arbitrary: acc) auto

lemma fold_append_concat:
  "fold (\<lambda>x acc. if P x then acc @ f x else acc) xs acc = acc @ concat (map f (filter P xs))"
  by (induction xs arbitrary: acc) simp_all

lemma fold_count:
  "fold (\<lambda>x n :: nat. if P x then n + 1 else n) xs m = m + length (filter P xs)"
  by (induction xs arbitrary: m) simp_all

lemma count_all: "fold (\<lambda>x n :: nat. if P x then n + 1 else n) xs 0 = length xs \<longleftrightarrow> list_all P xs"
  unfolding fold_count by (simp add: list_all_iff) (metis filter_id_conv length_filter_less less_irrefl)

text \<open>The services whose ports the cluster exposes on its nodes.\<close>

definition node_ports :: "'x Service list \<Rightarrow> goint list" where
  "node_ports svcs = concat (map (\<lambda>svc. map (\<lambda>p. sint (sp_NodePort p)) (svc_Ports svc))
     (filter (\<lambda>svc. svc_Type svc = ''NodePort'') svcs))"

lemma getClusterNodePorts_items:
  "api_ListServices api c = Inr items \<Longrightarrow>
   getClusterNodePorts api c = (replicate (length items) 0 @ node_ports items, nil_error)"
  unfolding getClusterNodePorts_def node_ports_def
  using fold_append_concat [of "\<lambda>svc. svc_Type svc = ''NodePort''"
      "\<lambda>svc. map (\<lambda>p. sint (sp_NodePort p)) (svc_Ports svc)" items]
  by (simp add: fold_snoc_map cong: if_cong)

lemma kube_loop_append:
  "kube_loop api (xs @ ys) k =
     (case kube_loop api xs k of Panic \<Rightarrow> Panic | Value k' \<Rightarrow> kube_loop api ys k')"
  by (induction xs arbitrary: k) (auto split: checked.split)

section \<open>Properties\<close>

text \<open>
  What a run of the loop has to do, over the calls of the API server: the commands among the
  cases and what one of them does to the cluster; the cluster after a prefix of the cases;
  the clusters whose ports are announced: that of each tick, and the one after each
  successful creation of a service.
\<close>

definition updates :: "kube_case list \<Rightarrow> KubeCmd list" where
  "updates is = concat (map (\<lambda>i. case i of Case_update cmd \<Rightarrow> [cmd] | _ \<Rightarrow> []) is)"

definition command_effect :: "('x, 'c) kube_api \<Rightarrow> KubeCmd \<Rightarrow> 'c \<Rightarrow> 'c" where
  "command_effect api cmd c =
     (if cmd_Type cmd = CREATE_SERVICE
      then snd (api_CreateService api ''default'' (nodeportObject api (cmd_ObjectService cmd)) c)
      else if cmd_Type cmd = CREATE_DEPLOYMENT
      then snd (api_CreateDeployment api (api_NamespaceDefault api) (deploymentObject api (cmd_ObjectDeployment cmd)) c)
      else c)"

definition cluster_after :: "('x, 'c) kube_api \<Rightarrow> kube_case list \<Rightarrow> 'c \<Rightarrow> 'c" where
  "cluster_after api is c = fold (command_effect api) (updates is) c"

definition service_created :: "('x, 'c) kube_api \<Rightarrow> kube_case \<Rightarrow> 'c \<Rightarrow> bool" where
  "service_created api i c =
     (case i of
        Case_update cmd \<Rightarrow> cmd_Type cmd = CREATE_SERVICE \<and>
          fst (api_CreateService api ''default'' (nodeportObject api (cmd_ObjectService cmd)) c) = nil_error
      | _ \<Rightarrow> False)"

definition announced_clusters :: "('x, 'c) kube_api \<Rightarrow> kube_case list \<Rightarrow> 'c \<Rightarrow> 'c list" where
  "announced_clusters api is c =
     map (\<lambda>j. cluster_after api (take (Suc j) is) c)
       (filter (\<lambda>j. is ! j = Case_tick \<or> service_created api (is ! j) (cluster_after api (take j is) c))
         [0 ..< length is])"

definition lists_services :: "('x, 'c) kube_api \<Rightarrow> 'c \<Rightarrow> bool" where
  "lists_services api c = (case api_ListServices api c of Inl err \<Rightarrow> False | Inr items \<Rightarrow> True)"

definition listed_ports :: "('x, 'c) kube_api \<Rightarrow> 'c \<Rightarrow> goint list" where
  "listed_ports api c =
     (case api_ListServices api c of
        Inl err \<Rightarrow> [] | Inr items \<Rightarrow> replicate (length items) 0 @ node_ports items)"

lemma announceClusterPorts_eq:
  "announceClusterPorts api k =
     (if lists_services api (kc_cluster k)
      then Value (k\<lparr>kc_announced := kc_announced k @ [listed_ports api (kc_cluster k)]\<rparr>) else Panic)"
proof (cases "api_ListServices api (kc_cluster k)")
  case (Inl err)
  then show ?thesis by (simp add: announceClusterPorts_def lists_services_def getClusterNodePorts_def)
next
  case (Inr items)
  then show ?thesis
    by (simp add: announceClusterPorts_def lists_services_def listed_ports_def getClusterNodePorts_items)
qed

lemma cluster_after_snoc:
  "cluster_after api (is @ [i]) c =
     (case i of Case_update cmd \<Rightarrow> command_effect api cmd (cluster_after api is c) | _ \<Rightarrow> cluster_after api is c)"
  by (cases i) (simp_all add: cluster_after_def updates_def)

lemma announced_snoc:
  "announced_clusters api (is @ [i]) c = announced_clusters api is c @
     (if i = Case_tick \<or> service_created api i (cluster_after api is c)
      then [cluster_after api (is @ [i]) c] else [])"
proof -
  have "filter (\<lambda>j. (is @ [i]) ! j = Case_tick \<or>
      service_created api ((is @ [i]) ! j) (cluster_after api (take j (is @ [i])) c)) [0 ..< length is] =
    filter (\<lambda>j. is ! j = Case_tick \<or> service_created api (is ! j) (cluster_after api (take j is) c))
      [0 ..< length is]"
    by (rule filter_cong) (simp_all add: nth_append)
  moreover have "map (\<lambda>j. cluster_after api (take (Suc j) (is @ [i])) c) (filter P [0 ..< length is]) =
      map (\<lambda>j. cluster_after api (take (Suc j) is) c) (filter P [0 ..< length is])" for P
    by (rule map_cong) auto
  ultimately show ?thesis by (simp add: announced_clusters_def nth_append)
qed

lemma kube_select_eq:
  "kube_select api i k =
     (let c = (case i of Case_update cmd \<Rightarrow> command_effect api cmd (kc_cluster k) | _ \<Rightarrow> kc_cluster k)
      in if i = Case_tick \<or> service_created api i (kc_cluster k)
         then announceClusterPorts api (k\<lparr>kc_cluster := c\<rparr>) else Value (k\<lparr>kc_cluster := c\<rparr>))"
  by (cases i) (auto simp: kube_select_def updateCluster_def command_effect_def service_created_def
      CreateNodePort_def CreateDeployment_def Let_def case_prod_beta)

lemma kube_loop_eq:
  "kube_loop api is k =
     (if list_all (lists_services api) (announced_clusters api is (kc_cluster k))
      then Value \<lparr>kc_cluster = cluster_after api is (kc_cluster k),
        kc_announced = kc_announced k @ map (listed_ports api) (announced_clusters api is (kc_cluster k))\<rparr>
      else Panic)"
proof (induction "is" rule: rev_induct)
  case Nil
  then show ?case by (simp add: announced_clusters_def cluster_after_def updates_def)
next
  case (snoc i "is")
  have "kube_loop api [i] k' = kube_select api i k'" for k' by (simp split: checked.split)
  then show ?case
    by (cases i) (simp_all add: kube_loop_append snoc kube_select_eq announceClusterPorts_eq Let_def
        announced_snoc cluster_after_snoc service_created_def)
qed

text \<open>A small API server: the services and deployments created so far, names used once.\<close>

definition toy_api :: "(goint, goint Service list \<times> Deployment list) kube_api" where
  "toy_api =
     \<lparr>api_FromInt = id, api_ServiceTypeNodePort = ''NodePort'', api_ProtocolTCP = ''TCP'',
      api_NamespaceDefault = ''default'',
      api_CreateService = (\<lambda>ns svc (svcs, dpls).
        if svc_Name svc \<in> set (map svc_Name svcs) then (Some ''exists'', svcs, dpls)
        else (nil_error, svcs @ [svc], dpls)),
      api_CreateDeployment = (\<lambda>ns d (svcs, dpls). (nil_error, svcs, dpls @ [d])),
      api_ListServices = (\<lambda>(svcs, dpls). Inr svcs),
      api_ListNodes = (\<lambda>c. Inr [\<lparr>node_Addresses = [(''InternalIP'', ''10.0.0.1'')],
        node_Conditions = [(''Ready'', ''True'')]\<rparr>]),
      api_ListPods = (\<lambda>(svcs, dpls). if dpls = [] then Inr [] else Inr [\<lparr>pod_Phase = ''Pending''\<rparr>])\<rparr>"

definition demo_service :: KubeCmd where
  "demo_service = KubeCmd0\<lparr>cmd_Type := CREATE_SERVICE,
     cmd_ObjectService := snd (CreateNodePortObject ''s'' [] 80 80 30010 ''app'' ''x'')\<rparr>"

text \<open>C32:
  whatever reports of the health monitor, ticks and commands the client gets, in any order: it
  stops exactly when an announcement is due and the services cannot be listed. Otherwise the
  cluster is the result of carrying out the commands one by one in their order, each once, a
  failed creation not stopping those behind it; and one port list, of the services as they are
  at that moment, is announced at the start, at each tick and after each successful creation.
\<close>
theorem cluster_replays_commands:
  "kube_Start api is k =
     (let c = kc_cluster k; announced = c # announced_clusters api is c
      in if list_all (lists_services api) announced
         then Value \<lparr>kc_cluster = fold (command_effect api) (updates is) c,
                kc_announced = kc_announced k @ map (listed_ports api) announced\<rparr>
         else Panic)"
  by (simp add: kube_Start_def announceClusterPorts_eq kube_loop_eq Let_def cluster_after_def)

theorem cluster_replays_commands_witness:
  "let is = [Case_unhealthy, Case_update demo_service, Case_tick, Case_update demo_service, Case_unhealthy];
       r = kube_Start toy_api is (new_KubeClient ([], []))
   in \<exists>k'. r = Value k' \<and> length (fst (kc_cluster k')) = 1 \<and> kc_announced k' = [[], [0, 30010], [0, 30010]]"
proof -
  let ?is = "[Case_unhealthy, Case_update demo_service, Case_tick, Case_update demo_service, Case_unhealthy]"
  let ?c = "([], []) :: goint Service list \<times> Deployment list"
  have "list_all (lists_services toy_api) (?c # announced_clusters toy_api ?is ?c)" by code_simp
  moreover have "length (fst (fold (command_effect toy_api) (updates ?is) ?c)) = 1" by code_simp
  moreover have "map (listed_ports toy_api) (?c # announced_clusters toy_api ?is ?c) = [[], [0, 30010], [0, 30010]]"
    by code_simp
  ultimately show ?thesis
    using cluster_replays_commands [of toy_api ?is "new_KubeClient ?c"] by (simp add: new_KubeClient_def Let_def)
qed

text \<open>
  A service that a committed command creates is announced to the proxy: with an API server
  that lists what it created and calls the type of such a service by its documented name,
  the port list sent after a successful creation holds the requested node port.
\<close>
theorem created_service_announced:
  assumes "api_ServiceTypeNodePort api = ''NodePort''"
    and "\<And>ns svc c c'. api_CreateService api ns svc c = (nil_error, c') \<Longrightarrow>
           \<exists>items. api_ListServices api c' = Inr items \<and> svc \<in> set items"
    and "cmd_Type update = CREATE_SERVICE"
    and "fst (CreateNodePort api (kc_cluster k) (cmd_ObjectService update)) = nil_error"
  shows "\<exists>k' ports. updateCluster api update k = Value k' \<and>
    kc_announced k' = kc_announced k @ [ports] \<and>
    sint (port_NodePort (np_Port (cmd_ObjectService update))) \<in> set ports"
proof -
  let ?svc = "nodeportObject api (cmd_ObjectService update)"
  obtain c' where c': "CreateNodePort api (kc_cluster k) (cmd_ObjectService update) = (nil_error, c')"
    using assms(4) by (metis prod.collapse)
  then obtain items where items: "api_ListServices api c' = Inr items" "?svc \<in> set items"
    using assms(2) [OF c' [unfolded CreateNodePort_def]] by blast
  have "sint (port_NodePort (np_Port (cmd_ObjectService update))) \<in> set (node_ports items)"
    using items(2) assms(1) by (force simp: node_ports_def nodeportObject_def)
  with c' items assms(3) show ?thesis
    by (simp add: updateCluster_def announceClusterPorts_def getClusterNodePorts_items Let_def)
qed

theorem created_service_announced_witness:
  "\<exists>k' ports. updateCluster toy_api demo_service (new_KubeClient ([], [])) = Value k' \<and>
     kc_announced k' = [ports] \<and> 30010 \<in> set ports"
proof -
  have h: "api_ServiceTypeNodePort toy_api = ''NodePort''"
    "\<And>ns svc c c'. api_CreateService toy_api ns svc c = (nil_error, c') \<Longrightarrow>
       \<exists>items. api_ListServices toy_api c' = Inr items \<and> svc \<in> set items"
    "cmd_Type demo_service = CREATE_SERVICE"
    "fst (CreateNodePort toy_api (kc_cluster (new_KubeClient ([], []))) (cmd_ObjectService demo_service)) = nil_error"
    subgoal by (simp add: toy_api_def)
    subgoal for ns svc c c' by (cases c) (auto simp: toy_api_def split: if_splits)
    subgoal by code_simp
    subgoal by code_simp
    done
  have p: "sint (port_NodePort (np_Port (cmd_ObjectService demo_service))) = 30010" by code_simp
  show ?thesis
    using created_service_announced [OF h(1) _ h(3,4)] h(2) by (simp add: new_KubeClient_def p)
qed

text \<open>C33:
  a round is healthy exactly when every pod is running and every node has a condition
  \<open>Ready\<close> with value \<open>True\<close> (and both listings work); the monitor reports round by round and
  ends for good with the first unhealthy one: a recovery is never noticed.
\<close>
theorem health_monitor_stops:
  "let ok = (\<lambda>c. (\<exists>pods. api_ListPods api c = Inr pods \<and> (\<forall>p \<in> set pods. pod_Phase p = ''Running'')) \<and>
        (\<exists>nodes. api_ListNodes api c = Inr nodes \<and>
           (\<forall>n \<in> set nodes. (''Ready'', ''True'') \<in> set (node_Conditions n))))
   in startHealthChecks api cs =
        map (\<lambda>_. Healthy) (takeWhile ok cs) @ (if takeWhile ok cs = cs then [] else [Unhealthy])"
proof -
  have pods: "checkPodStatus api c \<longleftrightarrow>
      (\<exists>pods. api_ListPods api c = Inr pods \<and> (\<forall>p \<in> set pods. pod_Phase p = ''Running''))" for c
    by (cases "api_ListPods api c")
      (simp_all add: checkPodStatus_def POD_STATUS_HEALTHY_def count_all list_all_iff)
  have nodes: "checkNodeStatus api c \<longleftrightarrow>
      (\<exists>nodes. api_ListNodes api c = Inr nodes \<and>
         (\<forall>n \<in> set nodes. (''Ready'', ''True'') \<in> set (node_Conditions n)))" for c
    by (cases "api_ListNodes api c")
      (force simp: checkNodeStatus_def NODE_HEALTHY_KEY_def NODE_HEALTHY_VALUE_def count_all list_all_iff
        list_ex_iff)+
  show ?thesis
    by (induction cs) (auto simp: Let_def pods nodes)
qed

theorem health_monitor_stops_witness:
  "\<forall>d. startHealthChecks toy_api [([], []), ([], [d]), ([], [])] = [Healthy, Unhealthy]"
proof
  fix d
  show "startHealthChecks toy_api [([], []), ([], [d]), ([], [])] = [Healthy, Unhealthy]"
    using health_monitor_stops [of toy_api "[([], []), ([], [d]), ([], [])]"]
    by (simp add: toy_api_def Let_def)
qed

text \<open>
  A committed delete command does nothing: whatever delete commands are delivered, in any
  number, the cluster and the announcements stay as they are.
\<close>
theorem delete_commands_ignored:
  assumes "\<forall>cmd \<in> set cmds. cmd_Type cmd = DELETE_SERVICE \<or> cmd_Type cmd = DELETE_DEPLOYMENT"
  shows "kube_loop api (map Case_update cmds) k = Value k"
  using assms by (induction cmds) (auto simp: kube_select_def updateCluster_def)

theorem delete_commands_ignored_witness:
  "kube_loop toy_api (map Case_update [demo_service\<lparr>cmd_Type := DELETE_SERVICE\<rparr>])
     (new_KubeClient ([nodeportObject toy_api (cmd_ObjectService demo_service)], [])) =
   Value (new_KubeClient ([nodeportObject toy_api (cmd_ObjectService demo_service)], []))"
proof -
  have "\<forall>cmd \<in> set [demo_service\<lparr>cmd_Type := DELETE_SERVICE\<rparr>].
      cmd_Type cmd = DELETE_SERVICE \<or> cmd_Type cmd = DELETE_DEPLOYMENT"
    by simp
  then show ?thesis by (rule delete_commands_ignored)
qed

end
