(* ===== verification/Proxy_Node.thy ===== *)
theory Proxy_Node
  imports Proxy Raft_Membership
begin

text \<open>
  The proxy as a whole: the ports it listens on, what holds in every interleaving of its
  goroutines (the contract \<open>goroutine_pool\<close> once more), and two interleavings that go wrong.
\<close>

section \<open>The listeners\<close>

lemma exist_iff: "exist a b \<longleftrightarrow> a \<in> set b"
  by (induction b) auto

text \<open>The ports that are announced and not yet listened on.\<close>

definition new_ports :: "goint list \<Rightarrow> Proxy \<Rightarrow> goint list" where
  "new_ports prts p = filter (\<lambda>q. map_get (px_activeClusterPorts p) q = None)
     (map (\<lambda>port. add64 port 100) (filter (\<lambda>port. port \<noteq> 0) prts))"

lemma exec_startListeners:
  "length (new_ports prts p) \<le> length ins \<Longrightarrow>
   exec px_env (startListeners prts k) ins p =
     foldr emit (map Px_Go (new_ports prts p)) (exec px_env k (drop (length (new_ports prts p)) ins) p)"
proof (induction prts arbitrary: ins)
  case Nil
  then show ?case by (simp add: new_ports_def)
next
  case (Cons port prts)
  show ?case
  proof (cases "port \<noteq> 0 \<and> map_get (px_activeClusterPorts p) (add64 port 100) = None")
    case True
    then have n: "new_ports (port # prts) p = add64 port 100 # new_ports prts p"
      by (simp add: new_ports_def)
    with Cons.prems obtain i rest where "ins = i # rest" "length (new_ports prts p) \<le> length rest"
      by (cases ins) auto
    with True n show ?thesis
      by (simp add: exec_simps Let_def LOCAL_DEV_PORT_PROXY_SHIFT_def Cons.IH)
  next
    case False
    then have "new_ports (port # prts) p = new_ports prts p" by (auto simp: new_ports_def)
    with False Cons show ?thesis
      by (auto simp: exec_simps Let_def LOCAL_DEV_PORT_PROXY_SHIFT_def)
  qed
qed

lemma dropPort_other:
  "add64 x 100 \<noteq> q \<Longrightarrow> map_get (px_activeClusterPorts (dropPort prts x p)) q = map_get (px_activeClusterPorts p) q"
  by (auto simp: dropPort_def LOCAL_DEV_PORT_PROXY_SHIFT_def split: option.splits)

lemma dropPort_None: "map_get (px_activeClusterPorts p) x = None \<Longrightarrow> dropPort prts x p = p"
  by (simp add: dropPort_def)

lemma dropPort_shrinks:
  "map_get (px_activeClusterPorts (dropPort prts x p)) k \<noteq> None \<Longrightarrow> map_get (px_activeClusterPorts p) k \<noteq> None"
  "set (px_bound (dropPort prts x p)) \<subseteq> set (px_bound p)"
  by (auto simp: dropPort_def split: option.splits if_splits)

text \<open>No listener is exactly one shift below \<open>q\<close>: nothing else deletes the entry of \<open>q\<close>.\<close>

definition alone :: "goint \<Rightarrow> Proxy \<Rightarrow> bool" where
  "alone q p \<longleftrightarrow> (\<forall>k \<in> set (map_keys (px_activeClusterPorts p)). add64 k 100 \<noteq> q)"

lemma dropPort_alone:
  assumes "alone q p"
  shows "alone q (dropPort prts x p) \<and>
    map_get (px_activeClusterPorts (dropPort prts x p)) q = map_get (px_activeClusterPorts p) q"
proof -
  have "add64 x 100 \<noteq> q" if "map_get (px_activeClusterPorts p) x \<noteq> None"
    using assms that by (auto simp: alone_def dest: map_get_Some_key)
  moreover have "alone q (dropPort prts x p)"
    using assms dropPort_shrinks(1) [of prts x p] unfolding alone_def by (metis map_get_None_iff)
  ultimately show ?thesis
    using dropPort_other [of x q prts p] dropPort_None [of p x prts] by metis
qed

lemma dropListeners_alone:
  "alone q p \<Longrightarrow>
   map_get (px_activeClusterPorts (dropListeners prts ks p)) q = map_get (px_activeClusterPorts p) q"
  unfolding dropListeners_def by (induction ks arbitrary: p) (simp_all add: dropPort_alone)

lemma dropListeners_bound: "set (px_bound (dropListeners prts ks p)) \<subseteq> set (px_bound p)"
  unfolding dropListeners_def
  by (induction ks arbitrary: p) (use dropPort_shrinks(2) in \<open>force+\<close>)

lemma dropListeners_closes:
  assumes "alone q p" and "map_get (px_activeClusterPorts p) q = Some q" and "q \<in> set ks"
    and "sub64 q 100 \<notin> set prts"
  shows "q \<notin> set (px_bound (dropListeners prts ks p))"
  using assms(1-3)
proof (induction ks arbitrary: p)
  case Nil
  then show ?case by simp
next
  case (Cons x ks)
  show ?case
  proof (cases "x = q")
    case True
    then have "q \<notin> set (px_bound (dropPort prts x p))"
      using Cons.prems(2) assms(4) by (simp add: dropPort_def exist_iff LOCAL_DEV_PORT_PROXY_SHIFT_def)
    then show ?thesis
      using dropListeners_bound [of prts ks "dropPort prts x p"] by (auto simp: dropListeners_def)
  next
    case False
    with Cons show ?thesis by (simp add: dropPort_alone dropListeners_def)
  qed
qed

lemma list_all_delete: "list_all P m \<Longrightarrow> list_all P (map_delete k m)"
  by (auto simp: list_all_iff map_delete_def AList.delete_eq)

text \<open>A round of the main loop that gets the port list \<open>prts\<close>: which listeners it starts, which it leaves alone.\<close>

lemma round_starts:
  assumes "pi_select sel = Inl prts" and "length prts \<le> length ins" and "q \<in> set (new_ports prts p)"
  shows "Px_Go q \<in> set (fst (snd (exec px_env (proxy_code L_proxyStart) (sel # ins) p)))"
proof -
  have "length (new_ports prts p) \<le> length prts"
    unfolding new_ports_def by (metis length_filter_le length_map order_trans)
  with assms show ?thesis
    by (simp add: proxyStart_def checkNewPorts_def exec_startListeners foldr_emit)
qed

lemma exec_startListeners_state:
  "\<exists>ins'. fst (exec px_env (startListeners prts k) ins p) \<in> {p, fst (exec px_env k ins' p)}"
proof (induction prts arbitrary: ins)
  case Nil
  then show ?case by auto
next
  case (Cons port prts)
  then show ?case by (cases ins) (auto simp: exec_simps Let_def)
qed

lemma dropPort_keeps:
  assumes "sub64 q 100 \<in> set prts" and "q \<in> set (px_bound p)"
    and "list_all (\<lambda>(x, ss). ss = x) (px_activeClusterPorts p)"
  shows "q \<in> set (px_bound (dropPort prts x p)) \<and>
    list_all (\<lambda>(x, ss). ss = x) (px_activeClusterPorts (dropPort prts x p))"
  using assms list_all_get [of "\<lambda>q ss. ss = q" "px_activeClusterPorts p" x]
  by (auto simp: dropPort_def exist_iff LOCAL_DEV_PORT_PROXY_SHIFT_def list_all_delete split: option.split)

lemma round_keeps_listener:
  assumes "sub64 q 100 \<in> set prts" and "q \<in> set (px_bound p)"
    and "list_all (\<lambda>(x, ss). ss = x) (px_activeClusterPorts p)" and "pi_select sel = Inl prts"
  shows "q \<in> set (px_bound (fst (exec px_env (proxy_code L_proxyStart) (sel # ins) p)))"
proof -
  have drop: "q \<in> set (px_bound (dropListeners prts ks p))" for ks
    using assms(2,3) unfolding dropListeners_def
    by (induction ks arbitrary: p) (simp_all add: dropPort_keeps [OF assms(1)])
  have "q \<in> set (px_bound (fst (exec px_env (Io Px_Visit (\<lambda>i. px_write (dropListeners prts (pi_order i)) k)) ins' p)))"
    if "\<And>ins p. fst (exec px_env k ins p) = p" for k ins'
    using assms(2) drop that by (cases ins') (simp_all add: exec_simps)
  then show ?thesis
    using exec_startListeners_state [of prts "Io Px_Visit (\<lambda>i. px_write (dropListeners prts (pi_order i)) (Goto L_proxyStart))" ins p]
      assms(2,4) by (auto simp: proxyStart_def checkNewPorts_def)
qed

lemma listenPort_opens:
  assumes "bind_ok q i p"
  shows "exec px_env (listenPort q) (i # ins) p =
    (p\<lparr>px_activeClusterPorts := map_set q q (px_activeClusterPorts p), px_bound := q # px_bound p\<rparr>,
     [Px_Listen q], Jumped (L_accept q))"
  using assms by (simp add: listenPort_def)

section \<open>Properties of the listeners\<close>

definition demo_listening :: "goint list \<Rightarrow> Proxy" where
  "demo_listening qs = (InitProxy ''a'' 9997)\<lparr>px_activeClusterPorts := map (\<lambda>q. (q, q)) qs, px_bound := qs\<rparr>"

text \<open>
  A new list of ports starts one listener for each announced, non-zero port (shifted by 100)
  that is not listened on yet, none for the others, and then drops the listeners of the ports
  that are not announced any more.
\<close>
theorem announced_ports_opened:
  assumes "length ins = length (new_ports prts p)"
    and "range_order (px_activeClusterPorts p) (pi_order v)"
  shows "exec px_env (checkNewPorts prts (Goto L_proxyStart)) (ins @ [v]) p =
    (dropListeners prts (pi_order v) p, map Px_Go (new_ports prts p) @ [Px_Visit], Jumped L_proxyStart) \<and>
    set (new_ports prts p) = {add64 port 100 | port. port \<in> set prts \<and> port \<noteq> 0 \<and>
      map_get (px_activeClusterPorts p) (add64 port 100) = None}"
proof
  show "exec px_env (checkNewPorts prts (Goto L_proxyStart)) (ins @ [v]) p =
    (dropListeners prts (pi_order v) p, map Px_Go (new_ports prts p) @ [Px_Visit], Jumped L_proxyStart)"
    using assms by (simp add: checkNewPorts_def exec_startListeners foldr_emit exec_simps)
qed (auto simp: new_ports_def)

theorem announced_ports_opened_witness:
  "fst (snd (exec px_env (checkNewPorts [0, 30010, 30020] (Goto L_proxyStart))
     [px_input0, px_input0\<lparr>pi_order := [30120]\<rparr>] (demo_listening [30120]))) = [Px_Go 30110, Px_Visit]"
proof -
  have h: "length [px_input0] = length (new_ports [0, 30010, 30020] (demo_listening [30120]))"
    "range_order (px_activeClusterPorts (demo_listening [30120])) (pi_order (px_input0\<lparr>pi_order := [30120]\<rparr>))"
    by code_simp+
  have "new_ports [0, 30010, 30020] (demo_listening [30120]) = [30110]" by code_simp
  with announced_ports_opened [OF h] show ?thesis by simp
qed

text \<open>C36:
  a service that disappears and comes back is not served again: when its port \<open>q - 100\<close> is
  no longer announced the listener at \<open>q\<close> is closed, but its entry stays in the map (the code
  deletes the key \<open>q + 100\<close> instead), so that a later announcement starts no listener for it.
\<close>
theorem removed_port_stays_dead:
  assumes "map_get (px_activeClusterPorts p) q = Some q" and "alone q p"
    and "range_order (px_activeClusterPorts p) ks" and "sub64 q 100 \<notin> set prts"
  shows "let p' = dropListeners prts ks p
    in q \<notin> set (px_bound p') \<and> map_get (px_activeClusterPorts p') q = Some q \<and>
       q \<notin> set (new_ports prts' p')"
proof -
  have "q \<in> set ks" using assms(1,3) map_get_Some_key by (auto simp: range_order_def)
  then show ?thesis
    using dropListeners_alone [OF assms(2), of prts ks] dropListeners_closes [OF assms(2,1) _ assms(4)] assms(1)
    by (auto simp: Let_def new_ports_def)
qed

theorem removed_port_stays_dead_witness:
  "30110 \<notin> set (new_ports [30010] (dropListeners [] [30110] (demo_listening [30110]))) \<and>
   30110 \<notin> set (px_bound (dropListeners [] [30110] (demo_listening [30110])))"
proof -
  have h: "map_get (px_activeClusterPorts (demo_listening [30110])) 30110 = Some 30110"
    "alone 30110 (demo_listening [30110])"
    "range_order (px_activeClusterPorts (demo_listening [30110])) [30110]" "sub64 30110 100 \<notin> set []"
    by code_simp+
  from removed_port_stays_dead [OF h] show ?thesis by (simp add: Let_def)
qed

section \<open>Every interleaving\<close>

text \<open>
  The peer list keeps its length and its elements come from the start list; a listener is
  stored under its own port.
\<close>

definition px_inv :: "nat \<Rightarrow> string set \<Rightarrow> Proxy \<Rightarrow> bool" where
  "px_inv len S p \<longleftrightarrow> length (px_peerNodes p) = len \<and> set (px_peerNodes p) \<subseteq> S \<and>
     map_ok (px_activeClusterPorts p) \<and> list_all (\<lambda>(q, ss). ss = q) (px_activeClusterPorts p)"

definition px_guar :: "Proxy \<Rightarrow> Proxy \<Rightarrow> bool" where
  "px_guar p p' \<longleftrightarrow> px_port p' = px_port p \<and> px_addr p' = px_addr p"

fun px_event_ok :: "string set \<Rightarrow> px_event \<Rightarrow> bool" where
  "px_event_ok S (Px_Peer peer port packet) = (peer \<in> insert [] S)"
| "px_event_ok S (Px_Cluster node port packet) = (node \<noteq> [])"
| "px_event_ok S e = True"

abbreviation px_keeps :: "nat \<Rightarrow> string set \<Rightarrow> pproc \<Rightarrow> bool" where
  "px_keeps len S \<equiv> keeps px_env (px_inv len S) px_guar (px_event_ok S)"

lemma px_guar_refl: "px_guar p p"
  by (simp add: px_guar_def)

lemma px_guar_trans: "px_guar p q \<Longrightarrow> px_guar q r \<Longrightarrow> px_guar p r"
  by (simp add: px_guar_def)

lemma px_keeps_read: "(\<And>p. px_inv len S p \<Longrightarrow> px_keeps len S (k (f p))) \<Longrightarrow> px_keeps len S (px_read f k)"
  by (simp add: px_read_def px_guar_refl)

lemma px_keeps_write:
  "(\<And>p. px_inv len S p \<Longrightarrow> px_inv len S (u p)) \<Longrightarrow> (\<And>p. px_guar p (u p)) \<Longrightarrow> px_keeps len S k \<Longrightarrow>
   px_keeps len S (px_write u k)"
  by (simp add: px_write_def)

lemma px_keeps_shuffle:
  "n + rounds \<le> len \<Longrightarrow> px_keeps len S k \<Longrightarrow> px_keeps len S (shufflePeers n rounds k)"
proof (induction rounds arbitrary: n)
  case 0
  then show ?case by simp
next
  case (Suc rounds)
  have rest: "px_keeps len S (shufflePeers (n + 1) rounds k)" using Suc by simp
  have "px_keeps len S (px_write (\<lambda>p. p\<lparr>px_peerNodes := (px_peerNodes p)[j := a]\<rparr>) q)"
    if "a \<in> S" "px_keeps len S q" for a j q
    using that
    by (intro px_keeps_write)
      (auto simp: px_inv_def px_guar_def dest!: set_update_subset_insert [THEN subsetD])
  then have "px_keeps len S (px_write (\<lambda>p. p\<lparr>px_peerNodes := (px_peerNodes p)[n := a]\<rparr>)
      (px_write (\<lambda>p. p\<lparr>px_peerNodes := (px_peerNodes p)[i := b]\<rparr>) (shufflePeers (n + 1) rounds k)))"
    if "a \<in> S" "b \<in> S" for a b i
    using that rest by blast
  moreover have "px_peerNodes p ! i \<in> S" if "px_inv len S p" "i < len" for p i
    using that by (auto simp: px_inv_def)
  ultimately show ?case
    using Suc.prems(1)
    by (auto simp: Let_def intro!: px_keeps_read split: prod.split)
qed

lemma filter_first: "filter P xs = x # ys \<Longrightarrow> x \<in> set xs \<and> P x"
  by (auto dest: filter_eq_ConsD)

lemma px_keeps_random_peer:
  assumes "\<And>peer. peer \<in> insert [] S \<Longrightarrow> px_keeps len S (k peer)"
  shows "px_keeps len S (getRandomPeerAddr k)"
proof -
  have "px_keeps len S (case filter (\<lambda>peer. peer \<noteq> []) peers of [] \<Rightarrow> k [] | peer # _ \<Rightarrow> k peer)"
    if "set peers \<subseteq> S" for peers
  proof (cases "filter (\<lambda>peer. peer \<noteq> []) peers")
    case (Cons peer rest)
    then have "peer \<in> S" using that filter_first by fastforce
    with Cons assms show ?thesis by simp
  qed (simp add: assms)
  then show ?thesis
    unfolding getRandomPeerAddr_def
    by (intro px_keeps_read px_keeps_shuffle) (auto simp: px_inv_def intro!: px_keeps_read)
qed

lemma px_keeps_forward:
  assumes "\<And>r. px_keeps len S (k r)"
  shows "px_keeps len S (forwardToCluster packet port k)"
proof -
  have "px_keeps len S (case filter (\<lambda>node. node \<noteq> []) nodes of [] \<Rightarrow> k f
      | node # _ \<Rightarrow> Io (Px_Cluster node port' packet) (\<lambda>j. case pi_cluster j of
          Cl_failure \<Rightarrow> k f | Cl_timeout \<Rightarrow> k f | Cl_answer resp \<Rightarrow> k (nil_error, resp)))"
    for nodes f port'
  proof (cases "filter (\<lambda>node. node \<noteq> []) nodes")
    case (Cons node rest)
    then have "node \<noteq> []" using filter_first by fastforce
    with Cons assms show ?thesis by (auto split: px_cluster.split)
  qed (simp add: assms)
  then show ?thesis
    unfolding forwardToCluster_def Let_def by (auto intro!: px_keeps_read)
qed

lemma px_keeps_proxyRequest:
  "(\<And>r. px_keeps len S (k r)) \<Longrightarrow> px_keeps len S (proxyRequest enc dec data port k)"
  unfolding proxyRequest_def
  by (intro px_keeps_random_peer px_keeps_read) (auto split: px_peer.split prod.split)

lemma px_keeps_servers:
  "px_keeps len S (serveClient enc dec port)" "px_keeps len S (servePeer enc dec)"
  unfolding serveClient_def servePeer_def Let_def
  by (auto split: sum.split prod.split intro!: px_keeps_forward px_keeps_proxyRequest)

lemma px_inv_drop: "px_inv len S p \<Longrightarrow> px_inv len S (dropListeners prts ks p)"
proof -
  have "px_inv len S (dropPort prts x p)" if "px_inv len S p" for x p
    using that by (auto simp: px_inv_def dropPort_def list_all_delete split: option.split)
  then show "px_inv len S p \<Longrightarrow> px_inv len S (dropListeners prts ks p)"
    unfolding dropListeners_def by (induction ks arbitrary: p) simp_all
qed

lemma px_guar_drop: "px_guar p (dropListeners prts ks p)"
proof -
  have "px_guar p (dropPort prts x p)" for x p
    by (auto simp: px_guar_def dropPort_def split: option.split)
  then show ?thesis
    unfolding dropListeners_def
    by (induction ks arbitrary: p) (auto intro: px_guar_refl px_guar_trans)
qed

lemma px_keeps_check: "px_keeps len S k \<Longrightarrow> px_keeps len S (checkNewPorts prts k)"
proof -
  have start: "px_keeps len S q \<Longrightarrow> px_keeps len S (startListeners prts q)" for q
    by (induction prts) (auto simp: Let_def intro!: px_keeps_read)
  show "px_keeps len S k \<Longrightarrow> px_keeps len S (checkNewPorts prts k)"
    unfolding checkNewPorts_def
    by (auto intro!: start px_keeps_write px_inv_drop px_guar_drop)
qed

lemma px_keeps_listen: "px_keeps len S (listenPort port)" "px_keeps len S listenProxies"
  unfolding listenPort_def listenProxies_def
  by (auto simp: px_inv_def px_guar_def list_all_map_set intro!: px_keeps_read)

lemma px_keeps_code: "px_keeps len S (proxy_code l)"
proof (cases l)
  case L_proxyStart
  have "px_inv len S p \<Longrightarrow> px_inv len S (proxy_setNodes nodes p)" "px_guar p (proxy_setNodes nodes p)" for nodes p
    by (simp_all add: px_inv_def px_guar_def proxy_setNodes_def)
  with L_proxyStart show ?thesis
    by (auto simp: proxyStart_def intro!: px_keeps_check px_keeps_write split: sum.split)
qed (auto simp: acceptClient_def acceptPeer_def split: px_accept.split)

lemma px_keeps_starts: "proxy_starts enc dec q \<Longrightarrow> px_keeps len S q"
  by (induction rule: proxy_starts.induct) (simp_all add: px_keeps_listen px_keeps_servers)

interpretation proxy: goroutine_pool proxy_code "proxy_starts enc dec" px_env "px_inv len S" px_guar "px_event_ok S"
  for enc dec len S
  by unfold_locales (auto intro: px_keeps_code px_keeps_starts px_guar_refl px_guar_trans)

abbreviation proxy_steps where
  "proxy_steps enc dec \<equiv> node_steps proxy_code px_env (proxy_starts enc dec)"

lemma peers_addPeers: "px_peerNodes (proxy_addPeers peers p) = px_peerNodes p @ peers"
  unfolding proxy_addPeers_def by (induction peers arbitrary: p) simp_all

lemma addPeers_fields:
  "px_activeClusterPorts (proxy_addPeers peers p) = px_activeClusterPorts p"
  "px_port (proxy_addPeers peers p) = px_port p" "px_addr (proxy_addPeers peers p) = px_addr p"
  unfolding proxy_addPeers_def by (induction peers arbitrary: p) simp_all

lemma proxy_init_keeps:
  "pool_keeps px_env (px_inv (length peers) (set peers)) px_guar (px_event_ok (set peers)) (proxy_init ip port peers)"
  by (simp add: pool_keeps_def proxy_init_def px_keeps_listen px_inv_def peers_addPeers addPeers_fields InitProxy_def)

section \<open>Properties of every interleaving\<close>

definition no_enc :: pp_enc where
  "no_enc pp = Inl []"

definition no_dec :: pp_dec where
  "no_dec bs = (ProxyPacket0, Some [])"

definition px_at_end :: "(Proxy, px_event, px_input, px_label) action list
    \<Rightarrow> (Proxy, px_event, px_input, px_label) node" where
  "px_at_end sched = the (node_run proxy_code px_env sched (proxy_init ''a'' 9997 [''b'', ''c'']))"

text \<open>A client's request up to the second round of the peer shuffle.\<close>

definition sched_to_shuffle :: "nat \<Rightarrow> (Proxy, px_event, px_input, px_label) action list" where
  "sched_to_shuffle j = [Answer j px_input0, Step j, Answer j px_input0, Step j,
     Answer j (px_input0\<lparr>pi_rand := [0]\<rparr>), Step j, Step j, Step j, Step j]"

definition sched_lost :: "(Proxy, px_event, px_input, px_label) action list" where
  "sched_lost = [Start (serveClient no_enc no_dec 130), Start (serveClient no_enc no_dec 130)] @
     sched_to_shuffle 2 @ sched_to_shuffle 3 @
     [Answer 2 (px_input0\<lparr>pi_rand := [1]\<rparr>), Step 2, Step 2,
      Answer 3 (px_input0\<lparr>pi_rand := [0]\<rparr>), Step 3, Step 3, Step 3, Step 3, Step 2, Step 2]"

lemma px_lost_reach:
  "proxy_steps no_enc no_dec (proxy_init ''a'' 9997 [''b'', ''c''])
     (fst (px_at_end sched_lost), snd (px_at_end sched_lost))"
proof -
  have "node_run proxy_code px_env sched_lost (proxy_init ''a'' 9997 [''b'', ''c'']) \<noteq> None" by code_simp
  then obtain n where n: "node_run proxy_code px_env sched_lost (proxy_init ''a'' 9997 [''b'', ''c'']) = Some n"
    by blast
  have "\<forall>a \<in> set sched_lost. starts_ok (proxy_starts no_enc no_dec) a"
    by (auto simp: sched_lost_def sched_to_shuffle_def intro: proxy_starts.client)
  from node_run_steps [OF n this] show ?thesis by (simp add: px_at_end_def n)
qed

text \<open>C35:
  in every interleaving: the list of peers keeps its length and holds peers of the start list
  only; every request to another proxy goes to one of them (or, when there is none, to the
  empty address), every request to the cluster to a node with an address; a listener is
  stored under the port it is bound to; the proxy's own port does not change.
\<close>
theorem proxy_peers_known:
  assumes "proxy_steps enc dec (proxy_init ip port peers) (p, ts)"
  shows "length (px_peerNodes p) = length peers \<and> set (px_peerNodes p) \<subseteq> set peers \<and> px_port p = port \<and>
    (\<forall>peer q packet k. Io (Px_Peer peer q packet) k \<in> set ts \<longrightarrow> peer \<in> insert [] (set peers)) \<and>
    (\<forall>node q packet k. Io (Px_Cluster node q packet) k \<in> set ts \<longrightarrow> node \<noteq> []) \<and>
    (\<forall>q ss. map_get (px_activeClusterPorts p) q = Some ss \<longrightarrow> ss = q)"
proof -
  have inv: "px_inv (length peers) (set peers) p"
    using proxy.reach_inv [OF assms proxy_init_keeps] by simp
  have guar: "px_guar (fst (proxy_init ip port peers)) p"
    using proxy.reach_rel [OF assms proxy_init_keeps] by simp
  have event: "px_event_ok (set peers) e" if "Io e k \<in> set ts" for e k
    using proxy.reach_event [OF assms proxy_init_keeps] that by simp
  have "ss = q" if "map_get (px_activeClusterPorts p) q = Some ss" for q ss
    using inv that list_all_get [of "\<lambda>q ss. ss = q"] by (auto simp: px_inv_def)
  with inv guar event show ?thesis
    by (fastforce simp: px_inv_def px_guar_def proxy_init_def addPeers_fields InitProxy_def)
qed

theorem proxy_peers_known_witness:
  "length (px_peerNodes (fst (px_at_end sched_lost))) = 2"
  using proxy_peers_known [OF px_lost_reach] by simp


text \<open>C40:
  when a cluster node answers after the two seconds, the goroutine that brings the answer
  sends on a channel that the time-out has closed: the whole proxy process panics, after the
  request was given up as failed.
\<close>
theorem late_answer_crashes:
  "\<exists>c ts. request_steps request_init (c, ts) \<and> Crash \<in> set ts \<and>
     cell_result c = Some (Some ''FAILED TO REACH ANY OF THE KUB NODES.'', [])"
proof -
  let ?sched = "[Answer 1 (In_done []), Answer 1 (In_done []), Answer 0 (In_case Cl_timeout), Step 0,
    Answer 1 (In_done [7]), Step 1]"
  let ?n = "the (node_run (\<lambda>_. Return) cell_env ?sched request_init)"
  have "node_run (\<lambda>_. Return) cell_env ?sched request_init \<noteq> None" by code_simp
  then have n: "node_run (\<lambda>_. Return) cell_env ?sched request_init = Some ?n" by simp
  have "\<forall>a \<in> set ?sched. starts_ok (\<lambda>_. False) a" by simp
  from node_run_steps [OF n this] have "request_steps request_init (fst ?n, snd ?n)" by simp
  moreover have "list_ex is_crash (snd ?n)" by code_simp
  then have "Crash \<in> set (snd ?n)" using no_crash_iff by blast
  moreover have "cell_result (fst ?n) = Some (Some ''FAILED TO REACH ANY OF THE KUB NODES.'', [])"
    by code_simp
  ultimately show ?thesis by blast
qed

end
