(* ===== verification/Go_Strings.thy ===== *)
theory Go_Strings
  imports Go_Base
begin

text \<open>
  The functions of \<open>strings\<close> and \<open>strconv\<close> that the program calls: \<open>Split\<close> at a separator of
  one character, \<open>TrimSpace\<close> with the white space of Unicode in its UTF-8 encoding (a string
  is its bytes), and \<open>Atoi\<close>.
\<close>

section \<open>Splitting\<close>

text \<open>\<open>strings.Split\<close> with a separator of one character.\<close>

fun Split :: "char \<Rightarrow> string \<Rightarrow> string list" where
  "Split sep [] = [[]]"
| "Split sep (c # s) =
     (if c = sep then [] # Split sep s
      else case Split sep s of [] \<Rightarrow> [[c]] | w # ws \<Rightarrow> (c # w) # ws)"

lemma Split_not_Nil [simp]: "Split sep s \<noteq> []"
  by (cases s) (auto split: list.split)

lemma join_Split: "join [sep] (Split sep s) = s"
proof (induction s)
  case Nil
  then show ?case by simp
next
  case (Cons c s)
  obtain w ws where w: "Split sep s = w # ws" by (meson Split_not_Nil neq_Nil_conv)
  with Cons show ?case by (cases ws) auto
qed

lemma Split_no_sep: "w \<in> set (Split sep s) \<Longrightarrow> sep \<notin> set w"
proof (induction s arbitrary: w)
  case Nil
  then show ?case by simp
next
  case (Cons c s)
  obtain v vs where v: "Split sep s = v # vs" by (meson Split_not_Nil neq_Nil_conv)
  with Cons show ?case by (auto split: if_splits)
qed

lemma Split_append_sep [simp]: "sep \<notin> set w \<Longrightarrow> Split sep (w @ sep # s) = w # Split sep s"
  by (induction w) auto

lemma Split_plain [simp]: "sep \<notin> set w \<Longrightarrow> Split sep w = [w]"
  by (induction w) auto

lemma length_Split: "length (Split sep s) = Suc (count_list s sep)"
proof (induction s)
  case (Cons c s)
  then show ?case by (cases "Split sep s") auto
qed simp

section \<open>White space\<close>

text \<open>
  The encodings of the characters for which \<open>unicode.IsSpace\<close> holds: the six ASCII ones,
  U+0085, U+00A0, U+1680, U+2000 to U+200A, U+2028, U+2029, U+202F, U+205F and U+3000.
\<close>

definition utf8_spaces :: "string list" where
  "utf8_spaces =
     map (\<lambda>c. [c]) [CHR '' '', CHR 0x09, CHR 0x0A, CHR 0x0B, CHR 0x0C, CHR 0x0D] @
     [[CHR 0xC2, CHR 0x85], [CHR 0xC2, CHR 0xA0], [CHR 0xE1, CHR 0x9A, CHR 0x80]] @
     map (\<lambda>n. [CHR 0xE2, CHR 0x80, char_of n]) ([128..<139] @ [168, 169, 175 :: nat]) @
     [[CHR 0xE2, CHR 0x81, CHR 0x9F], [CHR 0xE3, CHR 0x80, CHR 0x80]]"

text \<open>Takes the words of \<open>ps\<close> off the front of a string, as long as there are any.\<close>

fun trim_front :: "string list \<Rightarrow> string \<Rightarrow> string" where
  "trim_front ps [] = []"
| "trim_front ps (c # s) =
     (case find (\<lambda>p. p \<noteq> [] \<and> take (length p) (c # s) = p) ps of
        None \<Rightarrow> c # s
      | Some p \<Rightarrow> trim_front ps (drop (length p - 1) s))"

definition TrimSpace :: "string \<Rightarrow> string" where
  "TrimSpace s = rev (trim_front (map rev utf8_spaces) (rev (trim_front utf8_spaces s)))"

lemma utf8_spaces_blank: "[CHR '' ''] \<in> set utf8_spaces" "p \<in> set utf8_spaces \<Longrightarrow> CHR '' '' \<in> set p \<Longrightarrow> p = [CHR '' '']"
proof -
  have "list_all (\<lambda>p. CHR '' '' \<in> set p \<longrightarrow> p = [CHR '' '']) utf8_spaces \<and> [CHR '' ''] \<in> set utf8_spaces"
    by code_simp
  then show "[CHR '' ''] \<in> set utf8_spaces" "p \<in> set utf8_spaces \<Longrightarrow> CHR '' '' \<in> set p \<Longrightarrow> p = [CHR '' '']"
    by (auto simp: list_all_iff)
qed

lemma trim_front_first: "trim_front ([x] # ps) (x # s) = trim_front ([x] # ps) s"
  by simp

lemma trim_front_blank:
  "trim_front utf8_spaces (CHR '' '' # s) = trim_front utf8_spaces s"
  "trim_front (map rev utf8_spaces) (CHR '' '' # s) = trim_front (map rev utf8_spaces) s"
proof -
  have ps: "utf8_spaces = [CHR '' ''] # tl utf8_spaces" by (simp add: utf8_spaces_def del: upt_rec_numeral)
  have rps: "map rev utf8_spaces = [CHR '' ''] # map rev (tl utf8_spaces)" by (subst ps) simp
  show "trim_front utf8_spaces (CHR '' '' # s) = trim_front utf8_spaces s"
    using trim_front_first [of "CHR '' ''" "tl utf8_spaces"] unfolding ps [symmetric] .
  show "trim_front (map rev utf8_spaces) (CHR '' '' # s) = trim_front (map rev utf8_spaces) s"
    using trim_front_first [of "CHR '' ''" "map rev (tl utf8_spaces)"] unfolding rps [symmetric] .
qed

lemma trim_front_append:
  assumes "\<And>p. p \<in> set ps \<Longrightarrow> x \<in> set p \<Longrightarrow> p = [x]" and "[x] \<in> set ps"
  shows "trim_front ps (s @ [x]) = (if trim_front ps s = [] then [] else trim_front ps s @ [x])"
proof (induction s rule: measure_induct_rule [of length])
  case (less s)
  show ?case
  proof (cases s)
    case Nil
    from assms(2) have "find (\<lambda>p. p \<noteq> [] \<and> take (length p) [x] = p) ps = Some [x]"
    proof (induction ps)
      case (Cons p ps)
      then show ?case by (cases p) auto
    qed simp
    then show ?thesis by (simp add: Nil)
  next
    case (Cons c r)
    have same: "(p \<noteq> [] \<and> take (length p) (c # r @ [x]) = p) \<longleftrightarrow> (p \<noteq> [] \<and> take (length p) (c # r) = p)"
      if "p \<in> set ps" for p
    proof (cases "length p \<le> length (c # r)")
      case False
      then have "x \<in> set p" "p \<noteq> [x]" if "take (length p) (c # r @ [x]) = p"
        using that by (metis in_set_conv_decomp append_Cons append_take_drop_id drop_all length_append_singleton
          length_Cons not_less_eq_eq append_Nil2, force)
      with False assms(1) [OF that] show ?thesis by (metis length_take min.cobounded1)
    qed (cases p, auto)
    have f: "find (\<lambda>p. p \<noteq> [] \<and> take (length p) (c # r @ [x]) = p) ps =
        find (\<lambda>p. p \<noteq> [] \<and> take (length p) (c # r) = p) ps"
      by (rule find_cong) (use same in auto)
    show ?thesis
    proof (cases "find (\<lambda>p. p \<noteq> [] \<and> take (length p) (c # r) = p) ps")
      case (Some p)
      then have "take (length p) (c # r) = p" by (auto simp: find_Some_iff)
      then have "length p - 1 \<le> length r" by (metis diff_le_mono diff_Suc_1 length_Cons length_take min.cobounded1)
      with less [of "drop (length p - 1) r"] Some f show ?thesis by (simp add: Cons)
    qed (use f in \<open>simp add: Cons\<close>)
  qed
qed

lemma TrimSpace_blank [simp]: "TrimSpace (CHR '' '' # s) = TrimSpace s" "TrimSpace (s @ [CHR '' '']) = TrimSpace s"
proof -
  show "TrimSpace (CHR '' '' # s) = TrimSpace s" by (simp add: TrimSpace_def trim_front_blank del: trim_front.simps)
  have "trim_front utf8_spaces (s @ [CHR '' '']) =
      (if trim_front utf8_spaces s = [] then [] else trim_front utf8_spaces s @ [CHR '' ''])"
    by (rule trim_front_append) (auto intro: utf8_spaces_blank)
  then show "TrimSpace (s @ [CHR '' '']) = TrimSpace s"
    by (simp add: TrimSpace_def trim_front_blank del: trim_front.simps)
qed

section \<open>Numbers\<close>

definition digit :: "char \<Rightarrow> nat option" where
  "digit c = (let n = of_char c in if 48 \<le> n \<and> n \<le> (57 :: nat) then Some (n - 48) else None)"

fun digits :: "int \<Rightarrow> string \<Rightarrow> int option" where
  "digits acc [] = Some acc"
| "digits acc (c # s) = (case digit c of None \<Rightarrow> None | Some d \<Rightarrow> digits (10 * acc + int d) s)"

text \<open>\<open>strconv.Atoi\<close>: an optional sign, at least one digit, and the range of \<open>int\<close>.\<close>

definition Atoi :: "string \<Rightarrow> goint option" where
  "Atoi s =
     (let (sign, ds) = (case s of [] \<Rightarrow> (1, [])
        | c # r \<Rightarrow> if c = CHR ''-'' then (- 1, r) else if c = CHR ''+'' then (1, r) else (1, s))
      in if ds = [] then None
         else case digits 0 ds of
             None \<Rightarrow> None
           | Some n \<Rightarrow> if is_goint (sign * n) then Some (sign * n) else None)"

end
