(* ===== verification/Poc_Cli.thy ===== *)
theory Poc_Cli
  imports Raft_Voting Kube_Client Proxy_Node Go_Strings
begin

text \<open>
  \<open>poc/client.go\<close> and \<open>cmd.go\<close>: the command line of a running node, the two commands it can
  issue, the wiring of the three components, and the start of the program.
\<close>

section \<open>The two commands\<close>

definition TestGenDeploymentCmd :: "KubeCmd checked" where
  "TestGenDeploymentCmd =
     (case CreateDeploymentObject ''poc-deployment'' 5 ''app'' ''cluster-loc'' ''app'' ''cluster-loc''
            ''server-cluster-status'' ''seaweed39kelp/poctesting:1.0'' 80 ''http'' of (err, obj) \<Rightarrow>
        if err \<noteq> nil_error then Panic
        else Value (KubeCmd0\<lparr>cmd_Type := CREATE_DEPLOYMENT, cmd_ObjectDeployment := obj\<rparr>))"

definition TestGenNodeportCmd :: "KubeCmd checked" where
  "TestGenNodeportCmd =
     (case CreateNodePortObject ''poc-node-port'' [] 80 80 30010 ''app'' ''cluster-loc'' of (err, svc) \<Rightarrow>
        if err \<noteq> nil_error then Panic
        else Value (KubeCmd0\<lparr>cmd_Type := CREATE_SERVICE, cmd_ObjectService := svc\<rparr>))"

section \<open>The command line\<close>

text \<open>One round of the loop of \<open>startCli\<close>: the word that was read, or a scanning error.\<close>

definition cli_round :: "string option \<Rightarrow> KubeCmd list checked" where
  "cli_round input =
     (case input of
        None \<Rightarrow> Value []
      | Some cmdString \<Rightarrow>
          (case Atoi cmdString of
             None \<Rightarrow> Value []
           | Some num \<Rightarrow>
               let msg = (if num = 1 then Some TestGenDeploymentCmd
                          else if num = 2 then Some TestGenNodeportCmd else None)
               in case msg of
                    None \<Rightarrow> Value []
                  | Some Panic \<Rightarrow> Panic
                  | Some (Value cmd) \<Rightarrow> Value [cmd]))"

fun startCli :: "string option list \<Rightarrow> KubeCmd list checked" where
  "startCli [] = Value []"
| "startCli (i # is) =
     (case cli_round i of
        Panic \<Rightarrow> Panic
      | Value cmds \<Rightarrow> (case startCli is of Panic \<Rightarrow> Panic | Value rest \<Rightarrow> Value (cmds @ rest)))"

section \<open>Wiring\<close>

text \<open>
  The three components of a node. The channels between them are the fields
  \<open>raft_toCluster\<close> and \<open>raft_delivered\<close> (RAFT to the kube client), \<open>kc_announced\<close> (kube client
  to the proxy) and the inputs of the command line.
\<close>

record 'c PoC =
  poc_kube :: "'c KubeClient"
  poc_proxy :: Proxy
  poc_raft :: RAFT

definition InitPoC :: "string \<Rightarrow> string + 'c \<Rightarrow> goint \<Rightarrow> goint \<Rightarrow> 'c PoC checked" where
  "InitPoC ip kubeConf raftPort proxyPort =
     (case InitKubeClient kubeConf of
        Panic \<Rightarrow> Panic
      | Value k \<Rightarrow> Value \<lparr>poc_kube = k, poc_proxy = InitProxy ip proxyPort, poc_raft = InitRaft ip raftPort\<rparr>)"

text \<open>\<open>StartPoc\<close> gives the same peer list to the RAFT node and to the proxy.\<close>

definition StartPoc :: "string list \<Rightarrow> 'c PoC \<Rightarrow> 'c PoC" where
  "StartPoc peers p =
     p\<lparr>poc_raft := (poc_raft p)\<lparr>raft_peers := add_peers peers (raft_peers (poc_raft p))\<rparr>,
       poc_proxy := proxy_addPeers peers (poc_proxy p)\<rparr>"

text \<open>\<open>main\<close>, with the values of its flags and what the configuration file leads to.\<close>

definition main :: "string \<Rightarrow> string \<Rightarrow> string + 'c \<Rightarrow> goint \<Rightarrow> goint \<Rightarrow> 'c PoC checked" where
  "main exposeIp peerIps kubeConf raftPort proxyPort =
     (if exposeIp = [] then Panic
      else let peerIpList = Split CHR '','' peerIps
        in if length peerIpList = 0 then Panic
           else case InitPoC exposeIp kubeConf raftPort proxyPort of
               Panic \<Rightarrow> Panic
             | Value poc \<Rightarrow> Value (StartPoc peerIpList poc))"

section \<open>Lemmas\<close>

lemma test_commands:
  "\<exists>d n. TestGenDeploymentCmd = Value d \<and> TestGenNodeportCmd = Value n \<and> proper_cmd d \<and> proper_cmd n"
proof -
  have "case TestGenDeploymentCmd of Panic \<Rightarrow> False | Value d \<Rightarrow> proper_cmd d"
    "case TestGenNodeportCmd of Panic \<Rightarrow> False | Value n \<Rightarrow> proper_cmd n" by code_simp+
  then show ?thesis by (auto split: checked.splits)
qed

lemma cli_round_proper:
  "\<exists>cmds. cli_round i = Value cmds \<and> list_all proper_cmd cmds \<and>
     length cmds = (if \<exists>w. i = Some w \<and> Atoi w \<in> {Some 1, Some 2} then 1 else 0)"
proof -
  obtain d n where dn: "TestGenDeploymentCmd = Value d" "TestGenNodeportCmd = Value n"
    "proper_cmd d" "proper_cmd n" using test_commands by blast
  show ?thesis
    by (auto simp: cli_round_def Let_def dn split: option.split)
qed

section \<open>Properties\<close>

text \<open>
  The command line never stops the program, and gives the RAFT node one command for each
  word that reads as the number 1 or 2 and nothing else; each of them is a command that a
  node accepts: not the zero command, and unchanged by the transport.
\<close>
theorem cli_commands_proper:
  "\<exists>cmds. startCli inputs = Value cmds \<and> list_all (\<lambda>c. raft_starts (handleCli c)) cmds \<and>
     length cmds = length (filter (\<lambda>i. case i of Some w \<Rightarrow> Atoi w = Some 1 \<or> Atoi w = Some 2
       | None \<Rightarrow> False) inputs)"
proof (induction inputs)
  case Nil
  then show ?case by simp
next
  case (Cons i inputs)
  obtain cmds where "cli_round i = Value cmds" "list_all proper_cmd cmds"
    "length cmds = (if \<exists>w. i = Some w \<and> Atoi w \<in> {Some 1, Some 2} then 1 else 0)"
    using cli_round_proper by blast
  moreover from this(2) have "list_all (\<lambda>c. raft_starts (handleCli c)) cmds"
    by (auto simp: list_all_iff intro: raft_starts.cli)
  ultimately show ?case
    using Cons by (auto split: option.split)
qed

text \<open>
  The peer list of the command line is split at its commas, nothing is lost, and the RAFT
  node and the proxy of a started program know the same peers; the list is never empty, so
  the check that peers were given never fires.
\<close>
theorem main_same_peers:
  assumes "ip \<noteq> []"
  shows "\<exists>p. main ip peerIps (Inr cluster) rport pport = Value p \<and>
    join '','' (px_peerNodes (poc_proxy p)) = peerIps \<and>
    set (rt_peers (raft_peers (poc_raft p))) = set (px_peerNodes (poc_proxy p)) \<and>
    px_peerNodes (poc_proxy p) \<noteq> [] \<and> GetAddr (raft_peers (poc_raft p)) = ip"
  using assms start_routing_facts [of "Split CHR '','' peerIps" ip] join_Split [of "CHR '',''" peerIps]
  by (simp add: main_def InitPoC_def InitKubeClient_def StartPoc_def peers_addPeers InitProxy_def InitRaft_def Let_def)

theorem main_same_peers_witness:
  "case main ''10.0.0.1'' ''10.0.0.2,10.0.0.3'' (Inr ()) 9996 9997 of
     Panic \<Rightarrow> False | Value p \<Rightarrow> join '','' (px_peerNodes (poc_proxy p)) = ''10.0.0.2,10.0.0.3''"
proof -
  have "''10.0.0.1'' \<noteq> []" by simp
  from main_same_peers [OF this, of "''10.0.0.2,10.0.0.3''" "()" 9996 9997] show ?thesis by auto
qed

text \<open>
  A program started without the peer flag runs, but its RAFT node never becomes leader, in
  any interleaving: the one peer it has is the empty address.
\<close>
theorem started_without_peers:
  assumes "ip \<noteq> []"
  shows "\<exists>p. main ip [] (Inr cluster) rport pport = Value p \<and>
    (\<forall>s ts. raft_steps (poc_raft p, [startRAFT]) (s, ts) \<longrightarrow> raft_role s \<noteq> LEADER)"
proof -
  obtain p where p: "main ip [] (Inr cluster) rport pport = Value p"
    "(poc_raft p, [startRAFT]) = raft_init ip rport [[]]"
    using assms
    by (auto simp: main_def InitPoC_def InitKubeClient_def StartPoc_def raft_init_def raft_boot_def Let_def)
  have "raft_inv {[]} UNIV s" if "raft_steps (raft_init ip rport [[]]) (s, ts)" for s ts
    using reach_raft_inv [OF that] by simp
  with p show ?thesis by (auto simp: raft_inv_def)
qed

theorem started_without_peers_witness:
  "\<exists>p. main ''a'' [] (Inr ()) 9996 9997 = Value p \<and> raft_role (poc_raft p) \<noteq> LEADER"
proof -
  have "''a'' \<noteq> []" by simp
  from started_without_peers [OF this, of "()" 9996 9997] show ?thesis by blast
qed

end
