(* ===== verification/Sim_Traffic.thy ===== *)
theory Sim_Traffic
  imports Go_Strings "HOL-Library.Multiset"
begin

text \<open>
  \<open>scripts/sim_traffic.go\<close>: the load generator that measures a running deployment. A test
  sends \<open>cycles\<close> rounds of \<open>hz\<close> concurrent HTTP requests, waits for all of a round before the
  next, and at the end reads the cluster and the host out of every answer, counts the
  requests without one and sorts the requests by the time they were sent.

  The outside is an argument (\<open>test_env\<close>): the clock, what each \<open>http.Get\<close> returns, the order
  in which the goroutines of a round get to run, and what \<open>sort.Slice\<close> makes of requests that
  were sent at the same instant (it is not stable). The printed form of an instant and of a
  duration are arguments of the reports.
\<close>

record RequestStats =
  rs_RequestId :: goint
  rs_SentTime :: instant
  rs_RespTime :: instant
  rs_ElapsedTime :: duration
  rs_Response :: string
  rs_Cluster :: string
  rs_Hostname :: string

definition InitStatsContainer :: "goint \<Rightarrow> instant \<Rightarrow> RequestStats" where
  "InitStatsContainer ident now =
     \<lparr>rs_RequestId = ident, rs_SentTime = now, rs_RespTime = 0, rs_ElapsedTime = 0,
      rs_Response = [], rs_Cluster = [], rs_Hostname = []\<rparr>"

record TestData =
  td_StartTime :: instant
  td_StopTime :: instant
  td_Duration :: duration
  td_Requests :: "RequestStats list"
  td_TotalRequests :: goint
  td_FailedRequests :: goint
  td_Cycles :: goint
  td_Hz :: goint

definition InitTestData :: "goint \<Rightarrow> goint \<Rightarrow> TestData" where
  "InitTestData cycles hz =
     \<lparr>td_StartTime = 0, td_StopTime = 0, td_Duration = 0, td_Requests = [],
      td_TotalRequests = wrap64 (cycles * hz), td_FailedRequests = 0, td_Cycles = cycles, td_Hz = hz\<rparr>"

definition startTestData :: "instant \<Rightarrow> TestData \<Rightarrow> TestData" where
  "startTestData now td = td\<lparr>td_StartTime := now\<rparr>"

section \<open>Reading an answer\<close>

text \<open>The loop over the parts; a part without exactly one colon stops the program.\<close>

fun parse_parts :: "string list \<Rightarrow> string list checked" where
  "parse_parts [] = Value []"
| "parse_parts (part # parts) =
     (case Split CHR '':'' part of
        [_, v] \<Rightarrow> (case parse_parts parts of Panic \<Rightarrow> Panic | Value res \<Rightarrow> Value (TrimSpace v # res))
      | _ \<Rightarrow> Panic)"

definition parseServerMsgValues :: "string \<Rightarrow> string list checked" where
  "parseServerMsgValues msg = parse_parts (Split CHR ''&'' msg)"

section \<open>The end of a test\<close>

text \<open>The body of the loop of \<open>stopTestData\<close> for one request with an answer.\<close>

definition read_answer :: "RequestStats \<Rightarrow> RequestStats checked" where
  "read_answer r =
     (case parseServerMsgValues (rs_Response r) of
        Panic \<Rightarrow> Panic
      | Value values \<Rightarrow>
          (case index_at values 0 of
             Panic \<Rightarrow> Panic
           | Value v0 \<Rightarrow>
               (case index_at values 1 of
                  Panic \<Rightarrow> Panic
                | Value v1 \<Rightarrow>
                    Value (r\<lparr>rs_Cluster := v0, rs_Hostname := v1,
                       rs_ElapsedTime := time_Sub (rs_RespTime r) (rs_SentTime r)\<rparr>))))"

fun stop_requests :: "RequestStats list \<Rightarrow> goint \<Rightarrow> (RequestStats list \<times> goint) checked" where
  "stop_requests [] failed = Value ([], failed)"
| "stop_requests (r # rs) failed =
     (if rs_Response r = [] then
        (case stop_requests rs (add64 failed 1) of Panic \<Rightarrow> Panic | Value (rs', f) \<Rightarrow> Value (r # rs', f))
      else case read_answer r of
        Panic \<Rightarrow> Panic
      | Value r' \<Rightarrow>
          (case stop_requests rs failed of Panic \<Rightarrow> Panic | Value (rs', f) \<Rightarrow> Value (r' # rs', f)))"

text \<open>
  \<open>sort.Slice\<close> orders the requests by the time they were sent; the function argument is the
  arrangement it arrives at (\<open>slice_sort\<close> says which are possible).
\<close>

definition slice_sort :: "(RequestStats list \<Rightarrow> RequestStats list) \<Rightarrow> bool" where
  "slice_sort srt \<longleftrightarrow>
     (\<forall>rs. mset (srt rs) = mset rs \<and> sorted_wrt (\<lambda>a b. \<not> rs_SentTime b < rs_SentTime a) (srt rs))"

definition sortDataSet :: "(RequestStats list \<Rightarrow> RequestStats list) \<Rightarrow> TestData \<Rightarrow> TestData" where
  "sortDataSet srt td = td\<lparr>td_Requests := srt (td_Requests td)\<rparr>"

definition stopTestData ::
    "(RequestStats list \<Rightarrow> RequestStats list) \<Rightarrow> instant \<Rightarrow> TestData \<Rightarrow> TestData checked" where
  "stopTestData srt now td =
     (case stop_requests (td_Requests td) (td_FailedRequests td) of
        Panic \<Rightarrow> Panic
      | Value (rs, failed) \<Rightarrow>
          Value (sortDataSet srt
            (td\<lparr>td_StopTime := now, td_Duration := time_Sub now (td_StartTime td),
                td_Requests := rs, td_FailedRequests := failed\<rparr>)))"

section \<open>The test\<close>

text \<open>
  What the goroutine of a request meets: an error of \<open>http.Get\<close>, an answer (with the bytes
  of the body that could be read, the error of \<open>ReadAll\<close> is dropped) at some time, or a
  server that accepts and never answers: the default client has no time-out.
\<close>

datatype http_outcome = Get_Error | Get_Body instant string | Get_Hangs

record test_env =
  te_start :: instant
  te_stop :: instant
  te_sent :: "nat \<Rightarrow> nat \<Rightarrow> instant"
  te_get :: "nat \<Rightarrow> nat \<Rightarrow> http_outcome"
  te_order :: "nat \<Rightarrow> nat list"
  te_sort :: "RequestStats list \<Rightarrow> RequestStats list"

text \<open>A test ends, waits for ever, or stops the program.\<close>

datatype test_end = Test_Done TestData | Test_Waits | Test_Panics

definition cycle_requests :: "test_env \<Rightarrow> goint \<Rightarrow> nat \<Rightarrow> RequestStats list" where
  "cycle_requests env hz n =
     map (\<lambda>call. InitStatsContainer (add64 (wrap64 (int n * hz)) (int call)) (te_sent env n call)) [0..<nat hz]"

definition get_request :: "http_outcome \<Rightarrow> RequestStats \<Rightarrow> RequestStats" where
  "get_request out reqData =
     (case out of
        Get_Body t body \<Rightarrow> reqData\<lparr>rs_RespTime := t, rs_Response := body\<rparr>
      | _ \<Rightarrow> reqData)"

text \<open>
  A round: the containers are made and appended, the goroutines write to them in some order
  (each to its own only), and the round is over when all of them are done. A wait group does
  not take a negative count.
\<close>

definition run_cycle :: "test_env \<Rightarrow> goint \<Rightarrow> nat \<Rightarrow> RequestStats list option checked" where
  "run_cycle env hz n =
     (if hz < 0 then Panic
      else if list_ex (\<lambda>call. te_get env n call = Get_Hangs) [0..<nat hz] then Value None
      else Value (Some (fold (\<lambda>call rs. rs[call := get_request (te_get env n call) (rs ! call)])
             (te_order env n) (cycle_requests env hz n))))"

fun run_cycles :: "test_env \<Rightarrow> goint \<Rightarrow> nat \<Rightarrow> nat \<Rightarrow> TestData \<Rightarrow> test_end" where
  "run_cycles env hz n 0 stats = Test_Done stats"
| "run_cycles env hz n (Suc left) stats =
     (case run_cycle env hz n of
        Panic \<Rightarrow> Test_Panics
      | Value None \<Rightarrow> Test_Waits
      | Value (Some rs) \<Rightarrow>
          run_cycles env hz (Suc n) left (stats\<lparr>td_Requests := td_Requests stats @ rs\<rparr>))"

definition startNSTest :: "test_env \<Rightarrow> goint \<Rightarrow> goint \<Rightarrow> test_end" where
  "startNSTest env cycles hz =
     (case run_cycles env hz 0 (nat cycles) (startTestData (te_start env) (InitTestData cycles hz)) of
        Test_Done stats \<Rightarrow>
          (case stopTestData (te_sort env) (te_stop env) stats of
             Panic \<Rightarrow> Test_Panics
           | Value stats' \<Rightarrow> Test_Done stats')
      | other \<Rightarrow> other)"

section \<open>The reports\<close>

text \<open>\<open>Duration.Milliseconds\<close> rounds towards zero.\<close>

definition Milliseconds :: "duration \<Rightarrow> goint" where
  "Milliseconds d = (if d < 0 then - (- d div 1000000) else d div 1000000)"

definition getSummary :: "(duration \<Rightarrow> string) \<Rightarrow> TestData \<Rightarrow> go_error \<times> string" where
  "getSummary show_duration td =
     (if td_StopTime td = 0 then (Some ''TEST NOT COMLETED SUCCESFULLY'', [])
      else (nil_error,
        ''elapsed_time: ['' @ show_duration (time_Sub (td_StopTime td) (td_StartTime td)) @ '']'' @ [CHR 0x0A] @
        ''num_requests_sent: ['' @ show_int (td_TotalRequests td) @ '']'' @ [CHR 0x0A] @
        ''num_requests_failed: ['' @ show_int (td_FailedRequests td) @ '']''))"

definition getAllRequestsData :: "(instant \<Rightarrow> string) \<Rightarrow> TestData \<Rightarrow> string" where
  "getAllRequestsData show_time td = concat (map (\<lambda>req.
     ''('' @ show_int (rs_RequestId req) @ ''), cluster: ['' @ rs_Cluster req @ ''], starttime: ['' @
     show_time (rs_SentTime req) @
     (if rs_Response req \<noteq> []
      then ''], recievedresp: TRUE, resptime: ['' @ show_time (rs_RespTime req) @ ''], elapsedtime: ['' @
           show_int (Milliseconds (rs_ElapsedTime req)) @ ''(ms)]''
      else ''], recievedresp: FALSE, resptime: [NA], elapsedtime: [NA]'') @ [CHR 0x0A]) (td_Requests td))"

definition getAllRequestsDataSlim :: "TestData \<Rightarrow> string" where
  "getAllRequestsDataSlim td = concat (map (\<lambda>req.
     ''('' @ show_int (rs_RequestId req) @ '') cluster: ['' @ rs_Cluster req @
     (if rs_Response req \<noteq> []
      then ''], recievedresp: TRUE, elapsedtime: ['' @ show_int (Milliseconds (rs_ElapsedTime req)) @ ''(ms)]''
      else ''], recievedresp: FALSE, elapsedtime: [NA]'') @ [CHR 0x0A]) (td_Requests td))"

definition getAllRequestsCompact :: "TestData \<Rightarrow> string" where
  "getAllRequestsCompact td = concat (map (\<lambda>req.
     ''['' @ show_int (rs_RequestId req) @ ''],['' @ rs_Cluster req @ ''],['' @
     (if rs_Response req \<noteq> [] then show_int (Milliseconds (rs_ElapsedTime req)) else ''NA'') @
     '']'' @ [CHR 0x0A]) (td_Requests td))"

text \<open>\<open>main\<close> after the flags are parsed: what it prints, \<open>None\<close> when it never gets there.\<close>

definition sim_main :: "(duration \<Rightarrow> string) \<Rightarrow> test_env \<Rightarrow> goint \<Rightarrow> goint \<Rightarrow> (string \<times> string) option checked" where
  "sim_main show_duration env cycles hz =
     (case startNSTest env cycles hz of
        Test_Panics \<Rightarrow> Panic
      | Test_Waits \<Rightarrow> Value None
      | Test_Done stats \<Rightarrow> Value (Some (snd (getSummary show_duration stats), getAllRequestsCompact stats)))"

section \<open>What an answer must look like\<close>

definition well_formed :: "string \<Rightarrow> bool" where
  "well_formed msg \<longleftrightarrow>
     2 \<le> length (Split CHR ''&'' msg) \<and>
     list_all (\<lambda>part. count_list part CHR '':'' = 1) (Split CHR ''&'' msg)"

definition part_value :: "string \<Rightarrow> string" where
  "part_value part = TrimSpace (Split CHR '':'' part ! 1)"

lemma parse_parts_eq:
  "parse_parts parts =
     (if list_all (\<lambda>part. count_list part CHR '':'' = 1) parts then Value (map part_value parts) else Panic)"
proof (induction parts)
  case (Cons part parts)
  show ?case
  proof (cases "count_list part CHR '':'' = 1")
    case True
    then obtain k v where "Split CHR '':'' part = [k, v]"
      using length_Split [of "CHR '':''" part] by (auto simp: length_Suc_conv)
    with Cons True show ?thesis by (simp add: part_value_def)
  next
    case False
    then have "length (Split CHR '':'' part) \<noteq> 2" by (simp add: length_Split)
    with False show ?thesis by (auto split: list.split)
  qed
qed simp

definition finish :: "RequestStats \<Rightarrow> RequestStats" where
  "finish r =
     (if rs_Response r = [] then r
      else let parts = Split CHR ''&'' (rs_Response r) in
        r\<lparr>rs_Cluster := part_value (parts ! 0), rs_Hostname := part_value (parts ! 1),
          rs_ElapsedTime := time_Sub (rs_RespTime r) (rs_SentTime r)\<rparr>)"

lemma finish_fields [simp]:
  "rs_RequestId (finish r) = rs_RequestId r" "rs_SentTime (finish r) = rs_SentTime r"
  "rs_Response (finish r) = rs_Response r"
  by (simp_all add: finish_def Let_def)

lemma read_answer_eq:
  "rs_Response r \<noteq> [] \<Longrightarrow>
   read_answer r = (if well_formed (rs_Response r) then Value (finish r) else Panic)"
  by (auto simp: read_answer_def parseServerMsgValues_def parse_parts_eq well_formed_def finish_def
      index_at_def Let_def split: checked.splits)

definition no_answer :: "RequestStats \<Rightarrow> bool" where
  "no_answer r \<longleftrightarrow> rs_Response r = []"

lemma stop_requests_eq:
  "is_goint failed \<Longrightarrow> stop_requests rs failed =
     (if list_all (\<lambda>r. no_answer r \<or> well_formed (rs_Response r)) rs
      then Value (map finish rs, wrap64 (failed + int (length (filter no_answer rs)))) else Panic)"
proof (induction rs arbitrary: failed)
  case (Cons r rs)
  have w: "wrap64 (wrap64 (failed + 1) + x) = wrap64 (failed + (1 + x))" for x
    by (simp add: wrap64_def mod_simps algebra_simps)
  show ?case
  proof (cases "no_answer r")
    case True
    then have "finish r = r" "rs_Response r = []" by (simp_all add: no_answer_def finish_def)
    with True Cons.IH [of "wrap64 (failed + 1)"] show ?thesis by (simp add: w add64_def)
  next
    case False
    then have "rs_Response r \<noteq> []" by (simp add: no_answer_def)
    with False Cons.IH [of failed] Cons.prems show ?thesis by (simp add: read_answer_eq)
  qed
qed simp

section \<open>A round and all rounds\<close>

lemma fold_update_nth:
  "distinct ord \<Longrightarrow> i < length rs \<Longrightarrow>
   fold (\<lambda>c rs. rs[c := f c (rs ! c)]) ord rs ! i = (if i \<in> set ord then f i (rs ! i) else rs ! i)"
proof (induction ord arbitrary: rs)
  case (Cons a ord)
  then show ?case by (cases "i = a") auto
qed simp

lemma length_fold_update: "length (fold (\<lambda>c rs. rs[c := f c (rs ! c)]) ord rs) = length rs"
  by (induction ord arbitrary: rs) auto

text \<open>The order in which the goroutines of a round run does not show in the result.\<close>

definition fair_order :: "test_env \<Rightarrow> goint \<Rightarrow> nat \<Rightarrow> bool" where
  "fair_order env hz n \<longleftrightarrow> distinct (te_order env n) \<and> set (te_order env n) = {..<nat hz}"

definition request_of :: "test_env \<Rightarrow> goint \<Rightarrow> nat \<Rightarrow> nat \<Rightarrow> RequestStats" where
  "request_of env hz n call =
     get_request (te_get env n call) (InitStatsContainer (add64 (wrap64 (int n * hz)) (int call)) (te_sent env n call))"

lemma fold_requests:
  "fair_order env hz n \<Longrightarrow>
   fold (\<lambda>call rs. rs[call := get_request (te_get env n call) (rs ! call)]) (te_order env n) (cycle_requests env hz n)
     = map (request_of env hz n) [0..<nat hz]"
proof (rule nth_equalityI)
  let ?f = "\<lambda>call. get_request (te_get env n call)"
  assume fair: "fair_order env hz n"
  have len: "length (fold (\<lambda>c rs. rs[c := ?f c (rs ! c)]) (te_order env n) (cycle_requests env hz n)) = nat hz"
    using length_fold_update [of ?f "te_order env n" "cycle_requests env hz n"] by (simp add: cycle_requests_def)
  then show "length (fold (\<lambda>c rs. rs[c := ?f c (rs ! c)]) (te_order env n) (cycle_requests env hz n)) =
      length (map (request_of env hz n) [0..<nat hz])" by simp
  fix i assume "i < length (fold (\<lambda>c rs. rs[c := ?f c (rs ! c)]) (te_order env n) (cycle_requests env hz n))"
  with len fair show "fold (\<lambda>c rs. rs[c := ?f c (rs ! c)]) (te_order env n) (cycle_requests env hz n) ! i =
      map (request_of env hz n) [0..<nat hz] ! i"
    using fold_update_nth [of "te_order env n" i "cycle_requests env hz n" ?f]
    by (simp add: fair_order_def cycle_requests_def request_of_def)
qed

definition hangs :: "test_env \<Rightarrow> goint \<Rightarrow> nat \<Rightarrow> bool" where
  "hangs env hz n \<longleftrightarrow> list_ex (\<lambda>call. te_get env n call = Get_Hangs) [0..<nat hz]"

lemma run_cycle_eq:
  "0 \<le> hz \<Longrightarrow> fair_order env hz n \<Longrightarrow>
   run_cycle env hz n = Value (if hangs env hz n then None else Some (map (request_of env hz n) [0..<nat hz]))"
  by (simp add: run_cycle_def fold_requests hangs_def)

lemma run_cycles_eq:
  assumes "0 \<le> hz" and "\<And>m. n \<le> m \<Longrightarrow> m < n + left \<Longrightarrow> fair_order env hz m"
  shows "run_cycles env hz n left stats =
    (if list_ex (hangs env hz) [n..<n + left] then Test_Waits
     else Test_Done (stats\<lparr>td_Requests := td_Requests stats @
       concat (map (\<lambda>m. map (request_of env hz m) [0..<nat hz]) [n..<n + left])\<rparr>))"
  using assms(2)
proof (induction left arbitrary: n stats)
  case (Suc left)
  have "fair_order env hz n" using Suc.prems by simp
  moreover have "[n..<n + Suc left] = n # [Suc n..<Suc n + left]" by (simp add: upt_conv_Cons)
  ultimately show ?case
    using Suc.IH [of "Suc n"] Suc.prems assms(1) by (simp add: run_cycle_eq del: upt_Suc)
qed simp

definition all_requests :: "test_env \<Rightarrow> goint \<Rightarrow> nat \<Rightarrow> RequestStats list" where
  "all_requests env hz k = concat (map (\<lambda>m. map (request_of env hz m) [0..<nat hz]) [0..<k])"

lemma request_of_fields [simp]:
  "rs_RequestId (request_of env hz n call) = add64 (wrap64 (int n * hz)) (int call)"
  "rs_SentTime (request_of env hz n call) = te_sent env n call"
  "rs_Response (request_of env hz n call) = (case te_get env n call of Get_Body t body \<Rightarrow> body | _ \<Rightarrow> [])"
  by (simp_all add: request_of_def get_request_def InitStatsContainer_def split: http_outcome.split)

lemma request_ids:
  assumes "0 \<le> hz" "is_goint (int k * hz)"
  shows "map rs_RequestId (all_requests env hz k) = map int [0..<k * nat hz]"
  using assms(2)
proof (induction k)
  case (Suc k)
  have "0 \<le> int k * hz" using assms(1) by simp
  with Suc.prems assms(1) have "is_goint (int k * hz)"
    unfolding is_goint_def distrib_right of_nat_Suc by linarith
  moreover have "int k * hz = int (k * nat hz)" using assms(1) by simp
  ultimately have k: "is_goint (int k * hz)" "int k * hz = int (k * nat hz)" .
  have "add64 (wrap64 (int k * hz)) (int c) = int (k * nat hz + c)" if "c < nat hz" for c
  proof -
    have "is_goint (int k * hz + int c)"
      using Suc.prems k that by (auto simp: is_goint_def algebra_simps)
    then have "add64 (wrap64 (int k * hz)) (int c) = int k * hz + int c"
      by (simp only: wrap64_id [OF k(1)] add64_exact)
    with k(2) show ?thesis by simp
  qed
  then have "map (\<lambda>c. add64 (wrap64 (int k * hz)) (int c)) [0..<nat hz] = map int (map ((+) (k * nat hz)) [0..<nat hz])"
    by simp
  also have "map ((+) (k * nat hz)) [0..<nat hz] = [k * nat hz..<Suc k * nat hz]"
  proof -
    have "(+) (k * nat hz) = (\<lambda>i. i + k * nat hz)" by (simp add: fun_eq_iff)
    then show ?thesis by (simp add: map_add_upt)
  qed
  finally have round: "map (\<lambda>c. add64 (wrap64 (int k * hz)) (int c)) [0..<nat hz] = map int [k * nat hz..<Suc k * nat hz]" .
  have "map rs_RequestId (all_requests env hz (Suc k)) = map rs_RequestId (all_requests env hz k) @
      map (\<lambda>c. add64 (wrap64 (int k * hz)) (int c)) [0..<nat hz]"
    by (simp add: all_requests_def)
  also have "\<dots> = map int ([0..<k * nat hz] @ [k * nat hz..<Suc k * nat hz])"
    using Suc.IH [OF k(1)] round by (simp only: map_append)
  also have "[0..<k * nat hz] @ [k * nat hz..<Suc k * nat hz] = [0..<Suc k * nat hz]"
    using upt_add_eq_append [of 0 "k * nat hz" "nat hz"] by (simp add: add.commute)
  finally show ?case .
qed (simp add: all_requests_def)

section \<open>Properties\<close>

definition answers_ok :: "test_env \<Rightarrow> goint \<Rightarrow> nat \<Rightarrow> bool" where
  "answers_ok env hz k \<longleftrightarrow> list_all (\<lambda>r. no_answer r \<or> well_formed (rs_Response r)) (all_requests env hz k)"

lemma startNSTest_eq:
  assumes "0 \<le> hz" and "\<And>m. m < nat cycles \<Longrightarrow> fair_order env hz m"
  shows "startNSTest env cycles hz =
    (let rs = all_requests env hz (nat cycles)
     in if list_ex (hangs env hz) [0..<nat cycles] then Test_Waits
        else if \<not> answers_ok env hz (nat cycles) then Test_Panics
        else Test_Done
          \<lparr>td_StartTime = te_start env, td_StopTime = te_stop env,
           td_Duration = time_Sub (te_stop env) (te_start env),
           td_Requests = te_sort env (map finish rs), td_TotalRequests = wrap64 (cycles * hz),
           td_FailedRequests = wrap64 (int (length (filter no_answer rs))),
           td_Cycles = cycles, td_Hz = hz\<rparr>)"
  using assms
  by (simp add: startNSTest_def run_cycles_eq Let_def all_requests_def [symmetric] InitTestData_def
      startTestData_def stopTestData_def stop_requests_eq is_goint_def answers_ok_def sortDataSet_def)

text \<open>C38:
  a test whose requests all end, with answers that can be read, ends with one entry per
  request: the ids are 0 to \<open>cycles * hz - 1\<close>, each once, the entries are sorted by the time
  they were sent, the total is the number of entries, and exactly the entries without an
  answer count as failed. The order in which the goroutines ran and the one in which equal
  times are sorted do not matter.
\<close>
theorem traffic_test_complete:
  assumes "0 \<le> cycles" "0 \<le> hz" "is_goint (cycles * hz)" and "slice_sort (te_sort env)"
    and "\<And>m. m < nat cycles \<Longrightarrow> fair_order env hz m"
    and "\<not> list_ex (hangs env hz) [0..<nat cycles]" and "answers_ok env hz (nat cycles)"
  shows "\<exists>td. startNSTest env cycles hz = Test_Done td \<and>
    image_mset rs_RequestId (mset (td_Requests td)) = mset (map int [0..<nat (cycles * hz)]) \<and>
    sorted (map rs_SentTime (td_Requests td)) \<and>
    td_TotalRequests td = int (length (td_Requests td)) \<and>
    td_FailedRequests td = int (length (filter no_answer (td_Requests td)))"
proof -
  let ?rs = "all_requests env hz (nat cycles)"
  have n: "int (nat cycles) * hz = cycles * hz" "nat (cycles * hz) = nat cycles * nat hz"
    using assms(1,2) by (simp_all add: nat_mult_distrib)
  have sort: "mset (te_sort env (map finish ?rs)) = mset (map finish ?rs)"
    "sorted_wrt (\<lambda>a b. \<not> rs_SentTime b < rs_SentTime a) (te_sort env (map finish ?rs))"
    using assms(4) by (auto simp: slice_sort_def)
  have ids: "map rs_RequestId ?rs = map int [0..<nat (cycles * hz)]"
    using request_ids [of hz "nat cycles" env] assms(2,3) unfolding n by simp
  then have len: "int (length ?rs) = cycles * hz" using assms(1,2) by (metis diff_zero length_map length_upt
      mult_nonneg_nonneg nat_0_le)
  have "image_mset rs_RequestId (mset (te_sort env (map finish ?rs))) = mset (map int [0..<nat (cycles * hz)])"
    by (simp add: sort(1) multiset.map_comp comp_def flip: ids)
  moreover have "sorted (map rs_SentTime (te_sort env (map finish ?rs)))"
    using sort(2) by (simp add: sorted_map not_less)
  moreover have "int (length (te_sort env (map finish ?rs))) = cycles * hz"
    using len mset_eq_length [OF sort(1)] by simp
  moreover have "length (filter no_answer (te_sort env (map finish ?rs))) = length (filter no_answer ?rs)"
  proof -
    have "mset (filter no_answer (te_sort env (map finish ?rs))) = image_mset finish (mset (filter no_answer ?rs))"
      by (simp add: sort(1) filter_mset_image_mset no_answer_def)
    then show ?thesis by (metis size_image_mset size_mset)
  qed
  moreover have "is_goint (int (length (filter no_answer ?rs)))"
    using assms(3) len length_filter_le [of no_answer ?rs] unfolding is_goint_def by linarith
  ultimately show ?thesis
    using assms(3,6,7) startNSTest_eq [OF assms(2,5)] by (simp add: Let_def)
qed

text \<open>Two rounds of two requests; the second request of the first round gets no answer.\<close>

definition demo_traffic :: "string \<Rightarrow> test_env" where
  "demo_traffic body =
     \<lparr>te_start = 100, te_stop = 900, te_sent = (\<lambda>n call. 110 + 100 * int n + int call),
      te_get = (\<lambda>n call. if n = 0 \<and> call = 1 then Get_Error else Get_Body (500 - int n) body),
      te_order = (\<lambda>n. [1, 0]), te_sort = sort_key rs_SentTime\<rparr>"

lemma demo_traffic_possible:
  "slice_sort (te_sort (demo_traffic body))" "fair_order (demo_traffic body) 2 m"
  "\<not> list_ex (hangs (demo_traffic body) 2) [0..<nat 2]"
proof -
  have "sorted_wrt (\<lambda>a b. \<not> rs_SentTime b < rs_SentTime a) (sort_key rs_SentTime rs)" for rs :: "RequestStats list"
    using sorted_sort_key [of rs_SentTime rs] by (simp add: sorted_map not_less)
  then show "slice_sort (te_sort (demo_traffic body))" by (simp add: slice_sort_def demo_traffic_def)
  show "fair_order (demo_traffic body) 2 m" by (auto simp: fair_order_def demo_traffic_def)
  show "\<not> list_ex (hangs (demo_traffic body) 2) [0..<nat 2]"
    by (simp add: hangs_def demo_traffic_def list_ex_iff)
qed

theorem traffic_test_complete_witness:
  "\<exists>td. startNSTest (demo_traffic ''CLUSTER_ID: west & HOSTNAME: a'') 2 2 = Test_Done td \<and>
     td_TotalRequests td = 4 \<and> sorted (map rs_SentTime (td_Requests td))"
proof -
  have c: "answers_ok (demo_traffic ''CLUSTER_ID: west & HOSTNAME: a'') 2 (nat 2)" by code_simp
  have g: "0 \<le> (2 :: goint)" "is_goint (2 * 2)" by (simp_all add: is_goint_def)
  from traffic_test_complete [OF g(1) g(1) g(2) demo_traffic_possible c] show ?thesis
    by (metis (mono_tags, lifting) length_map length_upt size_image_mset size_mset diff_zero numeral_times_numeral
        int_nat_eq semiring_norm(11,13) nat_numeral of_nat_numeral)
qed

text \<open>
  One answer without the two parts the parser wants (such as an error page) stops the whole
  program at the end of the test, so the measurements of all other requests are lost.
\<close>
theorem one_bad_answer_stops_test:
  assumes "0 \<le> hz" and "\<And>m. m < nat cycles \<Longrightarrow> fair_order env hz m"
    and "\<not> list_ex (hangs env hz) [0..<nat cycles]"
    and "n < nat cycles" "call < nat hz" "te_get env n call = Get_Body t body" "body \<noteq> []" "\<not> well_formed body"
  shows "startNSTest env cycles hz = Test_Panics \<and> sim_main show_duration env cycles hz = Panic"
proof -
  have "request_of env hz n call \<in> set (all_requests env hz (nat cycles))"
    using assms(4,5) by (auto simp: all_requests_def intro!: bexI [of _ n] imageI)
  then have "\<not> answers_ok env hz (nat cycles)"
    using assms(6-8) by (force simp: answers_ok_def list_all_iff no_answer_def)
  then show ?thesis using startNSTest_eq [OF assms(1,2)] assms(3) by (simp add: sim_main_def)
qed

theorem one_bad_answer_stops_test_witness:
  "startNSTest (demo_traffic ''404 page not found'') 2 2 = Test_Panics"
proof -
  have b: "0 < nat 2" "0 < nat 2" "te_get (demo_traffic ''404 page not found'') 0 0 = Get_Body 500 ''404 page not found''"
    "''404 page not found'' \<noteq> []" "\<not> well_formed ''404 page not found''"
    by (simp_all add: demo_traffic_def well_formed_def)
  from one_bad_answer_stops_test [OF _ demo_traffic_possible(2,3) b] show ?thesis by simp
qed

text \<open>The server's message, as the comment of the parser gives it.\<close>

definition server_message :: "string \<Rightarrow> string \<Rightarrow> string" where
  "server_message cluster host = ''CLUSTER_ID: '' @ cluster @ '' & HOSTNAME: '' @ host @ '' ''"

text \<open>
  From the message of the server the parser reads the cluster and the host back, without the
  white space around them, when neither contains one of the two separators.
\<close>
theorem server_message_parsed:
  assumes "set cluster \<inter> {CHR '':'', CHR ''&''} = {}" "set host \<inter> {CHR '':'', CHR ''&''} = {}"
  shows "parseServerMsgValues (server_message cluster host) = Value [TrimSpace cluster, TrimSpace host]"
proof -
  let ?m = "''CLUSTER_ID: '' @ cluster @ '' ''" and ?h = "'' HOSTNAME: '' @ host @ '' ''"
  have "server_message cluster host = ?m @ CHR ''&'' # ?h" by (simp add: server_message_def)
  moreover have "CHR ''&'' \<notin> set ?m" "CHR ''&'' \<notin> set ?h" using assms by auto
  ultimately have split: "Split CHR ''&'' (server_message cluster host) = [?m, ?h]"
    by (simp only: Split_append_sep Split_plain not_False_eq_True)
  have part: "parse_parts ((k @ CHR '':'' # CHR '' '' # v @ '' '') # parts) =
      (case parse_parts parts of Panic \<Rightarrow> Panic | Value res \<Rightarrow> Value (TrimSpace v # res))"
    if "CHR '':'' \<notin> set k" "CHR '':'' \<notin> set v" for k v parts
  proof -
    have "Split CHR '':'' (k @ CHR '':'' # CHR '' '' # v @ '' '') = [k, CHR '' '' # v @ '' '']"
      using that by (subst Split_append_sep, simp, subst Split_plain) auto
    moreover have "TrimSpace (CHR '' '' # v @ '' '') = TrimSpace v" by (simp only: TrimSpace_blank)
    ultimately show ?thesis by (simp only: parse_parts.simps list.case)
  qed
  have "parse_parts [''CLUSTER_ID: '' @ cluster @ '' '', '' HOSTNAME: '' @ host @ '' ''] =
      Value [TrimSpace cluster, TrimSpace host]"
    using part [of "''CLUSTER_ID''" cluster "['' HOSTNAME: '' @ host @ '' '']"] part [of "'' HOSTNAME''" host "[]"] assms
    by (simp del: parse_parts.simps(2))
  then show ?thesis by (simp only: parseServerMsgValues_def split)
qed

theorem server_message_parsed_witness:
  "parseServerMsgValues ''CLUSTER_ID: west & HOSTNAME: poc-1 '' = Value [''west'', ''poc-1'']"
proof -
  have "set ''west'' \<inter> {CHR '':'', CHR ''&''} = {}" "set ''poc-1'' \<inter> {CHR '':'', CHR ''&''} = {}" by simp_all
  from server_message_parsed [OF this]
  have "parseServerMsgValues (server_message ''west'' ''poc-1'') = Value [TrimSpace ''west'', TrimSpace ''poc-1'']" .
  moreover have "TrimSpace ''west'' = ''west''" "TrimSpace ''poc-1'' = ''poc-1''"
    "server_message ''west'' ''poc-1'' = ''CLUSTER_ID: west & HOSTNAME: poc-1 ''" by code_simp+
  ultimately show ?thesis by simp
qed

end
