(* ===== verification/Spec2Isabelle.thy ===== *)
theory Spec2Isabelle
  imports Raft_Stable Raft_Elected Raft_Wire Proxy_Properties Proxy_Request Poc_Cli Sim_Traffic
begin

text \<open>
  A replicated log of Kubernetes commands with a failover proxy: the root of the development.

  The program. One process (\<open>cmd.go\<close>, \<open>poc/client.go\<close>) runs next to one Kubernetes cluster
  and holds three components that talk over channels. The Raft node (\<open>raft/\<close>) replicates the
  commands that are typed at any process: a command is given to the local node, the leader
  asks its peers, and on a quorum the command is appended to the commit log and handed to
  the kube client. The kube client (\<open>kube/\<close>) carries the commands out on its cluster and
  announces the cluster's nodes and service ports to the proxy. The proxy (\<open>proxy/\<close>) listens
  on the announced ports, forwards client requests to a node of its own cluster, and on
  failure to the proxy of a peer process. Raft nodes talk over \<open>network/\<close>.

  The theories, and the code they model.

  \<^item> \<open>Go_Base\<close>, \<open>Go_Map\<close>: the parts of Go that the program uses: 64-bit integers that wrap,
    error values, panics as values (\<open>checked\<close>), maps as association lists
    with distinct keys whose iteration order is an argument (\<open>range_order\<close> says which orders
    are possible). The locale \<open>dictionary\<close> is the contract of a map.
  \<^item> \<open>Goroutine\<close>: a goroutine is a tree of critical sections (\<open>Atom\<close>), actions on the outside
    that wait for an input (\<open>Io\<close>), jumps to the head of a loop (\<open>Goto\<close>), and the ways to end:
    a return, blocking for ever, a panic. \<open>node_step\<close> interleaves any number of them and
    starts new ones, \<open>node_run\<close> executes a given schedule, \<open>exec\<close> runs one alone. The
    locale \<open>goroutine_pool\<close> is the rely-guarantee rule: code that keeps an invariant and a
    guarantee at each of its own steps keeps them in every interleaving. \<open>Goroutine_Alone\<close>
    shows that \<open>exec\<close> is what the scheduler does with a goroutine it runs alone.
  \<^item> \<open>Go_Strings\<close>: the functions of \<open>strings\<close> and \<open>strconv\<close> that are called.
  \<^item> \<open>Network\<close>: \<open>network/packet.go\<close> and \<open>network/network.go\<close>.
  \<^item> \<open>Raft_Peer\<close>, \<open>Raft_Routing\<close>: \<open>raft/peer.go\<close> and \<open>raft/routing.go\<close>, the routing table; with
    \<open>Raft_Membership\<close> (well-formedness, frozen membership, leader and lease; locale
    \<open>membership\<close>) and \<open>Raft_Quorum\<close> (the quorum is a majority; locale \<open>quorum_system\<close>).
  \<^item> \<open>Raft_Rpc\<close>: \<open>raft/rpc.go\<close>, the messages; decoding one as another is written out, since
    the program does decode an append request as its answer.
  \<^item> \<open>Raft_State\<close>, \<open>Raft_Handler\<close>, \<open>Raft_Election\<close>: \<open>raft/raft.go\<close>: the RAFT object with one step
    per lock acquisition, the request handlers with replication and catch-up, and the main
    goroutine with its elections and heartbeats. \<open>raft_steps\<close> is a running node.
  \<^item> \<open>Raft_Wire\<close>: the senders of \<open>raft/raft.go\<close> and \<open>encodePayload\<close> of \<open>raft/rpc.go\<close>, down to the
    bytes of the packet and up again at the receiver.
  \<^item> \<open>Raft_Cluster\<close>: several nodes and the TCP connections between them. A request may arrive
    once, its first reply can be read by the sender while it waits; both can be lost or
    delayed. \<open>cluster_step\<close> interleaves all of it, \<open>cluster_run\<close> executes a given run.
  \<^item> \<open>Kube_Resources\<close>, \<open>Kube_Client\<close>: \<open>kube/kube_resources.go\<close> and \<open>kube/kube_client.go\<close>.
  \<^item> \<open>Proxy\<close>: \<open>proxy/packet.go\<close> and \<open>proxy/proxy.go\<close>.
  \<^item> \<open>Poc_Cli\<close>: \<open>poc/client.go\<close> and \<open>cmd.go\<close>.
  \<^item> \<open>Sim_Traffic\<close>: \<open>scripts/sim_traffic.go\<close>, the load generator.

  What is proved.

  \<^item> \<open>Raft_Invariants\<close>, \<open>Raft_Node\<close>: what holds of a node in every interleaving: the log only
    grows at its end, it holds proper commands only, it is (up to order) what the kube client
    was given or will be, membership and quorum do not change, the channel \<open>newTerm\<close> is
    dead, a node without peers never leads. Then the interleavings in which the node does
    what a Raft node must not do: a leader in a term it voted in for another, a term that
    falls, an entry that is stored twice, commands that reach the cluster in another order.
  \<^item> \<open>Raft_Protocol\<close>: each handler, run without interference, is a decision function of its
    state and message (\<open>decide_vote\<close>, \<open>decide_append\<close>) and an effect; \<open>Raft_Voting\<close> and
    \<open>Raft_Replication\<close> state from it what is answered and committed on every branch, and
    that the leader's handler and the follower's catch-up loop together copy the log.
    \<open>Raft_Alone\<close>: these runs are runs of a node, and every handler ends.
  \<^item> \<open>Raft_Cluster\<close>: a node of a cluster is a node, so all the above holds of it; no command is
    invented; whoever counts a quorum was answered by that many different peers.
    \<open>Raft_Cluster_Runs\<close>: runs without any loss that end with two leaders of a term, and with
    two logs of the same length that differ. \<open>Raft_Stable\<close>: what is left of the agreement of
    the logs, when there is one leader and handlers run one at a time.
    \<open>Raft_Elected\<close>: whoever leads has had the answers of a majority, in every interleaving.
  \<^item> \<open>Raft_Wire\<close>: a message that fits into its buffers arrives as it was sent; one that does not
    fit, or any bytes that are no gob message, stop the receiver; a stranger's message does nothing.
  \<^item> \<open>Kube_Client\<close>: the loop for every sequence of its cases: when it stops, that the cluster is
    the result of the delivered commands in their order, what is announced; when the health
    monitor ends.
  \<^item> \<open>Proxy_Properties\<close>, \<open>Proxy_Node\<close>: failover end to end, the bounds on what a request
    causes, which listeners a port list starts, keeps and drops, what holds in every interleaving
    of the proxy's goroutines, and its crashes and losses. \<open>Proxy_Request\<close>: a request to a node
    of the cluster can only panic after its time-out.
  \<^item> \<open>Sim_Traffic\<close>: the counts, the order and the identifiers of a test's result, which answers
    can be read, and what one that cannot does.
  \<^item> This theory: from the command line through the log and the cluster to the open port.

  Bounds. \<open>r_fetchLoop\<close> takes the number of rounds the source computes before its loop (the
  number of missing entries, none if negative), \<open>shufflePeers\<close> the length of the peer list, so
  neither is a fuel that could run out. Loops without an end (\<open>startRAFT\<close>, the proxy's and the
  kube client's) are not unrolled: a round ends in a jump to its label or in the rest of the
  events, and the theorems speak of every number of rounds. \<open>node_run\<close> gives \<open>None\<close> for a
  schedule that is not possible, and every theorem about a schedule shows that it is.

  Assumed of the outside, as arguments or named hypotheses: gob (an encoder and a decoder;
  laws only where a theorem needs a round trip), the Kubernetes API server
  (\<open>kube_api\<close>), sockets (which dials, writes and reads fail, and what they read), the clock,
  random numbers, map orders. All of these are chosen freely by the environment, within what
  is possible.

  Not modelled: that log lines are written (they are functions of the state), the length of
  sleeps, flag parsing, the plot script and the deployment files. Outside of \<open>Raft_Wire\<close> a raft
  payload is a value, \<open>PL_Bad\<close> if it does not decode; a message that is too large for its buffer
  is treated in \<open>Raft_Wire\<close> only.

  Simplifications, and their effect. The channel \<open>newLeaderCh\<close> is unbuffered; here a send on it
  always proceeds, and a \<open>select\<close> may take its case without a sender: the model has every
  behaviour of the program and some more, so invariants carry over, and in the runs that show
  a fault no goroutine ever comes to such a send and no such case is taken. \<open>net.ParseIP\<close> is the identity on
  strings: addresses are taken to be in canonical form. \<open>r.quorum\<close> is read once before the
  messages go out, not at each reply; it is written once, before the main loop. \<open>getLengthLog\<close>
  reads the log without the lock, here in one step: the slice is fixed when its loop begins and
  the elements of a log that is only appended to do not change. The loop of \<open>forwardToCluster\<close>
  leaves in its first round with an address, so it is that round.

  Planned extensions, in this order: votes and commits of a node as properties of all
  interleavings (which of them a node gives although it has given another); a quiet period
  in which the main goroutines run too; a commit of a leader in every interleaving of a cluster
  (the confirmations behind it), as \<open>Raft_Elected\<close> has it for elections.
\<close>

section \<open>Across the components\<close>

text \<open>C31:
  from the command line to the open port: on a leader whose proposal is confirmed by a quorum
  the command \<open>2\<close> of the command line is put on its way to the kube client; when it arrives,
  the kube client creates the service and announces a port list. The round of the proxy's main
  loop that gets this list starts the goroutine that listens at the service's node port plus
  100; in whatever state the proxy is when that goroutine binds its port, it registers the
  listener and goes on to accept; and later rounds with the same list do not close it. (The API
  server is assumed to list the services it created, with the documented type name.)
\<close>
theorem nodeport_command_opens_port:
  assumes "startCli [Some ''2''] = Value [cmd]"
    and "raft_role s = LEADER" and "range_order (rt_table (raft_peers s)) (in_order v)"
    and "length (in_votes w) \<le> length (nonempty_addrs (in_order v))"
    and "in_votes w \<noteq> []" and "raft_quorum s \<le> int (length (filter pl_Confirmed (in_votes w)))"
    and "api_ServiceTypeNodePort api = ''NodePort''"
    and "\<forall>ns svc c c'. api_CreateService api ns svc c = (nil_error, c') \<longrightarrow>
           (\<exists>items. api_ListServices api c' = Inr items \<and> svc \<in> set items)"
    and "fst (CreateNodePort api (kc_cluster k) (cmd_ObjectService cmd)) = nil_error"
    and "map_get (px_activeClusterPorts p) 30110 = None"
  shows "raft_toCluster (fst (exec raft_env (handleCli cmd) [v, w] s)) = raft_toCluster s @ [cmd] \<and>
    (\<exists>k' ports. kube_loop api [Case_update cmd] k = Value k' \<and> kc_announced k' = kc_announced k @ [ports] \<and>
       (\<forall>sel ins. pi_select sel = Inl ports \<and> length ports \<le> length ins \<longrightarrow>
          Px_Go 30110 \<in> set (fst (snd (exec px_env (proxy_code L_proxyStart) (sel # ins) p)))) \<and>
       (\<forall>ts q i. proxy_steps enc dec (proxy_init ip port peers) (q, ts) \<and> bind_ok 30110 i q \<longrightarrow>
          (\<exists>q'. exec px_env (listenPort 30110) [i] q = (q', [Px_Listen 30110], Jumped (L_accept 30110)) \<and>
             map_get (px_activeClusterPorts q') 30110 = Some 30110 \<and> 30110 \<in> set (px_bound q') \<and>
             (\<forall>sel ins. pi_select sel = Inl ports \<longrightarrow>
                30110 \<in> set (px_bound (fst (exec px_env (proxy_code L_proxyStart) (sel # ins) q')))))))"
proof -
  have "startCli [Some ''2''] = (case TestGenNodeportCmd of Panic \<Rightarrow> Panic | Value c \<Rightarrow> Value [c])"
    by code_simp
  then have cmd: "TestGenNodeportCmd = Value cmd" using assms(1) by (simp split: checked.splits)
  have "case TestGenNodeportCmd of Panic \<Rightarrow> False
      | Value c \<Rightarrow> cmd_Type c = CREATE_SERVICE \<and> sint (port_NodePort (np_Port (cmd_ObjectService c))) = 30010"
    by code_simp
  then have obj: "cmd_Type cmd = CREATE_SERVICE" "sint (port_NodePort (np_Port (cmd_ObjectService cmd))) = 30010"
    by (simp_all add: cmd)
  have raft: "raft_toCluster (fst (exec raft_env (handleCli cmd) [v, w] s)) = raft_toCluster s @ [cmd]"
    using assms(5,6) unfolding handleCli_def exec_commit_leader [OF assms(2-4)]
    by (simp add: collect_confirms_iff raft_simps)
  obtain k' ports where kube: "updateCluster api cmd k = Value k'"
    "kc_announced k' = kc_announced k @ [ports]" and port: "30010 \<in> set ports"
    using created_service_announced [OF assms(7) _ obj(1) assms(9)] assms(8) obj(2) by auto
  have shift: "add64 30010 100 = 30110" "sub64 30110 100 = 30010"
    by (simp_all add: add64_exact sub64_exact is_goint_def)
  from port have "30110 \<in> set (new_ports ports p)"
    using assms(10) shift(1) by (force simp: new_ports_def)
  moreover have "list_all (\<lambda>(x, ss). ss = x) (px_activeClusterPorts q)"
    if "proxy_steps enc dec (proxy_init ip port peers) (q, ts)" for q ts
    using proxy.reach_inv [OF that proxy_init_keeps] by (simp add: px_inv_def)
  ultimately show ?thesis
    using raft kube port shift(2)
    by (intro conjI exI [of _ k'] exI [of _ ports] allI impI)
      (auto simp: kube_select_def listenPort_opens list_all_map_set simp del: proxy_code.simps
        intro!: round_starts round_keeps_listener)
qed

theorem nodeport_command_opens_port_witness:
  "\<exists>cmd k' ports q'. startCli [Some ''2''] = Value [cmd] \<and>
     kube_loop toy_api [Case_update cmd] (new_KubeClient ([], [])) = Value k' \<and> kc_announced k' = [ports] \<and>
     Px_Go 30110 \<in> set (fst (snd (exec px_env (proxy_code L_proxyStart)
       (px_input0\<lparr>pi_select := Inl ports\<rparr> # replicate (length ports) px_input0) (InitProxy ''a'' 9997)))) \<and>
     exec px_env (listenPort 30110) [px_input0] (InitProxy ''a'' 9997) =
       (q', [Px_Listen 30110], Jumped (L_accept 30110)) \<and> 30110 \<in> set (px_bound q')"
proof -
  let ?s = "demo_node LEADER 2 [] []" and ?w = "input0\<lparr>in_votes := [demo_confirm]\<rparr>"
  let ?p = "InitProxy ''a'' 9997"
  have "case startCli [Some ''2''] of Panic \<Rightarrow> False | Value cs \<Rightarrow> length cs = 1 \<and>
      fst (CreateNodePort toy_api (kc_cluster (new_KubeClient ([], []))) (cmd_ObjectService (hd cs))) = nil_error"
    by code_simp
  then obtain cmd where cmd: "startCli [Some ''2''] = Value [cmd]"
    "fst (CreateNodePort toy_api (kc_cluster (new_KubeClient ([], []))) (cmd_ObjectService cmd)) = nil_error"
    by (auto simp: length_Suc_conv split: checked.splits)
  have h: "raft_role ?s = LEADER" "range_order (rt_table (raft_peers ?s)) (in_order demo_visit)"
    "length (in_votes ?w) \<le> length (nonempty_addrs (in_order demo_visit))"
    "in_votes ?w \<noteq> []" "raft_quorum ?s \<le> int (length (filter pl_Confirmed (in_votes ?w)))"
    by code_simp+
  have api: "api_ServiceTypeNodePort toy_api = ''NodePort''" by (simp add: toy_api_def)
  have law: "\<forall>ns svc c c'. api_CreateService toy_api ns svc c = (nil_error, c') \<longrightarrow>
      (\<exists>items. api_ListServices toy_api c' = Inr items \<and> svc \<in> set items)"
    by (auto simp: toy_api_def split: if_splits)
  have closed: "map_get (px_activeClusterPorts ?p) 30110 = None" by code_simp
  have start: "proxy_steps no_enc no_dec (proxy_init ''a'' 9997 []) (?p, [Goto L_proxyStart, listenProxies])"
    by (simp add: proxy_init_def proxy_addPeers_def)
  have bind: "bind_ok 30110 px_input0 ?p" by code_simp
  note opens = nodeport_command_opens_port [where enc = no_enc and dec = no_dec and ip = "''a''" and
    port = 9997 and peers = "[]", OF cmd(1) h api law cmd(2) closed, THEN conjunct2]
  from opens start bind
  obtain k' ports where r: "kube_loop toy_api [Case_update cmd] (new_KubeClient ([], [])) = Value k'"
    "kc_announced k' = kc_announced (new_KubeClient ([], []) :: (goint Service list \<times> Deployment list) KubeClient) @ [ports]"
    "\<forall>sel ins. pi_select sel = Inl ports \<and> length ports \<le> length ins \<longrightarrow>
       Px_Go 30110 \<in> set (fst (snd (exec px_env (proxy_code L_proxyStart) (sel # ins) ?p)))"
    "\<exists>q'. exec px_env (listenPort 30110) [px_input0] ?p = (q', [Px_Listen 30110], Jumped (L_accept 30110)) \<and>
       30110 \<in> set (px_bound q')" by blast
  moreover have "kc_announced k' = [ports]" using r(2) by (simp add: new_KubeClient_def)
  moreover have "Px_Go 30110 \<in> set (fst (snd (exec px_env (proxy_code L_proxyStart)
      (px_input0\<lparr>pi_select := Inl ports\<rparr> # replicate (length ports) px_input0) ?p)))"
    using r(3) by simp
  ultimately show ?thesis using cmd(1) by blast
qed

end
